(* ===== verification/Prelude.thy ===== *)
theory Prelude
  imports Main "HOL-Library.Word" "HOL-Library.Sublist" "HOL-Library.Finite_Map"
begin

unbundle bit_operations_syntax

text \<open>
  Shared vocabulary of the development: machine integers, Rust's \<open>Result\<close>, checked
  arithmetic, byte strings, big-endian integers, string splitting and decimal printing.

  A Rust \<open>String\<close> is a sequence of UTF-8 bytes; it is modelled by the \<open>char list\<close> of those
  bytes, so that \<open>length\<close> is \<open>String::len\<close>. A \<open>BTreeMap\<close> is a finite map (\<open>fmap\<close>) and a
  \<open>BTreeSet\<close> a finite set (\<open>fset\<close>), so that \<open>fcard\<close> is \<open>len()\<close> with no finiteness side
  condition. A \<open>usize\<close> that counts bytes or elements held in memory is a \<open>nat\<close>; every integer
  whose overflow the code checks for is kept at its width as a word.
\<close>

section \<open>Types\<close>

type_synonym u8 = "8 word"
type_synonym u16 = "16 word"
type_synonym u32 = "32 word"
type_synonym u64 = "64 word"
type_synonym u128 = "128 word"
type_synonym bytes = "u8 list"

text \<open>Rust's \<open>Result\<close>: the error on the left. A method on \<open>&mut self\<close> returns the result and
  the state it leaves behind, on the error branches too.\<close>

type_synonym ('e, 'a) result = "'e + 'a"
type_synonym ('s, 'e, 'a) outcome = "('e + 'a) \<times> 's"

abbreviation Ok :: "'a \<Rightarrow> ('e, 'a) result" where "Ok \<equiv> Inr"
abbreviation Err :: "'e \<Rightarrow> ('e, 'a) result" where "Err \<equiv> Inl"

named_theorems op_defs \<open>definitions of operations, unfolded together in invariant proofs\<close>
named_theorems wf_intros \<open>introduction rules for well-formedness\<close>

section \<open>Checked arithmetic\<close>

definition checked_add :: "'w::len word \<Rightarrow> 'w word \<Rightarrow> 'w word option" where
  "checked_add a b = (if unat a + unat b < 2 ^ LENGTH('w) then Some (a + b) else None)"

definition checked_sub :: "'w::len word \<Rightarrow> 'w word \<Rightarrow> 'w word option" where
  "checked_sub a b = (if b \<le> a then Some (a - b) else None)"

lemma checked_add_Some_iff:
  "checked_add a b = Some (c :: 'w::len word) \<longleftrightarrow> unat c = unat a + unat b"
proof
  assume "checked_add a b = Some c"
  then show "unat c = unat a + unat b"
    by (auto simp: checked_add_def unat_word_ariths split: if_splits)
next
  assume eq: "unat c = unat a + unat b"
  have "unat c < 2 ^ LENGTH('w)" by (rule unsigned_less)
  with eq show "checked_add a b = Some c"
    by (auto simp: checked_add_def unat_word_ariths word_unat_eq_iff)
qed

lemma checked_add_None_iff:
  "checked_add a b = None \<longleftrightarrow> 2 ^ LENGTH('w) \<le> unat a + unat (b :: 'w::len word)"
  by (auto simp: checked_add_def)

lemma checked_sub_Some_iff:
  "checked_sub a b = Some (c :: 'w::len word) \<longleftrightarrow> unat b \<le> unat a \<and> unat c = unat a - unat b"
  by (auto simp: checked_sub_def word_le_nat_alt unat_sub word_unat_eq_iff)

lemma checked_sub_None_iff:
  "checked_sub a b = None \<longleftrightarrow> unat a < unat (b :: 'w::len word)"
  by (auto simp: checked_sub_def word_le_nat_alt)

lemma checked_succ_less:
  "checked_add a 1 = Some (c :: u64) \<Longrightarrow> a < c"
  by (simp add: checked_add_Some_iff word_less_nat_alt)

lemma and_not_zero_iff:
  "x AND NOT y = 0 \<longleftrightarrow> (\<forall>n < LENGTH('w). bit x n \<longrightarrow> bit y n)" for x y :: "'w::len word"
  by (auto simp: bit_eq_iff bit_and_iff bit_not_iff)

lemma and_not_trans:
  "x AND NOT y = 0 \<Longrightarrow> y AND NOT z = 0 \<Longrightarrow> x AND NOT z = 0" for x y z :: "'w::len word"
  by (simp add: and_not_zero_iff)

section \<open>Byte strings\<close>

definition byte_of_char :: "char \<Rightarrow> u8" where
  "byte_of_char c = word_of_nat (of_char c)"

definition char_of_byte :: "u8 \<Rightarrow> char" where
  "char_of_byte b = char_of (unat b)"

text \<open>\<open>str::as_bytes\<close>, and the string whose bytes are given (its UTF-8 check is separate).\<close>

definition as_bytes :: "string \<Rightarrow> bytes" where
  "as_bytes s = map byte_of_char s"

definition of_bytes :: "bytes \<Rightarrow> string" where
  "of_bytes bs = map char_of_byte bs"

lemma unat_byte_of_char [simp]: "unat (byte_of_char c) = of_char c"
  by (simp add: byte_of_char_def unat_of_nat of_char_mod_256)

lemma char_of_byte_of_char [simp]: "char_of_byte (byte_of_char c) = c"
  by (simp add: char_of_byte_def)

lemma byte_of_char_of_byte [simp]: "byte_of_char (char_of_byte b) = b"
proof -
  have "unat b < 256" using unsigned_less [of b] by simp
  then show ?thesis
    by (simp add: char_of_byte_def word_unat_eq_iff of_char_of)
qed

lemma of_bytes_as_bytes [simp]: "of_bytes (as_bytes s) = s"
  by (simp add: as_bytes_def of_bytes_def comp_def)

lemma as_bytes_of_bytes [simp]: "as_bytes (of_bytes bs) = bs"
  by (simp add: as_bytes_def of_bytes_def comp_def)

lemma length_as_bytes [simp]: "length (as_bytes s) = length s"
  by (simp add: as_bytes_def)

lemma length_of_bytes [simp]: "length (of_bytes bs) = length bs"
  by (simp add: of_bytes_def)

lemma as_bytes_inject [simp]: "as_bytes s = as_bytes t \<longleftrightarrow> s = t"
  by (metis of_bytes_as_bytes)

section \<open>Big-endian integers\<close>

text \<open>\<open>be_bytes k v\<close> is \<open>v.to_be_bytes()\<close> for a \<open>k\<close>-byte unsigned integer, \<open>be_value\<close> is
  \<open>from_be_bytes\<close>.\<close>

fun be_bytes :: "nat \<Rightarrow> nat \<Rightarrow> bytes" where
  "be_bytes 0 v = []"
| "be_bytes (Suc k) v = be_bytes k (v div 256) @ [word_of_nat (v mod 256)]"

definition be_value :: "bytes \<Rightarrow> nat" where
  "be_value bs = foldl (\<lambda>acc b. acc * 256 + unat b) 0 bs"

lemma length_be_bytes [simp]: "length (be_bytes k v) = k"
  by (induction k arbitrary: v) auto

lemma be_value_Nil [simp]: "be_value [] = 0"
  by (simp add: be_value_def)

lemma be_value_snoc [simp]: "be_value (bs @ [b]) = be_value bs * 256 + unat b"
  by (simp add: be_value_def)

lemma be_value_be_bytes: "be_value (be_bytes k v) = v mod 256 ^ k"
proof (induction k arbitrary: v)
  case 0
  then show ?case by simp
next
  case (Suc k)
  have "be_value (be_bytes (Suc k) v) = (v div 256) mod 256 ^ k * 256 + v mod 256"
    by (simp add: Suc.IH unat_of_nat)
  also have "\<dots> = v mod 256 ^ Suc k"
    by (simp add: mod_mult2_eq)
  finally show ?case .
qed

lemma be_value_be_bytes_id [simp]: "v < 256 ^ k \<Longrightarrow> be_value (be_bytes k v) = v"
  by (simp add: be_value_be_bytes)

lemma be_value_less: "be_value bs < 256 ^ length bs"
proof (induction bs rule: rev_induct)
  case Nil
  then show ?case by simp
next
  case (snoc b bs)
  have "unat b < 256" using unsigned_less [of b] by simp
  with snoc have "be_value bs * 256 + unat b < (be_value bs + 1) * 256" by simp
  also have "\<dots> \<le> 256 ^ length bs * 256"
    using snoc by (intro mult_le_mono) auto
  finally show ?case by simp
qed

lemma be_bytes_be_value [simp]: "length bs = k \<Longrightarrow> be_bytes k (be_value bs) = bs"
proof (induction bs arbitrary: k rule: rev_induct)
  case Nil
  then show ?case by simp
next
  case (snoc b bs)
  have "unat b < 256" using unsigned_less [of b] by simp
  with snoc show ?case by auto
qed

lemma be_bytes_inject:
  "v < 256 ^ k \<Longrightarrow> w < 256 ^ k \<Longrightarrow> be_bytes k v = be_bytes k w \<longleftrightarrow> v = w"
  by (metis be_value_be_bytes_id)

section \<open>Splitting and joining\<close>

text \<open>\<open>str::split\<close> with a one-character separator: always at least one piece.\<close>

fun split_on :: "'a \<Rightarrow> 'a list \<Rightarrow> 'a list list" where
  "split_on c [] = [[]]"
| "split_on c (x # xs) =
     (if x = c then [] # split_on c xs
      else (case split_on c xs of [] \<Rightarrow> [[x]] | w # ws \<Rightarrow> (x # w) # ws))"

fun join_with :: "'a \<Rightarrow> 'a list list \<Rightarrow> 'a list" where
  "join_with c [] = []"
| "join_with c [w] = w"
| "join_with c (w # v # ws) = w @ c # join_with c (v # ws)"

lemma split_on_not_Nil [simp]: "split_on c xs \<noteq> []"
  by (induction xs) (auto split: list.splits)

lemma join_with_Cons: "ws \<noteq> [] \<Longrightarrow> join_with c (w # ws) = w @ c # join_with c ws"
  by (cases ws) auto

lemma join_split [simp]: "join_with c (split_on c xs) = xs"
proof (induction xs)
  case Nil
  then show ?case by simp
next
  case (Cons x xs)
  obtain w ws where ws: "split_on c xs = w # ws"
    by (cases "split_on c xs") auto
  with Cons show ?case
    by (cases ws) (auto simp: join_with_Cons)
qed

lemma split_on_pieces: "w \<in> set (split_on c xs) \<Longrightarrow> c \<notin> set w"
  by (induction xs arbitrary: w) (auto split: if_splits list.splits)

lemma split_on_no_sep [simp]: "c \<notin> set w \<Longrightarrow> split_on c w = [w]"
  by (induction w) auto

lemma split_on_append_sep:
  "c \<notin> set w \<Longrightarrow> split_on c (w @ c # xs) = w # split_on c xs"
  by (induction w) auto

lemma split_join:
  "ws \<noteq> [] \<Longrightarrow> (\<And>w. w \<in> set ws \<Longrightarrow> c \<notin> set w) \<Longrightarrow> split_on c (join_with c ws) = ws"
  by (induction c ws rule: join_with.induct) (auto simp: split_on_append_sep)

lemma set_split_on: "w \<in> set (split_on c xs) \<Longrightarrow> set w \<subseteq> set xs"
  by (induction xs arbitrary: w) (fastforce split: if_splits list.splits)+

lemma length_join_with: "length (join_with c ws) = sum_list (map length ws) + (length ws - 1)"
  by (induction c ws rule: join_with.induct) auto

section \<open>Iterators over fallible functions\<close>

text \<open>\<open>iter().enumerate().map(f).collect::<Result<Vec<_>, _>>()\<close>: stops at the first error.\<close>

fun collect_indexed :: "(nat \<Rightarrow> 'b \<Rightarrow> ('e, 'a) result) \<Rightarrow> nat \<Rightarrow> 'b list \<Rightarrow> ('e, 'a list) result" where
  "collect_indexed f i [] = Ok []"
| "collect_indexed f i (x # xs) =
     (case f i x of
        Err e \<Rightarrow> Err e
      | Ok y \<Rightarrow> (case collect_indexed f (Suc i) xs of Err e \<Rightarrow> Err e | Ok ys \<Rightarrow> Ok (y # ys)))"

lemma collect_indexed_id:
  assumes "\<And>i x y. f i x = Ok y \<longleftrightarrow> y = x \<and> good x"
  shows "collect_indexed f i xs = Ok ys \<longleftrightarrow> ys = xs \<and> list_all good xs"
  using assms by (induction xs arbitrary: i ys) (auto split: sum.splits, (metis sum.distinct(1))+)

text \<open>\<open>Result::and_then\<close>, the meaning of the \<open>?\<close> operator.\<close>

definition and_then :: "('e, 'a) result \<Rightarrow> ('a \<Rightarrow> ('e, 'b) result) \<Rightarrow> ('e, 'b) result" where
  "and_then r f = (case r of Err e \<Rightarrow> Err e | Ok x \<Rightarrow> f x)"

definition map_err :: "('e \<Rightarrow> 'f) \<Rightarrow> ('e, 'a) result \<Rightarrow> ('f, 'a) result" where
  "map_err g r = (case r of Err e \<Rightarrow> Err (g e) | Ok x \<Rightarrow> Ok x)"

definition ok_or :: "'e \<Rightarrow> 'a option \<Rightarrow> ('e, 'a) result" where
  "ok_or e r = (case r of None \<Rightarrow> Err e | Some x \<Rightarrow> Ok x)"

lemma and_then_simps [simp]: "and_then (Ok x) f = f x" "and_then (Err e) f = Err e"
  by (simp_all add: and_then_def)

lemma map_err_simps [simp]: "map_err g (Ok x) = Ok x" "map_err g (Err e) = Err (g e)"
  by (simp_all add: map_err_def)

lemma ok_or_simps [simp]: "ok_or e (Some x) = Ok x" "ok_or e None = Err e"
  by (simp_all add: ok_or_def)

lemma and_then_Ok: "and_then r f = Ok y \<longleftrightarrow> (\<exists>x. r = Ok x \<and> f x = Ok y)"
  by (cases r) auto

lemma and_then_cong [fundef_cong]:
  "r = s \<Longrightarrow> (\<And>x. s = Ok x \<Longrightarrow> f x = g x) \<Longrightarrow> and_then r f = and_then s g"
  by (cases s) auto

lemma map_err_Ok [simp]: "map_err g r = Ok y \<longleftrightarrow> r = Ok y"
  by (cases r) auto

lemma ok_or_Ok [simp]: "ok_or e r = Ok y \<longleftrightarrow> r = Some y"
  by (cases r) auto

section \<open>ASCII\<close>

definition is_ascii :: "string \<Rightarrow> bool" where
  "is_ascii s \<longleftrightarrow> list_all (\<lambda>c. of_char c < (128 :: nat)) s"

definition is_ascii_upper :: "char \<Rightarrow> bool" where
  "is_ascii_upper c \<longleftrightarrow> 65 \<le> (of_char c :: nat) \<and> of_char c \<le> (90 :: nat)"

definition is_ascii_lower :: "char \<Rightarrow> bool" where
  "is_ascii_lower c \<longleftrightarrow> 97 \<le> (of_char c :: nat) \<and> of_char c \<le> (122 :: nat)"

definition is_ascii_digit :: "char \<Rightarrow> bool" where
  "is_ascii_digit c \<longleftrightarrow> 48 \<le> (of_char c :: nat) \<and> of_char c \<le> (57 :: nat)"

definition is_ascii_alphanumeric :: "char \<Rightarrow> bool" where
  "is_ascii_alphanumeric c \<longleftrightarrow> is_ascii_upper c \<or> is_ascii_lower c \<or> is_ascii_digit c"

definition is_ascii_control :: "char \<Rightarrow> bool" where
  "is_ascii_control c \<longleftrightarrow> of_char c < (32 :: nat) \<or> of_char c = (127 :: nat)"

definition ascii_lower_char :: "char \<Rightarrow> char" where
  "ascii_lower_char c = (if is_ascii_upper c then char_of (of_char c + 32 :: nat) else c)"

definition to_ascii_lowercase :: "string \<Rightarrow> string" where
  "to_ascii_lowercase s = map ascii_lower_char s"

lemma not_upper_lower [simp]: "\<not> is_ascii_upper (ascii_lower_char c)"
  by (auto simp: ascii_lower_char_def is_ascii_upper_def of_char_of)

lemma ascii_lower_id [simp]: "\<not> is_ascii_upper c \<Longrightarrow> ascii_lower_char c = c"
  by (simp add: ascii_lower_char_def)

lemma to_ascii_lowercase_id: "list_all (\<lambda>c. \<not> is_ascii_upper c) s \<Longrightarrow> to_ascii_lowercase s = s"
  by (induction s) (auto simp: to_ascii_lowercase_def)

lemma to_ascii_lowercase_lower: "list_all (\<lambda>c. \<not> is_ascii_upper c) (to_ascii_lowercase s)"
  by (simp add: to_ascii_lowercase_def list_all_iff)

lemma length_to_ascii_lowercase [simp]: "length (to_ascii_lowercase s) = length s"
  by (simp add: to_ascii_lowercase_def)

lemma is_ascii_lowercase: "is_ascii s \<Longrightarrow> is_ascii (to_ascii_lowercase s)"
  by (auto simp: is_ascii_def to_ascii_lowercase_def list_all_iff ascii_lower_char_def
      is_ascii_upper_def of_char_of)

section \<open>Decimal printing\<close>

definition digit_char :: "nat \<Rightarrow> char" where
  "digit_char d = char_of (48 + d)"

fun show_nat :: "nat \<Rightarrow> string" where
  "show_nat n = (if n < 10 then [digit_char n] else show_nat (n div 10) @ [digit_char (n mod 10)])"

declare show_nat.simps [simp del]

definition dec_value :: "string \<Rightarrow> nat" where
  "dec_value s = foldl (\<lambda>acc c. acc * 10 + (of_char c - 48)) 0 s"

lemma of_char_digit: "d < 10 \<Longrightarrow> of_char (digit_char d) = 48 + d"
  by (simp add: digit_char_def of_char_of)

lemma digit_char_eval:
  "digit_char 0 = CHR ''0''" "digit_char 1 = CHR ''1''" "digit_char 2 = CHR ''2''"
  "digit_char 3 = CHR ''3''" "digit_char 4 = CHR ''4''" "digit_char 5 = CHR ''5''"
  "digit_char 6 = CHR ''6''" "digit_char 7 = CHR ''7''" "digit_char 8 = CHR ''8''"
  "digit_char 9 = CHR ''9''"
  by (simp_all add: digit_char_def char_of_def bit_0)

lemma dec_value_show [simp]: "dec_value (show_nat n) = n"
proof (induction n rule: show_nat.induct)
  case (1 n)
  show ?case
  proof (cases "n < 10")
    case True
    then show ?thesis
      by (subst show_nat.simps) (simp add: dec_value_def of_char_digit)
  next
    case False
    with 1 have "dec_value (show_nat (n div 10)) = n div 10" by simp
    with False show ?thesis
      by (subst show_nat.simps) (simp add: dec_value_def of_char_digit)
  qed
qed

lemma show_nat_inject [simp]: "show_nat m = show_nat n \<longleftrightarrow> m = n"
  by (metis dec_value_show)

section \<open>Finite maps\<close>

abbreviation fm_len :: "('k, 'v) fmap \<Rightarrow> nat" where
  "fm_len m \<equiv> fcard (fmdom m)"

lemma fm_len_upd:
  "fm_len (fmupd k v m) = (if fmlookup m k = None then Suc (fm_len m) else fm_len m)"
  by (auto simp: fcard_finsert_if fmlookup_dom_iff finsert_absorb)

lemma fm_len_drop:
  "fmlookup m k = Some v \<Longrightarrow> Suc (fm_len (fmdrop k m)) = fm_len m"
proof -
  assume "fmlookup m k = Some v"
  then have "k |\<in>| fmdom m" by (simp add: fmlookup_dom_iff)
  from fcard_Suc_fminus1 [OF this] show ?thesis by (simp only: fmdom_drop)
qed

definition extends :: "('k, 'v) fmap \<Rightarrow> ('k, 'v) fmap \<Rightarrow> bool" where
  "extends m n \<longleftrightarrow> (\<forall>k v. fmlookup m k = Some v \<longrightarrow> fmlookup n k = Some v)"

lemma extends_refl [simp]: "extends m m"
  by (simp add: extends_def)

lemma extends_trans: "extends m n \<Longrightarrow> extends n p \<Longrightarrow> extends m p"
  by (simp add: extends_def)

lemma extends_fresh: "k |\<notin>| fmdom m \<Longrightarrow> extends m (fmupd k v m)"
  by (auto simp: extends_def intro: fmdomI)

lemma extends_lookup: "extends m n \<Longrightarrow> fmlookup m k = Some v \<Longrightarrow> fmlookup n k = Some v"
  by (simp add: extends_def)

text \<open>Visiting a new member of a finite set leaves fewer members to visit.\<close>

lemma fcard_visit:
  assumes "i |\<in>| A" "i |\<notin>| V"
  shows "fcard (A |-| finsert i V) < fcard (A |-| V)"
proof -
  have "A |-| finsert i V = (A |-| V) |-| {|i|}" by auto
  with assms fcard_Suc_fminus1 [of i "A |-| V"] show ?thesis by simp
qed

end
