(* ===== verification/Interfaces.thy ===== *)
theory Interfaces
  imports Prelude
begin

text \<open>
  The contracts that several components of the authority model share, each stated once as a
  locale and interpreted on the model's definitions in the theories that provide them:

  \<^item> \<open>segment_pattern\<close>: exact and prefix selectors over segmented names
    (\<open>PathPattern\<close>, \<open>UrlPathPattern\<close>, \<open>BranchPattern\<close>);
  \<^item> \<open>flag_set\<close>: closed enumerations packed into fixed-width bit sets
    (\<open>FileEffects\<close>, \<open>HttpFetchMethods\<close>, \<open>GitHubOperations\<close>);
  \<^item> \<open>authority_family\<close>: a request relation with a delegation preorder that is sound for it
    (file, HTTP, GitHub authorities, their union and whole capabilities);
  \<^item> \<open>prefix_code\<close>: encoders whose output may be followed by more output (the fields of the
    canonical policy encoding and of the wire format);
  \<^item> \<open>machine\<close>: a state machine whose every operation keeps an invariant and moves forward in
    a preorder (the capability state, the replay ledger, the budget, the node table);
  \<^item> \<open>implementation\<close>: a detailed machine that answers as an abstract specification does (the
    replay guard and its ledger).
\<close>

section \<open>Segment patterns\<close>

locale segment_pattern =
  fixes segs :: "'p \<Rightarrow> string list"
    and exact :: "'p \<Rightarrow> 'pat"
    and pre :: "'p \<Rightarrow> 'pat"
    and selects :: "'pat \<Rightarrow> 'p \<Rightarrow> bool"
    and below :: "'pat \<Rightarrow> 'pat \<Rightarrow> bool"
  assumes segs_inject: "segs p = segs q \<Longrightarrow> p = q"
    and pat_cases: "(\<exists>p. t = exact p) \<or> (\<exists>p. t = pre p)"
    and selects_exact: "selects (exact p) q \<longleftrightarrow> p = q"
    and selects_pre: "selects (pre p) q \<longleftrightarrow> prefix (segs p) (segs q)"
    and below_exact_exact: "below (exact p) (exact q) \<longleftrightarrow> p = q"
    and below_exact_pre: "below (exact p) (pre q) \<longleftrightarrow> prefix (segs q) (segs p)"
    and below_pre_pre: "below (pre p) (pre q) \<longleftrightarrow> prefix (segs q) (segs p)"
    and below_pre_exact: "\<not> below (pre p) (exact q)"
begin

lemmas pattern_laws =
  selects_exact selects_pre below_exact_exact below_exact_pre below_pre_pre below_pre_exact

lemma pattern_exhaust:
  obtains p where "t = exact p" | p where "t = pre p"
  using pat_cases by blast

lemma below_refl: "below t t"
  by (rule pattern_exhaust [of t]) (auto simp: pattern_laws)

lemma below_sound: "below c t \<Longrightarrow> selects c q \<Longrightarrow> selects t q"
  by (rule pattern_exhaust [of c]; rule pattern_exhaust [of t])
    (auto simp: pattern_laws intro: prefix_order.trans)

lemma below_trans: "below a b \<Longrightarrow> below b c \<Longrightarrow> below a c"
  by (rule pattern_exhaust [of a]; rule pattern_exhaust [of b]; rule pattern_exhaust [of c])
    (auto simp: pattern_laws intro: prefix_order.trans)

text \<open>
  The delegation rule is also complete for the paths that occur (\<open>valid\<close>), except at a prefix
  that has no valid strict descendant, where a prefix selects what an exact pattern selects.
\<close>

lemma below_complete:
  assumes self: "\<And>p. c = exact p \<or> c = pre p \<Longrightarrow> valid p"
    and ext: "\<And>p. c = pre p \<Longrightarrow> \<exists>q. valid q \<and> q \<noteq> p \<and> prefix (segs p) (segs q)"
    and incl: "\<And>q. valid q \<Longrightarrow> selects c q \<Longrightarrow> selects t q"
  shows "below c t"
proof (rule pattern_exhaust [of c])
  fix p assume c: "c = exact p"
  with self incl have "selects t p" by (auto simp: pattern_laws)
  with c show ?thesis
    by (cases t rule: pattern_exhaust) (auto simp: pattern_laws)
next
  fix p assume c: "c = pre p"
  with self incl have t: "selects t p" by (auto simp: pattern_laws)
  from ext [OF c] obtain q where "valid q" "q \<noteq> p" "prefix (segs p) (segs q)" by blast
  with c incl have "selects t q" by (auto simp: pattern_laws)
  with t c \<open>q \<noteq> p\<close> show ?thesis
    by (cases t rule: pattern_exhaust) (auto simp: pattern_laws)
qed

end

section \<open>Bit sets of a closed enumeration\<close>

locale flag_set =
  fixes pos :: "'e \<Rightarrow> nat"
    and mask :: "'e \<Rightarrow> 'w :: len word"
    and all_flags :: "'e list"
  assumes mask_pos: "mask e = push_bit (pos e) 1"
    and pos_bound: "pos e < LENGTH('w)"
    and pos_inject: "pos e = pos f \<Longrightarrow> e = f"
    and all_flags_complete: "e \<in> set all_flags"
begin

lemma bit_mask: "bit (mask e) n \<longleftrightarrow> n = pos e"
  using pos_bound [of e] by (auto simp: mask_pos push_bit_of_1 bit_exp_iff)

lemma contains_iff_bit: "s AND mask e \<noteq> 0 \<longleftrightarrow> bit s (pos e)"
proof -
  have "s AND mask e \<noteq> 0 \<longleftrightarrow> (\<exists>n. bit (s AND mask e) n)"
    by (metis bit_0_eq bot_apply bot_bool_def bit_eqI)
  then show ?thesis by (auto simp: bit_and_iff bit_mask)
qed

lemma contains_empty: "\<not> (0 AND mask e \<noteq> 0)"
  by simp

lemma contains_mask: "mask f AND mask e \<noteq> 0 \<longleftrightarrow> e = f"
  by (auto simp: contains_iff_bit bit_mask dest: pos_inject)

lemma contains_or: "(s OR t) AND mask e \<noteq> 0 \<longleftrightarrow> s AND mask e \<noteq> 0 \<or> t AND mask e \<noteq> 0"
  by (simp add: contains_iff_bit bit_or_iff)

lemma bit_from_list: "bit (fold (\<lambda>e acc. acc OR mask e) es s) n \<longleftrightarrow> bit s n \<or> n \<in> pos ` set es"
  by (induction es arbitrary: s) (auto simp: bit_or_iff bit_mask)

lemma contains_from_list: "fold (\<lambda>e acc. acc OR mask e) es 0 AND mask e \<noteq> 0 \<longleftrightarrow> e \<in> set es"
  by (auto simp: contains_iff_bit bit_from_list dest: pos_inject)

text \<open>Rebuilding a well-formed set from the membership of its flags gives it back.\<close>

lemma rebuild_bits:
  assumes wf: "\<And>n. bit s n \<Longrightarrow> n \<in> range pos"
  shows "fold (\<lambda>e acc. acc OR (if s AND mask e \<noteq> 0 then push_bit (pos e) 1 else 0)) all_flags 0 = s"
    (is "?f = s")
proof (rule bit_word_eqI)
  fix n
  have "bit (fold (\<lambda>e acc. acc OR (if s AND mask e \<noteq> 0 then push_bit (pos e) 1 else 0)) es t) n \<longleftrightarrow>
      bit t n \<or> (\<exists>e \<in> set es. n = pos e \<and> bit s n)"
    for es and t :: "'w word"
    by (induction es arbitrary: t)
      (auto simp del: push_bit_of_1 simp: bit_or_iff contains_iff_bit mask_pos [symmetric] bit_mask)
  from this [of all_flags 0]
  show "bit ?f n \<longleftrightarrow> bit s n"
    using wf [of n] all_flags_complete by auto
qed

lemma subset_sound: "s AND NOT t = 0 \<Longrightarrow> s AND mask e \<noteq> 0 \<Longrightarrow> t AND mask e \<noteq> 0"
proof -
  assume "s AND NOT t = 0" "s AND mask e \<noteq> 0"
  moreover have "bit (s AND NOT t) (pos e) \<longleftrightarrow> bit s (pos e) \<and> \<not> bit t (pos e)"
    using pos_bound [of e] by (simp add: bit_and_iff bit_not_iff)
  ultimately show ?thesis by (simp add: contains_iff_bit)
qed

text \<open>A set is well formed when every bit names a member of the enumeration.\<close>

lemma subset_complete:
  assumes wf: "\<And>n. bit s n \<Longrightarrow> n \<in> range pos"
    and incl: "\<And>e. s AND mask e \<noteq> 0 \<Longrightarrow> t AND mask e \<noteq> 0"
  shows "s AND NOT t = 0"
proof (rule bit_word_eqI)
  fix n assume "n < LENGTH('w)"
  show "bit (s AND NOT t) n \<longleftrightarrow> bit (0 :: 'w word) n"
  proof (cases "bit s n")
    case True
    then obtain e where "n = pos e" using wf by blast
    with True incl [of e] show ?thesis by (simp add: contains_iff_bit bit_and_iff bit_not_iff)
  qed (simp add: bit_and_iff)
qed

lemma flags_eqI:
  assumes "\<And>n. bit s n \<Longrightarrow> n \<in> range pos" "\<And>n. bit t n \<Longrightarrow> n \<in> range pos"
    and "\<And>e. s AND mask e \<noteq> 0 \<longleftrightarrow> t AND mask e \<noteq> 0"
  shows "s = t"
proof (rule bit_word_eqI)
  fix n
  show "bit s n \<longleftrightarrow> bit t n"
    using assms(1,2) [of n] assms(3) by (auto simp: contains_iff_bit image_iff)
qed

end

section \<open>Authorities with a delegation preorder\<close>

locale authority_family =
  fixes permits :: "'a \<Rightarrow> 'r \<Rightarrow> bool"
    and below :: "'a \<Rightarrow> 'a \<Rightarrow> bool"
  assumes family_refl: "below a a"
    and family_trans: "below a b \<Longrightarrow> below b c \<Longrightarrow> below a c"
    and family_sound: "below c p \<Longrightarrow> permits c r \<Longrightarrow> permits p r"
begin

text \<open>A delegation chain is listed from the leaf to its root.\<close>

lemma chain_below:
  "successively below (a # as) \<Longrightarrow> b \<in> set (a # as) \<Longrightarrow> below a b"
proof (induction as arbitrary: a)
  case Nil
  then show ?case by (simp add: family_refl)
next
  case (Cons c as)
  then show ?case by (auto intro: family_refl family_trans)
qed

lemma chain_sound:
  "successively below (a # as) \<Longrightarrow> permits a r \<Longrightarrow> b \<in> set (a # as) \<Longrightarrow> permits b r"
  using chain_below family_sound by blast

end

section \<open>Self-delimiting encodings\<close>

text \<open>
  An encoder is a prefix code on its well-formed values when a following suffix never changes
  how an encoding is read: fields may be concatenated without losing injectivity.
\<close>

locale prefix_code =
  fixes enc :: "'a \<Rightarrow> 'b list"
    and fits :: "'a \<Rightarrow> bool"
  assumes enc_append: "fits x \<Longrightarrow> fits y \<Longrightarrow> enc x @ r = enc y @ s \<Longrightarrow> x = y \<and> r = s"
begin

lemma enc_append_iff: "fits x \<Longrightarrow> fits y \<Longrightarrow> enc x @ r = enc y @ s \<longleftrightarrow> x = y \<and> r = s"
  using enc_append by blast

lemma enc_inject: "fits x \<Longrightarrow> fits y \<Longrightarrow> enc x = enc y \<longleftrightarrow> x = y"
  using enc_append [of x y "[]" "[]"] by auto

lemma enc_list_append:
  "length xs = length ys \<Longrightarrow> list_all fits xs \<Longrightarrow> list_all fits ys \<Longrightarrow>
     concat (map enc xs) @ r = concat (map enc ys) @ s \<longleftrightarrow> xs = ys \<and> r = s"
  by (induction xs ys rule: list_induct2) (auto simp: enc_append_iff)

end

section \<open>Writers and readers\<close>

text \<open>
  A writer appends a value to a buffer and may refuse; a reader consumes a value from the front of
  a slice. Loops over a list of values write and read them in order.
\<close>

fun put_all :: "('a \<Rightarrow> 'b list \<Rightarrow> ('e, 'b list) result) \<Rightarrow> 'a list \<Rightarrow> 'b list \<Rightarrow> ('e, 'b list) result" where
  "put_all f [] w = Ok w"
| "put_all f (x # xs) w = and_then (f x w) (put_all f xs)"

fun get_many :: "('b list \<Rightarrow> ('e, 'a \<times> 'b list) result) \<Rightarrow> nat \<Rightarrow> 'b list \<Rightarrow> ('e, 'a list \<times> 'b list) result" where
  "get_many f 0 bs = Ok ([], bs)"
| "get_many f (Suc n) bs =
     and_then (f bs) (\<lambda>(x, bs). and_then (get_many f n bs) (\<lambda>(xs, bs). Ok (x # xs, bs)))"

locale codec =
  fixes put :: "'a \<Rightarrow> 'b list \<Rightarrow> ('e, 'b list) result"
    and get :: "'b list \<Rightarrow> ('f, 'a \<times> 'b list) result"
    and fits :: "'a \<Rightarrow> bool"
  assumes put_get:
    "fits x \<Longrightarrow> put x w = Ok w' \<Longrightarrow> \<exists>b. w' = w @ b \<and> (\<forall>r. get (b @ r) = Ok (x, r))"
begin

lemma put_all_get_many:
  assumes "list_all fits xs" "put_all put xs w = Ok w'"
  shows "\<exists>b. w' = w @ b \<and> (\<forall>r. get_many get (length xs) (b @ r) = Ok (xs, r))"
  using assms
proof (induction xs arbitrary: w)
  case (Cons x xs)
  then obtain v where v: "put x w = Ok v" "put_all put xs v = Ok w'"
    by (auto simp: and_then_Ok)
  obtain b where b: "v = w @ b" "\<And>r. get (b @ r) = Ok (x, r)"
    using put_get [of x w v] Cons.prems v by auto
  obtain c where c: "w' = v @ c" "\<And>r. get_many get (length xs) (c @ r) = Ok (xs, r)"
    using Cons.IH [of v] Cons.prems v by auto
  show ?case
    by (intro exI [of _ "b @ c"]) (simp add: b c)
qed simp

text \<open>Two values that write the same bytes after the same buffer are equal.\<close>

lemma put_inject: "fits x \<Longrightarrow> fits y \<Longrightarrow> put x w = Ok v \<Longrightarrow> put y w = Ok v \<Longrightarrow> x = y"
  using put_get [of x w v] put_get [of y w v] by fastforce

end

section \<open>State machines\<close>

text \<open>Running a sequence of operations: the final state, and the list of outcomes.\<close>

primrec run :: "('op \<Rightarrow> 's \<Rightarrow> 'o \<times> 's) \<Rightarrow> 'op list \<Rightarrow> 's \<Rightarrow> 's" where
  "run f [] s = s"
| "run f (x # xs) s = run f xs (snd (f x s))"

primrec trace :: "('op \<Rightarrow> 's \<Rightarrow> 'o \<times> 's) \<Rightarrow> 'op list \<Rightarrow> 's \<Rightarrow> 'o list" where
  "trace f [] s = []"
| "trace f (x # xs) s = fst (f x s) # trace f xs (snd (f x s))"

lemma run_append: "run f (xs @ ys) s = run f ys (run f xs s)"
  by (induction xs arbitrary: s) auto

lemma trace_append: "trace f (xs @ ys) s = trace f xs s @ trace f ys (run f xs s)"
  by (induction xs arbitrary: s) auto

lemma length_trace [simp]: "length (trace f xs s) = length xs"
  by (induction xs arbitrary: s) auto

locale machine =
  fixes step :: "'op \<Rightarrow> 's \<Rightarrow> 'o \<times> 's"
    and good :: "'s \<Rightarrow> bool"
    and later :: "'s \<Rightarrow> 's \<Rightarrow> bool"
  assumes step_good: "good s \<Longrightarrow> good (snd (step x s))"
    and step_later: "good s \<Longrightarrow> later s (snd (step x s))"
    and later_refl: "later s s"
    and later_trans: "later s t \<Longrightarrow> later t u \<Longrightarrow> later s u"
begin

lemma run_good: "good s \<Longrightarrow> good (run step xs s)"
  by (induction xs arbitrary: s) (auto intro: step_good)

lemma run_later: "good s \<Longrightarrow> later s (run step xs s)"
  by (induction xs arbitrary: s)
    (auto intro: step_good later_refl later_trans [OF step_later])

text \<open>An upward closed fact that holds at some point of a run holds at every later point.\<close>

lemma run_stable:
  assumes "\<And>s t. later s t \<Longrightarrow> P s \<Longrightarrow> P t" "good s" "P (run step xs s)"
  shows "P (run step (xs @ ys) s)"
  using assms run_later [of "run step xs s" ys] run_good [of s xs] by (simp add: run_append)

end

section \<open>Implementations of a specification\<close>

text \<open>
  A detailed machine implements an abstract one when every abstract state is represented by a
  detailed one and each operation answers the same and keeps the representation.
\<close>

locale implementation =
  fixes detailed :: "'op \<Rightarrow> 'c \<Rightarrow> 'o \<times> 'c"
    and abstract :: "'op \<Rightarrow> 'a \<Rightarrow> 'o \<times> 'a"
    and rep :: "'a \<Rightarrow> 'c"
    and valid :: "'a \<Rightarrow> bool"
  assumes simulates: "valid a \<Longrightarrow> detailed x (rep a) = map_prod id rep (abstract x a)"
    and valid_step: "valid a \<Longrightarrow> valid (snd (abstract x a))"
begin

lemma same_answers: "valid a \<Longrightarrow> trace detailed xs (rep a) = trace abstract xs a"
  by (induction xs arbitrary: a) (simp_all add: simulates valid_step)

lemma represented: "valid a \<Longrightarrow> run detailed xs (rep a) = rep (run abstract xs a)"
  by (induction xs arbitrary: a) (simp_all add: simulates valid_step)

end

end
