(* ===== verification/Time_Window.thy ===== *)
theory Time_Window
  imports Interfaces
begin

text \<open>
  Session-local monotonic time (\<open>authority-core/src/time.rs\<close>): timestamps are \<open>u64\<close> ticks with
  the derived order, and a \<open>TimeWindow\<close> is a non-empty half-open interval of them.
\<close>

datatype MonotonicTime = MonotonicTime (ticks: u64)

instantiation MonotonicTime :: linorder
begin

definition less_eq_MonotonicTime :: "MonotonicTime \<Rightarrow> MonotonicTime \<Rightarrow> bool" where
  "less_eq_MonotonicTime s t \<longleftrightarrow> ticks s \<le> ticks t"

definition less_MonotonicTime :: "MonotonicTime \<Rightarrow> MonotonicTime \<Rightarrow> bool" where
  "less_MonotonicTime s t \<longleftrightarrow> ticks s < ticks t"

instance
  by standard (auto simp: less_eq_MonotonicTime_def less_MonotonicTime_def MonotonicTime.expand)

end

lemmas MonotonicTime_order = less_eq_MonotonicTime_def less_MonotonicTime_def

record TimeWindow =
  not_before :: MonotonicTime
  expires_at :: MonotonicTime

record InvalidTimeWindow =
  itw_not_before :: MonotonicTime
  itw_expires_at :: MonotonicTime

definition TimeWindow_new ::
    "MonotonicTime \<Rightarrow> MonotonicTime \<Rightarrow> (InvalidTimeWindow, TimeWindow) result" where
  "TimeWindow_new a b =
     (if ticks a < ticks b then Ok \<lparr>not_before = a, expires_at = b\<rparr>
      else Err \<lparr>itw_not_before = a, itw_expires_at = b\<rparr>)"

definition TimeWindow_contains :: "TimeWindow \<Rightarrow> MonotonicTime \<Rightarrow> bool" where
  "TimeWindow_contains w t \<longleftrightarrow> ticks (not_before w) \<le> ticks t \<and> ticks t < ticks (expires_at w)"

definition TimeWindow_is_subset_of :: "TimeWindow \<Rightarrow> TimeWindow \<Rightarrow> bool" where
  "TimeWindow_is_subset_of c p \<longleftrightarrow>
     ticks (not_before p) \<le> ticks (not_before c) \<and> ticks (expires_at c) \<le> ticks (expires_at p)"

definition wf_window :: "TimeWindow \<Rightarrow> bool" where
  "wf_window w \<longleftrightarrow> not_before w < expires_at w"

section \<open>Properties\<close>

lemma TimeWindow_new_wf: "TimeWindow_new a b = Ok w \<Longrightarrow> wf_window w"
  by (auto simp: TimeWindow_new_def wf_window_def MonotonicTime_order split: if_splits)

lemma window_contains_interval: "TimeWindow_contains w t \<longleftrightarrow> not_before w \<le> t \<and> t < expires_at w"
  by (simp add: TimeWindow_contains_def MonotonicTime_order)

lemma window_subset_alt:
  "TimeWindow_is_subset_of c p \<longleftrightarrow> not_before p \<le> not_before c \<and> expires_at c \<le> expires_at p"
  by (simp add: TimeWindow_is_subset_of_def MonotonicTime_order)

lemma window_subset_refl [simp]: "TimeWindow_is_subset_of w w"
  by (simp add: window_subset_alt)

lemma window_subset_trans:
  "TimeWindow_is_subset_of a b \<Longrightarrow> TimeWindow_is_subset_of b c \<Longrightarrow> TimeWindow_is_subset_of a c"
  by (auto simp: window_subset_alt)

lemma window_subset_sound:
  "TimeWindow_is_subset_of c p \<Longrightarrow> TimeWindow_contains c t \<Longrightarrow> TimeWindow_contains p t"
  by (auto simp: window_subset_alt window_contains_interval)

text \<open>The greatest time of a non-empty window, needed for completeness.\<close>

lemma wf_window_last:
  assumes "wf_window w"
  obtains t where "TimeWindow_contains w t" "\<And>u. t < u \<Longrightarrow> expires_at w \<le> u"
proof
  let ?e = "ticks (expires_at w)"
  let ?t = "MonotonicTime (?e - 1)"
  from assms have lt: "ticks (not_before w) < ?e" by (simp add: wf_window_def MonotonicTime_order)
  then have "?e \<noteq> 0" by auto
  then have val: "unat (?e - 1) = unat ?e - 1" "0 < unat ?e"
    by (auto simp: unat_minus_one unat_gt_0)
  with lt show "TimeWindow_contains w ?t"
    by (auto simp: TimeWindow_contains_def word_less_nat_alt word_le_nat_alt)
  show "expires_at w \<le> u" if "?t < u" for u
    using that val by (auto simp: MonotonicTime_order word_less_nat_alt word_le_nat_alt)
qed

lemma window_subset_complete:
  assumes wf: "wf_window c" and incl: "\<And>t. TimeWindow_contains c t \<Longrightarrow> TimeWindow_contains p t"
  shows "TimeWindow_is_subset_of c p"
proof -
  from wf have "TimeWindow_contains c (not_before c)"
    by (simp add: window_contains_interval wf_window_def)
  from incl [OF this] have lo: "not_before p \<le> not_before c"
    by (simp add: window_contains_interval)
  obtain t where t: "TimeWindow_contains c t" "\<And>u. t < u \<Longrightarrow> expires_at c \<le> u"
    by (rule wf_window_last [OF wf]) blast
  from incl [OF t(1)] have "t < expires_at p" by (simp add: window_contains_interval)
  from lo t(2) [OF this] show ?thesis by (simp add: window_subset_alt)
qed

end
