(* ===== verification/Canonical_Path.thy ===== *)
theory Canonical_Path
  imports Interfaces
begin

text \<open>
  Canonical repository paths and path patterns (\<open>authority-core/src/path.rs\<close>).  A path is its
  list of validated segments; a segment is the list of its UTF-8 bytes, so \<open>length\<close> is \<open>len()\<close>.
  Byte counts are natural numbers: the checked additions of the source fail only on values no
  allocation reaches, and then with the error that the length limit gives as well.
\<close>

definition MAX_CANONICAL_PATH_BYTES :: nat where
  "MAX_CANONICAL_PATH_BYTES = 4096"

definition MAX_CANONICAL_PATH_SEGMENTS :: nat where
  "MAX_CANONICAL_PATH_SEGMENTS = 64"

lemmas path_limits = MAX_CANONICAL_PATH_BYTES_def MAX_CANONICAL_PATH_SEGMENTS_def

record CanonicalPath =
  cp_segments :: "string list"

datatype InvalidPathSegmentReason =
    PathEmpty
  | PathCurrentDirectory
  | PathParentDirectory
  | PathContainsSeparator
  | PathContainsNul
  | PathContainsWildcard
  | PathTooManySegments
  | PathEncodedPathTooLong

record InvalidPathSegment =
  ips_index :: nat
  ips_reason :: InvalidPathSegmentReason

definition invalid_segment :: "nat \<Rightarrow> InvalidPathSegmentReason \<Rightarrow> (InvalidPathSegment, 'a) result" where
  "invalid_segment i r = Err \<lparr>ips_index = i, ips_reason = r\<rparr>"

definition validate_segment :: "nat \<Rightarrow> string \<Rightarrow> (InvalidPathSegment, unit) result" where
  "validate_segment i s =
     (if s = '''' then invalid_segment i PathEmpty
      else if s = ''.'' then invalid_segment i PathCurrentDirectory
      else if s = ''..'' then invalid_segment i PathParentDirectory
      else if CHR ''/'' \<in> set s then invalid_segment i PathContainsSeparator
      else if CHR 0x00 \<in> set s then invalid_segment i PathContainsNul
      else if CHR ''*'' \<in> set s then invalid_segment i PathContainsWildcard
      else Ok ())"

definition CanonicalPath_root :: CanonicalPath where
  "CanonicalPath_root = \<lparr>cp_segments = []\<rparr>"

text \<open>The loop of \<open>CanonicalPath::new\<close>: \<open>acc\<close> is the vector built so far, \<open>n\<close> its byte count.\<close>

fun path_new_loop ::
    "nat \<Rightarrow> nat \<Rightarrow> string list \<Rightarrow> string list \<Rightarrow> (InvalidPathSegment, CanonicalPath) result" where
  "path_new_loop i n acc [] = Ok \<lparr>cp_segments = acc\<rparr>"
| "path_new_loop i n acc (s # ss) =
     (case validate_segment i s of
        Err e \<Rightarrow> Err e
      | Ok _ \<Rightarrow>
          if i \<ge> MAX_CANONICAL_PATH_SEGMENTS then invalid_segment i PathTooManySegments
          else
            let n' = n + (if i \<noteq> 0 then 1 else 0) + length s
            in if n' > MAX_CANONICAL_PATH_BYTES then invalid_segment i PathEncodedPathTooLong
               else path_new_loop (Suc i) n' (acc @ [s]) ss)"

definition CanonicalPath_new :: "string list \<Rightarrow> (InvalidPathSegment, CanonicalPath) result" where
  "CanonicalPath_new ss = path_new_loop 0 0 [] ss"

definition CanonicalPath_is_root :: "CanonicalPath \<Rightarrow> bool" where
  "CanonicalPath_is_root p \<longleftrightarrow> cp_segments p = []"

definition CanonicalPath_parent :: "CanonicalPath \<Rightarrow> CanonicalPath option" where
  "CanonicalPath_parent p =
     (if cp_segments p = [] then None else Some \<lparr>cp_segments = butlast (cp_segments p)\<rparr>)"

definition CanonicalPath_encoded_len :: "CanonicalPath \<Rightarrow> nat" where
  "CanonicalPath_encoded_len p =
     sum_list (map length (cp_segments p)) + (length (cp_segments p) - 1)"

definition CanonicalPath_child ::
    "CanonicalPath \<Rightarrow> string \<Rightarrow> (InvalidPathSegment, CanonicalPath) result" where
  "CanonicalPath_child p c =
     (let i = length (cp_segments p)
      in case validate_segment i c of
           Err e \<Rightarrow> Err e
         | Ok _ \<Rightarrow>
             if i \<ge> MAX_CANONICAL_PATH_SEGMENTS then invalid_segment i PathTooManySegments
             else if CanonicalPath_encoded_len p + (if i \<noteq> 0 then 1 else 0) + length c
                       > MAX_CANONICAL_PATH_BYTES
             then invalid_segment i PathEncodedPathTooLong
             else Ok \<lparr>cp_segments = cp_segments p @ [c]\<rparr>)"

definition CanonicalPath_is_at_or_below :: "CanonicalPath \<Rightarrow> CanonicalPath \<Rightarrow> bool" where
  "CanonicalPath_is_at_or_below p a \<longleftrightarrow> prefix (cp_segments a) (cp_segments p)"

text \<open>\<open>slice::strip_prefix\<close>.\<close>

definition strip_prefix :: "'a list \<Rightarrow> 'a list \<Rightarrow> 'a list option" where
  "strip_prefix pre xs = (if prefix pre xs then Some (drop (length pre) xs) else None)"

definition CanonicalPath_rebase ::
    "CanonicalPath \<Rightarrow> CanonicalPath \<Rightarrow> CanonicalPath \<Rightarrow> CanonicalPath option" where
  "CanonicalPath_rebase p src dst =
     (case strip_prefix (cp_segments src) (cp_segments p) of
        None \<Rightarrow> None
      | Some suf \<Rightarrow>
          if length (cp_segments dst) + length suf > MAX_CANONICAL_PATH_SEGMENTS then None
          else
            let suffix_bytes = sum_list (map length suf) + (length suf - 1);
                separator_bytes = (if suf \<noteq> [] \<and> cp_segments dst \<noteq> [] then 1 else 0);
                encoded_bytes = CanonicalPath_encoded_len dst + separator_bytes + suffix_bytes
            in if encoded_bytes > MAX_CANONICAL_PATH_BYTES then None
               else Some \<lparr>cp_segments = cp_segments dst @ suf\<rparr>)"

datatype PathPattern =
    PathExact CanonicalPath
  | PathPrefix CanonicalPath

fun PathPattern_path :: "PathPattern \<Rightarrow> CanonicalPath" where
  "PathPattern_path (PathExact p) = p"
| "PathPattern_path (PathPrefix p) = p"

fun path_matches :: "PathPattern \<Rightarrow> CanonicalPath \<Rightarrow> bool" where
  "path_matches (PathExact s) p \<longleftrightarrow> s = p"
| "path_matches (PathPrefix s) p \<longleftrightarrow> CanonicalPath_is_at_or_below p s"

fun path_below :: "PathPattern \<Rightarrow> PathPattern \<Rightarrow> bool" where
  "path_below (PathExact c) (PathExact p) \<longleftrightarrow> c = p"
| "path_below (PathExact c) (PathPrefix p) \<longleftrightarrow> CanonicalPath_is_at_or_below c p"
| "path_below (PathPrefix c) (PathPrefix p) \<longleftrightarrow> CanonicalPath_is_at_or_below c p"
| "path_below (PathPrefix c) (PathExact p) \<longleftrightarrow> False"

text \<open>The well-formedness every constructor establishes, and its encoding as one string.\<close>

definition segment_ok :: "string \<Rightarrow> bool" where
  "segment_ok s \<longleftrightarrow> s \<notin> {'''', ''.'', ''..''} \<and>
     CHR ''/'' \<notin> set s \<and> CHR 0x00 \<notin> set s \<and> CHR ''*'' \<notin> set s"

definition path_encoding :: "CanonicalPath \<Rightarrow> string" where
  "path_encoding p = join_with (CHR ''/'') (cp_segments p)"

definition wf_path :: "CanonicalPath \<Rightarrow> bool" where
  "wf_path p \<longleftrightarrow> list_all segment_ok (cp_segments p) \<and>
     length (cp_segments p) \<le> MAX_CANONICAL_PATH_SEGMENTS \<and>
     length (path_encoding p) \<le> MAX_CANONICAL_PATH_BYTES"

section \<open>Validation\<close>

lemma path_eqI: "cp_segments p = cp_segments q \<Longrightarrow> p = (q :: CanonicalPath)"
  by (cases p; cases q) simp

lemma encoded_len_encoding: "CanonicalPath_encoded_len p = length (path_encoding p)"
  by (simp add: CanonicalPath_encoded_len_def path_encoding_def length_join_with)

lemma validate_segment_Ok: "validate_segment i s = Ok u \<longleftrightarrow> segment_ok s"
  by (auto simp: validate_segment_def segment_ok_def invalid_segment_def)

lemma wf_root [simp]: "wf_path CanonicalPath_root"
  by (simp add: wf_path_def CanonicalPath_root_def path_encoding_def)

lemma length_encoding_snoc:
  "length (join_with c (ws @ [w])) =
     length (join_with c ws) + (if ws \<noteq> [] then 1 else 0) + length w"
  by (cases ws) (auto simp: length_join_with)

lemma length_encoding_append:
  "length (join_with c (ws @ vs)) =
     length (join_with c ws) + (if vs \<noteq> [] \<and> ws \<noteq> [] then 1 else 0) + length (join_with c vs)"
  by (cases ws; cases vs) (auto simp: length_join_with)

lemma wf_path_prefix:
  assumes "wf_path \<lparr>cp_segments = ws @ vs\<rparr>"
  shows "wf_path \<lparr>cp_segments = ws\<rparr>"
  using assms by (auto simp: wf_path_def path_encoding_def length_encoding_append)

lemma wf_path_snoc:
  "wf_path \<lparr>cp_segments = ws @ [w]\<rparr> \<longleftrightarrow>
     wf_path \<lparr>cp_segments = ws\<rparr> \<and> segment_ok w \<and> length ws < MAX_CANONICAL_PATH_SEGMENTS \<and>
     length (join_with (CHR ''/'') ws) + (if ws \<noteq> [] then 1 else 0) + length w
       \<le> MAX_CANONICAL_PATH_BYTES"
  by (auto simp: wf_path_def path_encoding_def length_encoding_snoc)

text \<open>
  One turn of the loop either rejects the segment and then no longer path is well formed, or
  accepts it and the extended path is.
\<close>

lemma path_new_loop_iff:
  assumes "wf_path \<lparr>cp_segments = acc\<rparr>"
  shows "path_new_loop (length acc) (length (join_with (CHR ''/'') acc)) acc ss = Ok p \<longleftrightarrow>
    cp_segments p = acc @ ss \<and> wf_path p"
  using assms
proof (induction ss arbitrary: acc)
  case Nil
  then show ?case by (cases p) auto
next
  case (Cons s ss)
  show ?case
  proof (cases "wf_path \<lparr>cp_segments = acc @ [s]\<rparr>")
    case True
    then have "path_new_loop (length acc) (length (join_with (CHR ''/'') acc)) acc (s # ss) =
      path_new_loop (length (acc @ [s])) (length (join_with (CHR ''/'') (acc @ [s]))) (acc @ [s]) ss"
      using validate_segment_Ok [of "length acc" s]
      by (auto simp: wf_path_snoc length_encoding_snoc Let_def split: sum.splits)
    with Cons.IH [OF True] show ?thesis by simp
  next
    case False
    then have "path_new_loop (length acc) (length (join_with (CHR ''/'') acc)) acc (s # ss) \<noteq> Ok p"
      using Cons.prems validate_segment_Ok [of "length acc" s]
      by (auto simp: wf_path_snoc invalid_segment_def Let_def split: sum.splits)
    moreover have "\<not> (cp_segments p = acc @ s # ss \<and> wf_path p)"
      using False wf_path_prefix [of "acc @ [s]" ss] by (cases p) auto
    ultimately show ?thesis by blast
  qed
qed

lemma CanonicalPath_new_Ok: "CanonicalPath_new ss = Ok p \<longleftrightarrow> cp_segments p = ss \<and> wf_path p"
  using path_new_loop_iff [of "[]" ss p] wf_root
  by (simp add: CanonicalPath_new_def CanonicalPath_root_def)

lemma wf_path_child:
  "wf_path p \<Longrightarrow> CanonicalPath_child p c = Ok q \<longleftrightarrow> cp_segments q = cp_segments p @ [c] \<and> wf_path q"
  using validate_segment_Ok [of "length (cp_segments p)" c] wf_path_snoc [of "cp_segments p" c]
  by (cases p; cases q)
    (auto simp: CanonicalPath_child_def Let_def encoded_len_encoding path_encoding_def
      invalid_segment_def split: sum.splits)

lemma CanonicalPath_parent_child:
  "wf_path p \<Longrightarrow> CanonicalPath_child p c = Ok q \<Longrightarrow> CanonicalPath_parent q = Some p"
  by (cases p) (simp add: wf_path_child CanonicalPath_parent_def)

lemma wf_path_parent: "wf_path p \<Longrightarrow> CanonicalPath_parent p = Some q \<Longrightarrow> wf_path q"
  using wf_path_prefix [of "butlast (cp_segments p)" "[last (cp_segments p)]"]
  by (cases p) (auto simp: CanonicalPath_parent_def split: if_splits)

section \<open>Rebasing\<close>

lemma strip_prefix_Some: "strip_prefix pre xs = Some suf \<longleftrightarrow> xs = pre @ suf"
  by (auto simp: strip_prefix_def prefix_def)

lemma CanonicalPath_rebase_Some:
  assumes "wf_path p" "wf_path dst"
  shows "CanonicalPath_rebase p src dst = Some q \<longleftrightarrow>
    wf_path q \<and>
    (\<exists>suf. cp_segments p = cp_segments src @ suf \<and> cp_segments q = cp_segments dst @ suf)"
proof (cases "strip_prefix (cp_segments src) (cp_segments p)")
  case None
  then have "\<nexists>suf. cp_segments p = cp_segments src @ suf"
    by (auto simp: strip_prefix_def split: if_splits)
  with None show ?thesis by (simp add: CanonicalPath_rebase_def)
next
  case (Some suf)
  then have p: "cp_segments p = cp_segments src @ suf" by (simp add: strip_prefix_Some)
  with assms have "list_all segment_ok suf" "list_all segment_ok (cp_segments dst)"
    by (auto simp: wf_path_def)
  then have "wf_path \<lparr>cp_segments = cp_segments dst @ suf\<rparr> \<longleftrightarrow>
      length (cp_segments dst) + length suf \<le> MAX_CANONICAL_PATH_SEGMENTS \<and>
      CanonicalPath_encoded_len dst + (if suf \<noteq> [] \<and> cp_segments dst \<noteq> [] then 1 else 0) +
        (sum_list (map length suf) + (length suf - 1)) \<le> MAX_CANONICAL_PATH_BYTES"
    unfolding length_join_with [of "CHR ''/''" suf, symmetric]
    by (simp add: wf_path_def path_encoding_def length_encoding_append encoded_len_encoding)
  with Some p show ?thesis
    by (cases q) (auto simp: CanonicalPath_rebase_def Let_def)
qed

lemma CanonicalPath_rebase_back:
  assumes "wf_path p" "wf_path src" "wf_path dst" "CanonicalPath_rebase p src dst = Some q"
  shows "CanonicalPath_rebase q dst src = Some p"
  using assms by (auto simp: CanonicalPath_rebase_Some)

section \<open>Patterns\<close>

interpretation path_pat: segment_pattern cp_segments PathExact PathPrefix path_matches path_below
proof
  show "(\<exists>p. t = PathExact p) \<or> (\<exists>p. t = PathPrefix p)" for t
    by (cases t) auto
qed (auto simp: CanonicalPath_is_at_or_below_def intro: path_eqI)

lemma wf_path_extendable:
  assumes "wf_path p" "length (cp_segments p) < MAX_CANONICAL_PATH_SEGMENTS"
    "length (path_encoding p) + 2 \<le> MAX_CANONICAL_PATH_BYTES"
  shows "\<exists>q. wf_path q \<and> q \<noteq> p \<and> prefix (cp_segments p) (cp_segments q)"
proof (intro exI conjI)
  let ?q = "\<lparr>cp_segments = cp_segments p @ [''a'']\<rparr>"
  show "wf_path ?q" using assms
    by (cases p) (simp add: wf_path_snoc path_encoding_def segment_ok_def)
  show "?q \<noteq> p" by (cases p) simp
qed simp

text \<open>A pattern over a valid path whose prefix form has room for one more segment.\<close>

fun pattern_roomy :: "PathPattern \<Rightarrow> bool" where
  "pattern_roomy (PathExact p) \<longleftrightarrow> wf_path p"
| "pattern_roomy (PathPrefix p) \<longleftrightarrow>
     wf_path p \<and> length (cp_segments p) < MAX_CANONICAL_PATH_SEGMENTS \<and>
     length (path_encoding p) + 2 \<le> MAX_CANONICAL_PATH_BYTES"

lemma path_below_exact:
  assumes "pattern_roomy c"
  shows "path_below c t \<longleftrightarrow> (\<forall>q. wf_path q \<longrightarrow> path_matches c q \<longrightarrow> path_matches t q)"
proof
  assume "\<forall>q. wf_path q \<longrightarrow> path_matches c q \<longrightarrow> path_matches t q"
  with assms show "path_below c t"
    by (intro path_pat.below_complete [where valid = wf_path]) (auto intro: wf_path_extendable)
qed (auto dest: path_pat.below_sound)

lemma pattern_roomy_self: "pattern_roomy c \<Longrightarrow> wf_path (PathPattern_path c) \<and> path_matches c (PathPattern_path c)"
  by (cases c) (simp_all add: CanonicalPath_is_at_or_below_def)

end
