(* ===== verification/File_Authority.thy ===== *)
theory File_Authority
  imports Canonical_Path
begin

text \<open>
  File authorities (\<open>authority-core/src/file.rs\<close>, \<open>repository.rs\<close>): the closed universe of
  filesystem effects packed into a \<open>u16\<close>, the authority body over one repository and path
  pattern, and its request and delegation decisions.
\<close>

datatype RepoId = RepoId (repo_str: string)

datatype FileEffect =
    ReadData | ListDirectory | WriteData | Truncate | CreateFile | CreateDirectory
  | RemoveFile | RemoveDirectory | Rename | SetMetadata | ReadLink | CreateSymlink
  | CreateHardLink

definition FileEffect_ALL :: "FileEffect list" where
  "FileEffect_ALL =
     [ReadData, ListDirectory, WriteData, Truncate, CreateFile, CreateDirectory, RemoveFile,
      RemoveDirectory, Rename, SetMetadata, ReadLink, CreateSymlink, CreateHardLink]"

text \<open>\<open>self as u8\<close>: the discriminants are the declaration order.\<close>

fun FileEffect_tag :: "FileEffect \<Rightarrow> u8" where
  "FileEffect_tag ReadData = 0"
| "FileEffect_tag ListDirectory = 1"
| "FileEffect_tag WriteData = 2"
| "FileEffect_tag Truncate = 3"
| "FileEffect_tag CreateFile = 4"
| "FileEffect_tag CreateDirectory = 5"
| "FileEffect_tag RemoveFile = 6"
| "FileEffect_tag RemoveDirectory = 7"
| "FileEffect_tag Rename = 8"
| "FileEffect_tag SetMetadata = 9"
| "FileEffect_tag ReadLink = 10"
| "FileEffect_tag CreateSymlink = 11"
| "FileEffect_tag CreateHardLink = 12"

definition FileEffect_from_tag :: "u8 \<Rightarrow> FileEffect option" where
  "FileEffect_from_tag t =
     (if unat t < length FileEffect_ALL then Some (FileEffect_ALL ! unat t) else None)"

definition FileEffect_mask :: "FileEffect \<Rightarrow> u16" where
  "FileEffect_mask e = push_bit (unat (FileEffect_tag e)) 1"

datatype FileEffects = FileEffects (effect_bits: u16)

definition FileEffects_empty :: FileEffects where
  "FileEffects_empty = FileEffects 0"

definition FileEffects_only :: "FileEffect \<Rightarrow> FileEffects" where
  "FileEffects_only e = FileEffects (FileEffect_mask e)"

definition FileEffects_from_effects :: "FileEffect list \<Rightarrow> FileEffects" where
  "FileEffects_from_effects es = FileEffects (fold (\<lambda>e acc. acc OR FileEffect_mask e) es 0)"

definition FileEffects_contains :: "FileEffects \<Rightarrow> FileEffect \<Rightarrow> bool" where
  "FileEffects_contains s e \<longleftrightarrow> effect_bits s AND FileEffect_mask e \<noteq> 0"

definition FileEffects_is_empty :: "FileEffects \<Rightarrow> bool" where
  "FileEffects_is_empty s \<longleftrightarrow> effect_bits s = 0"

definition FileEffects_is_subset_of :: "FileEffects \<Rightarrow> FileEffects \<Rightarrow> bool" where
  "FileEffects_is_subset_of c p \<longleftrightarrow> effect_bits c AND NOT (effect_bits p) = 0"

record FileAuthority =
  fa_repository :: RepoId
  fa_effects :: FileEffects
  fa_path :: PathPattern

record FileRequest =
  fr_repository :: RepoId
  fr_effect :: FileEffect
  fr_path :: CanonicalPath

definition file_matches :: "FileAuthority \<Rightarrow> FileRequest \<Rightarrow> bool" where
  "file_matches a r \<longleftrightarrow>
     fa_repository a = fr_repository r \<and>
     FileEffects_contains (fa_effects a) (fr_effect r) \<and>
     path_matches (fa_path a) (fr_path r)"

definition file_body_below :: "FileAuthority \<Rightarrow> FileAuthority \<Rightarrow> bool" where
  "file_body_below c p \<longleftrightarrow>
     fa_repository c = fa_repository p \<and>
     FileEffects_is_subset_of (fa_effects c) (fa_effects p) \<and>
     path_below (fa_path c) (fa_path p)"

text \<open>The sets that the constructors of the source can build: no bit outside the universe.\<close>

definition wf_effects :: "FileEffects \<Rightarrow> bool" where
  "wf_effects s \<longleftrightarrow> (\<exists>es. s = FileEffects_from_effects es)"

section \<open>Tags and effect sets\<close>

lemma FileEffect_from_tag_tag [simp]: "FileEffect_from_tag (FileEffect_tag e) = Some e"
  by (cases e) (simp_all add: FileEffect_from_tag_def FileEffect_ALL_def)

lemma FileEffect_tag_bound: "unat (FileEffect_tag e) < 13"
  by (cases e) simp_all

lemma FileEffect_tag_inject [simp]: "FileEffect_tag e = FileEffect_tag f \<longleftrightarrow> e = f"
  by (metis FileEffect_from_tag_tag option.inject)

lemma FileEffect_tag_from_tag:
  assumes "FileEffect_from_tag t = Some e"
  shows "FileEffect_tag e = t"
proof -
  have all: "map FileEffect_tag FileEffect_ALL = map word_of_nat [0..<13]"
    by (simp add: FileEffect_ALL_def upt_rec)
  have len: "length FileEffect_ALL = 13" by (simp add: FileEffect_ALL_def)
  have "FileEffect_tag (FileEffect_ALL ! n) = word_of_nat n" if "n < 13" for n
    using arg_cong [OF all, of "\<lambda>xs. xs ! n"] that by (simp add: len)
  with assms show ?thesis
    by (auto simp: FileEffect_from_tag_def len split: if_splits)
qed

lemma FileEffect_ALL_complete: "e \<in> set FileEffect_ALL"
  by (cases e) (simp_all add: FileEffect_ALL_def)

interpretation effect_flags: flag_set "\<lambda>e. unat (FileEffect_tag e)" FileEffect_mask FileEffect_ALL
proof
  show "unat (FileEffect_tag e) < LENGTH(16)" for e
    using FileEffect_tag_bound [of e] by simp
qed (auto simp: FileEffect_mask_def FileEffect_ALL_complete word_unat_eq_iff [symmetric])

lemma FileEffects_contains_from [simp]:
  "FileEffects_contains (FileEffects_from_effects es) e \<longleftrightarrow> e \<in> set es"
  by (simp add: FileEffects_contains_def FileEffects_from_effects_def
      effect_flags.contains_from_list)

lemma FileEffects_contains_only [simp]: "FileEffects_contains (FileEffects_only f) e \<longleftrightarrow> e = f"
  by (simp add: FileEffects_contains_def FileEffects_only_def effect_flags.contains_mask)

lemma FileEffects_contains_empty [simp]: "\<not> FileEffects_contains FileEffects_empty e"
  by (simp add: FileEffects_contains_def FileEffects_empty_def)

lemma wf_effects_bits: "wf_effects s \<Longrightarrow> bit (effect_bits s) n \<Longrightarrow> n \<in> range (\<lambda>e. unat (FileEffect_tag e))"
  by (auto simp: wf_effects_def FileEffects_from_effects_def effect_flags.bit_from_list)

lemma wf_effects_only: "wf_effects (FileEffects_only e)"
  by (auto simp: wf_effects_def FileEffects_only_def FileEffects_from_effects_def
      intro: exI [of _ "[e]"])

lemma wf_effects_empty: "wf_effects FileEffects_empty"
  by (auto simp: wf_effects_def FileEffects_empty_def FileEffects_from_effects_def
      intro: exI [of _ "[]"])

lemma FileEffects_subset_iff:
  assumes "wf_effects c"
  shows "FileEffects_is_subset_of c p \<longleftrightarrow> (\<forall>e. FileEffects_contains c e \<longrightarrow> FileEffects_contains p e)"
  unfolding FileEffects_is_subset_of_def FileEffects_contains_def
  using effect_flags.subset_sound effect_flags.subset_complete [OF wf_effects_bits [OF assms]]
  by blast

lemma wf_effects_eqI:
  assumes "wf_effects s" "wf_effects t"
    "\<And>e. FileEffects_contains s e \<longleftrightarrow> FileEffects_contains t e"
  shows "s = t"
proof -
  have "effect_bits s = effect_bits t"
    using effect_flags.flags_eqI [OF wf_effects_bits wf_effects_bits] assms
    by (auto simp: FileEffects_contains_def)
  then show ?thesis by (simp add: FileEffects.expand)
qed

section \<open>Requests and delegation\<close>

interpretation file_family: authority_family file_matches file_body_below
proof
  show "file_body_below a a" for a
    by (simp add: file_body_below_def FileEffects_is_subset_of_def path_pat.below_refl)
  show "file_body_below a c" if "file_body_below a b" "file_body_below b c" for a b c
    using that
    by (auto simp: file_body_below_def FileEffects_is_subset_of_def
        intro: path_pat.below_trans and_not_trans)
  show "file_matches p r" if "file_body_below c p" "file_matches c r" for c p r
    using that effect_flags.subset_sound path_pat.below_sound
    by (auto simp: file_body_below_def file_matches_def FileEffects_is_subset_of_def
        FileEffects_contains_def)
qed

end
