(* ===== verification/Ip_Address.thy ===== *)
theory Ip_Address
  imports Prelude
begin

text \<open>
  \<open>std::net::IpAddr\<close> as the program uses it: the address values and the textual parser behind
  \<open>str::parse::<IpAddr>()\<close>.  A parser takes the remaining input and returns the value read and
  the rest of the input, or nothing with the input untouched.
\<close>

datatype IpAddr = V4 u32 | V6 u128

definition to_digit :: "nat \<Rightarrow> char \<Rightarrow> nat option" where
  "to_digit radix c =
     (let n = of_char c;
          d = (if 48 \<le> n \<and> n \<le> 57 then n - 48
               else if 97 \<le> n \<and> n \<le> 122 then n - 87
               else if 65 \<le> n \<and> n \<le> 90 then n - 55
               else radix)
      in if d < radix then Some d else None)"

definition read_number :: "nat \<Rightarrow> nat \<Rightarrow> bool \<Rightarrow> nat \<Rightarrow> string \<Rightarrow> (nat \<times> string) option" where
  "read_number radix max_digits allow_zero_prefix bound s =
     (let ds = takeWhile (\<lambda>c. to_digit radix c \<noteq> None) s;
          v = foldl (\<lambda>acc c. acc * radix + the (to_digit radix c)) 0 ds
      in if ds = [] \<or> max_digits < length ds
            \<or> (\<not> allow_zero_prefix \<and> hd s = CHR ''0'' \<and> 1 < length ds) \<or> bound \<le> v
         then None
         else Some (v, drop (length ds) s))"

definition read_separator ::
    "char \<Rightarrow> nat \<Rightarrow> (string \<Rightarrow> ('a \<times> string) option) \<Rightarrow> string \<Rightarrow> ('a \<times> string) option" where
  "read_separator c i p s =
     (if 0 < i then (case s of [] \<Rightarrow> None | x # xs \<Rightarrow> if x = c then p xs else None) else p s)"

fun read_v4_groups :: "nat \<Rightarrow> nat \<Rightarrow> string \<Rightarrow> (nat list \<times> string) option" where
  "read_v4_groups i 0 s = Some ([], s)"
| "read_v4_groups i (Suc k) s =
     (case read_separator (CHR ''.'') i (read_number 10 3 False 256) s of
        None \<Rightarrow> None
      | Some (v, r) \<Rightarrow>
          (case read_v4_groups (Suc i) k r of
             None \<Rightarrow> None
           | Some (vs, r') \<Rightarrow> Some (v # vs, r')))"

definition read_ipv4_addr :: "string \<Rightarrow> (nat list \<times> string) option" where
  "read_ipv4_addr s = read_v4_groups 0 4 s"

definition pair_octets :: "nat list \<Rightarrow> nat list" where
  "pair_octets os = [os ! 0 * 256 + os ! 1, os ! 2 * 256 + os ! 3]"

text \<open>Reads at most \<open>k\<close> further groups; the flag tells whether an embedded IPv4 part ended it.\<close>

fun read_groups :: "nat \<Rightarrow> nat \<Rightarrow> string \<Rightarrow> nat list \<times> bool \<times> string" where
  "read_groups i 0 s = ([], False, s)"
| "read_groups i (Suc k) s =
     (case (if 0 < k then read_separator (CHR '':'') i read_ipv4_addr s else None) of
        Some (os, r) \<Rightarrow> (pair_octets os, True, r)
      | None \<Rightarrow>
          (case read_separator (CHR '':'') i (read_number 16 4 True 65536) s of
             None \<Rightarrow> ([], False, s)
           | Some (g, r) \<Rightarrow>
               (let (gs, v4, r') = read_groups (Suc i) k r in (g # gs, v4, r'))))"

definition read_ipv6_addr :: "string \<Rightarrow> (nat list \<times> string) option" where
  "read_ipv6_addr s =
     (let (hs, head_v4, r) = read_groups 0 8 s
      in if length hs = 8 then Some (hs, r)
         else if head_v4 then None
         else if take 2 r = ''::'' then
           (let (ts, _, r') = read_groups 0 (8 - (length hs + 1)) (drop 2 r)
            in Some (hs @ replicate (8 - length hs - length ts) 0 @ ts, r'))
         else None)"

definition parse_ip :: "string \<Rightarrow> IpAddr option" where
  "parse_ip s =
     (case read_ipv4_addr s of
        Some (os, r) \<Rightarrow>
          if r = [] then Some (V4 (word_of_nat (foldl (\<lambda>acc g. acc * 256 + g) 0 os))) else None
      | None \<Rightarrow>
          (case read_ipv6_addr s of
             Some (gs, r) \<Rightarrow>
               if r = [] then Some (V6 (word_of_nat (foldl (\<lambda>acc g. acc * 65536 + g) 0 gs)))
               else None
           | None \<Rightarrow> None))"

text \<open>\<open>Ipv6Addr::to_ipv4\<close>: the IPv4-compatible and IPv4-mapped forms.\<close>

definition v6_to_ipv4 :: "u128 \<Rightarrow> u32 option" where
  "v6_to_ipv4 a =
     (let top = drop_bit 48 a; tag = drop_bit 32 a AND 0xFFFF
      in if top = 0 \<and> (tag = 0 \<or> tag = 0xFFFF) then Some (ucast a) else None)"

section \<open>The printed form of an IPv4 address is read back\<close>

definition show_ipv4 :: "nat \<Rightarrow> nat \<Rightarrow> nat \<Rightarrow> nat \<Rightarrow> string" where
  "show_ipv4 a b c d = join_with (CHR ''.'') (map show_nat [a, b, c, d])"

lemma to_digit_digit_char [simp]: "d < 10 \<Longrightarrow> to_digit 10 (digit_char d) = Some d"
  by (simp add: to_digit_def of_char_digit Let_def)

lemma digit_char_zero [simp]: "d < 10 \<Longrightarrow> digit_char d = CHR ''0'' \<longleftrightarrow> d = 0"
  using of_char_digit [of d] of_char_eq_iff [of "digit_char d" "CHR ''0''", where 'a = nat]
  by (simp del: of_char_eq_iff)

lemma to_digit_dot [simp]: "to_digit 10 (CHR ''.'') = None"
  by (simp add: to_digit_def Let_def)

lemma show_nat_small:
  "n < 1000 \<Longrightarrow> show_nat n =
     (if n < 10 then [digit_char n]
      else if n < 100 then [digit_char (n div 10), digit_char (n mod 10)]
      else [digit_char (n div 100), digit_char (n div 10 mod 10), digit_char (n mod 10)])"
  by (simp add: show_nat.simps [of n] show_nat.simps [of "n div 10"]
      show_nat.simps [of "n div 10 div 10"] div_mult2_eq [of n 10 10, simplified]) linarith

lemma read_number_show:
  assumes "n < 256" and "rest = [] \<or> to_digit 10 (hd rest) = None"
  shows "read_number 10 3 False 256 (show_nat n @ rest) = Some (n, rest)"
proof -
  have stop: "takeWhile (\<lambda>c. \<exists>y. to_digit 10 c = Some y) rest = []"
    using assms(2) by (cases rest) auto
  consider "n < 10" | "10 \<le> n" "n < 100" | "100 \<le> n" "0 < n div 100"
    by (cases "n < 10"; cases "n < 100") auto
  then show ?thesis
  proof cases
    case 3
    have "n div 100 * 10 + n div 10 mod 10 = n div 10"
      using div_mult2_eq [of n 10 10] div_mult_mod_eq [of "n div 10" 10] by simp
    then have "100 * (n div 100) + n div 10 mod 10 * 10 + n mod 10 = n"
      using div_mult_mod_eq [of n 10] by linarith
    with 3 assms(1) stop show ?thesis
      by (simp add: read_number_def show_nat_small Let_def)
  qed (use assms stop in \<open>simp_all add: read_number_def show_nat_small Let_def\<close>)
qed

lemma read_ipv4_show:
  assumes "a < 256" "b < 256" "c < 256" "d < 256"
  shows "read_ipv4_addr (show_ipv4 a b c d) = Some ([a, b, c, d], [])"
proof -
  have four: "4 = Suc (Suc (Suc (Suc 0)))" by simp
  show ?thesis
    unfolding read_ipv4_addr_def four using assms
    by (simp add: show_ipv4_def read_separator_def read_number_show
        read_number_show [where rest = "[]", simplified])
qed

text \<open>A text that starts with neither a digit nor a colon is no address.\<close>

lemma v4_nondigit: "to_digit 10 c = None \<Longrightarrow> read_ipv4_addr (c # s) = None"
proof -
  assume "to_digit 10 c = None"
  moreover have "4 = Suc 3" by simp
  ultimately show ?thesis
    unfolding read_ipv4_addr_def by (simp only: read_v4_groups.simps) (simp add: read_separator_def read_number_def)
qed

lemma nondigit_not_ip:
  assumes "to_digit 16 c = None" "c \<noteq> CHR '':''"
  shows "parse_ip (c # s) = None"
proof -
  have ten: "to_digit 10 c = None" using assms(1) by (auto simp: to_digit_def Let_def split: if_splits)
  have "8 = Suc 7" by simp
  then have "read_groups 0 8 (c # s) = ([], False, c # s)"
    using assms v4_nondigit [OF ten] by (simp only: read_groups.simps) (simp add: read_separator_def read_number_def)
  with assms(2) show ?thesis by (simp add: parse_ip_def v4_nondigit [OF ten] read_ipv6_addr_def)
qed

end
