(* ===== verification/Http_Authority.thy ===== *)
theory Http_Authority
  imports Interfaces Ip_Address
begin

text \<open>
  Public HTTP fetch authorities (\<open>authority-core/src/http.rs\<close>): canonical hosts and origin-form
  URL paths with their validators, the method bit set, and the request and delegation decisions.
\<close>

definition MAX_CANONICAL_URL_PATH_BYTES :: nat where
  "MAX_CANONICAL_URL_PATH_BYTES = 4096"

definition MAX_CANONICAL_URL_PATH_SEGMENTS :: nat where
  "MAX_CANONICAL_URL_PATH_SEGMENTS = 64"

section \<open>Hosts\<close>

datatype CanonicalHost = CanonicalHost (host_str: string)

datatype InvalidCanonicalHostReason =
    HostEmpty | HostNonAscii | HostTooLong | HostEmptyLabel | HostLabelTooLong
  | HostLabelEdgeHyphen | HostInvalidLabelCharacter | HostIpAddressLiteral

record InvalidCanonicalHost =
  ich_label_index :: "nat option"
  ich_reason :: InvalidCanonicalHostReason

definition invalid_host :: "InvalidCanonicalHostReason \<Rightarrow> (InvalidCanonicalHost, 'a) result" where
  "invalid_host r = Err \<lparr>ich_label_index = None, ich_reason = r\<rparr>"

definition invalid_label :: "nat \<Rightarrow> InvalidCanonicalHostReason \<Rightarrow> (InvalidCanonicalHost, 'a) result" where
  "invalid_label i r = Err \<lparr>ich_label_index = Some i, ich_reason = r\<rparr>"

definition is_label_char :: "char \<Rightarrow> bool" where
  "is_label_char c \<longleftrightarrow> is_ascii_alphanumeric c \<or> c = CHR ''-''"

text \<open>One turn of the label loop of \<open>CanonicalHost::new\<close>.\<close>

definition validate_label :: "nat \<Rightarrow> string \<Rightarrow> (InvalidCanonicalHost, string) result" where
  "validate_label i l =
     (if l = [] then invalid_label i HostEmptyLabel
      else if 63 < length l then invalid_label i HostLabelTooLong
      else if hd l = CHR ''-'' \<or> last l = CHR ''-'' then invalid_label i HostLabelEdgeHyphen
      else if \<not> list_all is_label_char l then invalid_label i HostInvalidLabelCharacter
      else Ok l)"

definition strip_final_dot :: "string \<Rightarrow> string" where
  "strip_final_dot s = (if s \<noteq> [] \<and> last s = CHR ''.'' then butlast s else s)"

definition CanonicalHost_new :: "string \<Rightarrow> (InvalidCanonicalHost, CanonicalHost) result" where
  "CanonicalHost_new s =
     (if \<not> is_ascii s then invalid_host HostNonAscii
      else
        let canonical = to_ascii_lowercase (strip_final_dot s)
        in if canonical = [] then invalid_host HostEmpty
           else if 253 < length canonical then invalid_host HostTooLong
           else if parse_ip canonical \<noteq> None then invalid_host HostIpAddressLiteral
           else (case collect_indexed validate_label 0 (split_on (CHR ''.'') canonical) of
                   Err e \<Rightarrow> Err e
                 | Ok _ \<Rightarrow> Ok (CanonicalHost canonical)))"

section \<open>URL paths\<close>

record CanonicalUrlPath =
  up_segments :: "string list"

datatype InvalidCanonicalUrlPathReason =
    UrlMissingLeadingSlash | UrlTrailingSlash | UrlNonAscii | UrlEmptySegment
  | UrlCurrentDirectory | UrlParentDirectory | UrlContainsBackslash
  | UrlContainsPercentEncoding | UrlContainsQueryDelimiter | UrlContainsFragmentDelimiter
  | UrlContainsControlCharacter | UrlContainsInvalidCharacter | UrlTooManySegments
  | UrlEncodedPathTooLong

record InvalidCanonicalUrlPath =
  icu_segment_index :: "nat option"
  icu_reason :: InvalidCanonicalUrlPathReason

definition invalid_url :: "InvalidCanonicalUrlPathReason \<Rightarrow> (InvalidCanonicalUrlPath, 'a) result" where
  "invalid_url r = Err \<lparr>icu_segment_index = None, icu_reason = r\<rparr>"

definition invalid_url_segment ::
    "nat \<Rightarrow> InvalidCanonicalUrlPathReason \<Rightarrow> (InvalidCanonicalUrlPath, 'a) result" where
  "invalid_url_segment i r = Err \<lparr>icu_segment_index = Some i, icu_reason = r\<rparr>"

definition is_unencoded_url_path_character :: "char \<Rightarrow> bool" where
  "is_unencoded_url_path_character c \<longleftrightarrow>
     is_ascii_alphanumeric c \<or> c \<in> set ''-._~'' \<or>
     c \<in> set (''!$&()*+,;='' @ [CHR 0x27]) \<or> c \<in> set '':@''"

definition validate_url_path_segment :: "nat \<Rightarrow> string \<Rightarrow> (InvalidCanonicalUrlPath, string) result" where
  "validate_url_path_segment i s =
     (if s = [] then invalid_url_segment i UrlEmptySegment
      else if s = ''.'' then invalid_url_segment i UrlCurrentDirectory
      else if s = ''..'' then invalid_url_segment i UrlParentDirectory
      else if CHR 0x5C \<in> set s then invalid_url_segment i UrlContainsBackslash
      else if CHR ''%'' \<in> set s then invalid_url_segment i UrlContainsPercentEncoding
      else if CHR ''?'' \<in> set s then invalid_url_segment i UrlContainsQueryDelimiter
      else if CHR ''#'' \<in> set s then invalid_url_segment i UrlContainsFragmentDelimiter
      else if list_ex is_ascii_control s then invalid_url_segment i UrlContainsControlCharacter
      else if \<not> list_all is_unencoded_url_path_character s
      then invalid_url_segment i UrlContainsInvalidCharacter
      else Ok s)"

definition CanonicalUrlPath_root :: CanonicalUrlPath where
  "CanonicalUrlPath_root = \<lparr>up_segments = []\<rparr>"

definition CanonicalUrlPath_new :: "string \<Rightarrow> (InvalidCanonicalUrlPath, CanonicalUrlPath) result" where
  "CanonicalUrlPath_new s =
     (if s = ''/'' then Ok CanonicalUrlPath_root
      else if s = [] \<or> hd s \<noteq> CHR ''/'' then invalid_url UrlMissingLeadingSlash
      else if last s = CHR ''/'' then invalid_url UrlTrailingSlash
      else if \<not> is_ascii s then invalid_url UrlNonAscii
      else if MAX_CANONICAL_URL_PATH_BYTES < length s then invalid_url UrlEncodedPathTooLong
      else if MAX_CANONICAL_URL_PATH_SEGMENTS < length (split_on (CHR ''/'') (tl s))
      then invalid_url_segment MAX_CANONICAL_URL_PATH_SEGMENTS UrlTooManySegments
      else (case collect_indexed validate_url_path_segment 0 (split_on (CHR ''/'') (tl s)) of
              Err e \<Rightarrow> Err e
            | Ok segs \<Rightarrow> Ok \<lparr>up_segments = segs\<rparr>))"

definition CanonicalUrlPath_is_root :: "CanonicalUrlPath \<Rightarrow> bool" where
  "CanonicalUrlPath_is_root p \<longleftrightarrow> up_segments p = []"

definition CanonicalUrlPath_is_at_or_below :: "CanonicalUrlPath \<Rightarrow> CanonicalUrlPath \<Rightarrow> bool" where
  "CanonicalUrlPath_is_at_or_below p a \<longleftrightarrow> prefix (up_segments a) (up_segments p)"

definition CanonicalUrlPath_display :: "CanonicalUrlPath \<Rightarrow> string" where
  "CanonicalUrlPath_display p =
     (if CanonicalUrlPath_is_root p then ''/''
      else concat (map (\<lambda>s. CHR ''/'' # s) (up_segments p)))"

datatype UrlPathPattern =
    UrlExact CanonicalUrlPath
  | UrlPrefix CanonicalUrlPath

fun UrlPathPattern_path :: "UrlPathPattern \<Rightarrow> CanonicalUrlPath" where
  "UrlPathPattern_path (UrlExact p) = p"
| "UrlPathPattern_path (UrlPrefix p) = p"

fun url_path_matches :: "UrlPathPattern \<Rightarrow> CanonicalUrlPath \<Rightarrow> bool" where
  "url_path_matches (UrlExact s) p \<longleftrightarrow> s = p"
| "url_path_matches (UrlPrefix s) p \<longleftrightarrow> CanonicalUrlPath_is_at_or_below p s"

fun url_path_below :: "UrlPathPattern \<Rightarrow> UrlPathPattern \<Rightarrow> bool" where
  "url_path_below (UrlExact c) (UrlExact p) \<longleftrightarrow> c = p"
| "url_path_below (UrlExact c) (UrlPrefix p) \<longleftrightarrow> CanonicalUrlPath_is_at_or_below c p"
| "url_path_below (UrlPrefix c) (UrlPrefix p) \<longleftrightarrow> CanonicalUrlPath_is_at_or_below c p"
| "url_path_below (UrlPrefix c) (UrlExact p) \<longleftrightarrow> False"

section \<open>Methods, authorities and requests\<close>

datatype HttpFetchMethod = Get | Head

text \<open>\<open>self as u8\<close>.\<close>

fun HttpFetchMethod_tag :: "HttpFetchMethod \<Rightarrow> nat" where
  "HttpFetchMethod_tag Get = 0"
| "HttpFetchMethod_tag Head = 1"

definition HttpFetchMethod_mask :: "HttpFetchMethod \<Rightarrow> u8" where
  "HttpFetchMethod_mask m = push_bit (HttpFetchMethod_tag m) 1"

datatype HttpFetchMethods = HttpFetchMethods (method_bits: u8)

definition HttpFetchMethods_empty :: HttpFetchMethods where
  "HttpFetchMethods_empty = HttpFetchMethods 0"

definition HttpFetchMethods_only :: "HttpFetchMethod \<Rightarrow> HttpFetchMethods" where
  "HttpFetchMethods_only m = HttpFetchMethods (HttpFetchMethod_mask m)"

definition HttpFetchMethods_from_methods :: "HttpFetchMethod list \<Rightarrow> HttpFetchMethods" where
  "HttpFetchMethods_from_methods ms =
     HttpFetchMethods (fold (\<lambda>m acc. acc OR HttpFetchMethod_mask m) ms 0)"

definition HttpFetchMethods_contains :: "HttpFetchMethods \<Rightarrow> HttpFetchMethod \<Rightarrow> bool" where
  "HttpFetchMethods_contains s m \<longleftrightarrow> method_bits s AND HttpFetchMethod_mask m \<noteq> 0"

definition HttpFetchMethods_is_empty :: "HttpFetchMethods \<Rightarrow> bool" where
  "HttpFetchMethods_is_empty s \<longleftrightarrow> method_bits s = 0"

definition HttpFetchMethods_is_subset_of :: "HttpFetchMethods \<Rightarrow> HttpFetchMethods \<Rightarrow> bool" where
  "HttpFetchMethods_is_subset_of c p \<longleftrightarrow> method_bits c AND NOT (method_bits p) = 0"

record HttpFetchAuthority =
  ha_methods :: HttpFetchMethods
  ha_host :: CanonicalHost
  ha_path :: UrlPathPattern
  ha_max_response_bytes :: u64

record HttpFetchRequest =
  hr_method :: HttpFetchMethod
  hr_host :: CanonicalHost
  hr_path :: CanonicalUrlPath
  hr_max_response_bytes :: u64

definition http_fetch_matches :: "HttpFetchAuthority \<Rightarrow> HttpFetchRequest \<Rightarrow> bool" where
  "http_fetch_matches a r \<longleftrightarrow>
     HttpFetchMethods_contains (ha_methods a) (hr_method r) \<and>
     ha_host a = hr_host r \<and>
     url_path_matches (ha_path a) (hr_path r) \<and>
     hr_max_response_bytes r \<le> ha_max_response_bytes a"

definition http_fetch_body_below :: "HttpFetchAuthority \<Rightarrow> HttpFetchAuthority \<Rightarrow> bool" where
  "http_fetch_body_below c p \<longleftrightarrow>
     HttpFetchMethods_is_subset_of (ha_methods c) (ha_methods p) \<and>
     ha_host c = ha_host p \<and>
     url_path_below (ha_path c) (ha_path p) \<and>
     ha_max_response_bytes c \<le> ha_max_response_bytes p"

text \<open>What the validators establish.\<close>

definition label_ok :: "string \<Rightarrow> bool" where
  "label_ok l \<longleftrightarrow> l \<noteq> [] \<and> length l \<le> 63 \<and> hd l \<noteq> CHR ''-'' \<and> last l \<noteq> CHR ''-'' \<and>
     list_all is_label_char l"

definition wf_host :: "CanonicalHost \<Rightarrow> bool" where
  "wf_host h \<longleftrightarrow> host_str h \<noteq> [] \<and> length (host_str h) \<le> 253 \<and> parse_ip (host_str h) = None \<and>
     list_all label_ok (split_on (CHR ''.'') (host_str h)) \<and>
     list_all (\<lambda>c. \<not> is_ascii_upper c) (host_str h)"

definition url_segment_ok :: "string \<Rightarrow> bool" where
  "url_segment_ok s \<longleftrightarrow> s \<notin> {[], ''.'', ''..''} \<and> list_all is_unencoded_url_path_character s"

definition wf_url_path :: "CanonicalUrlPath \<Rightarrow> bool" where
  "wf_url_path p \<longleftrightarrow> list_all url_segment_ok (up_segments p) \<and>
     length (up_segments p) \<le> MAX_CANONICAL_URL_PATH_SEGMENTS \<and>
     length (CanonicalUrlPath_display p) \<le> MAX_CANONICAL_URL_PATH_BYTES"

definition wf_methods :: "HttpFetchMethods \<Rightarrow> bool" where
  "wf_methods s \<longleftrightarrow> (\<exists>ms. s = HttpFetchMethods_from_methods ms)"

section \<open>Host validation\<close>

lemma validate_label_Ok: "validate_label i l = Ok m \<longleftrightarrow> m = l \<and> label_ok l"
  by (auto simp: validate_label_def label_ok_def invalid_label_def)

lemma collect_labels:
  "(\<exists>v. collect_indexed validate_label 0 ls = Ok v) \<longleftrightarrow> list_all label_ok ls"
  using collect_indexed_id [of validate_label label_ok, OF validate_label_Ok] by blast

lemma CanonicalHost_new_Ok:
  "CanonicalHost_new s = Ok h \<longleftrightarrow>
     is_ascii s \<and> host_str h = to_ascii_lowercase (strip_final_dot s) \<and> wf_host h"
proof -
  define t where "t = to_ascii_lowercase (strip_final_dot s)"
  have low: "list_all (\<lambda>c. \<not> is_ascii_upper c) t"
    by (simp add: t_def to_ascii_lowercase_lower)
  have "CanonicalHost_new s = Ok h \<longleftrightarrow>
      is_ascii s \<and> t \<noteq> [] \<and> length t \<le> 253 \<and> parse_ip t = None \<and>
      (\<exists>v. collect_indexed validate_label 0 (split_on (CHR ''.'') t) = Ok v) \<and> h = CanonicalHost t"
    by (simp add: CanonicalHost_new_def invalid_host_def t_def [symmetric] split: sum.splits)
      (auto simp: not_less)
  then show ?thesis
    unfolding collect_labels t_def [symmetric] wf_host_def
    using low by (cases h) auto
qed

lemma split_on_last:
  "last (split_on c xs) = [] \<longleftrightarrow> xs = [] \<or> last xs = c"
proof (induction xs)
  case (Cons x xs)
  have "split_on c xs = [[]] \<Longrightarrow> xs = []" by (metis join_split join_with.simps(2))
  with Cons show ?case by (auto split: list.splits)
qed simp

lemma wf_host_last: "wf_host h \<Longrightarrow> last (host_str h) \<noteq> CHR ''.''"
  using split_on_last [of "CHR ''.''" "host_str h"] last_in_set [OF split_on_not_Nil]
  by (auto simp: wf_host_def list_all_iff label_ok_def)

lemma label_char_ascii: "is_label_char c \<Longrightarrow> of_char c < (128 :: nat)"
  by (auto simp: is_label_char_def is_ascii_alphanumeric_def is_ascii_upper_def
      is_ascii_lower_def is_ascii_digit_def)

lemma list_all_pieces:
  "list_all P (join_with c ws)" if "P c" "list_all (list_all P) ws"
  using that by (induction c ws rule: join_with.induct) auto

lemma label_ok_ascii: "label_ok l \<Longrightarrow> list_all (\<lambda>c. of_char c < (128 :: nat)) l"
  by (auto simp: label_ok_def list_all_iff intro: label_char_ascii)

lemma wf_host_ascii: "wf_host h \<Longrightarrow> is_ascii (host_str h)"
proof -
  assume "wf_host h"
  then have "list_all label_ok (split_on (CHR ''.'') (host_str h))" by (simp add: wf_host_def)
  then have "list_all (list_all (\<lambda>c. of_char c < (128 :: nat))) (split_on (CHR ''.'') (host_str h))"
    by (rule list.pred_mono_strong) (rule label_ok_ascii)
  then show ?thesis
    using list_all_pieces [of "\<lambda>c. of_char c < (128 :: nat)" "CHR ''.''"
        "split_on (CHR ''.'') (host_str h)"] by (simp add: is_ascii_def)
qed

lemma CanonicalHost_new_idem: "wf_host h \<Longrightarrow> CanonicalHost_new (host_str h) = Ok h"
  using wf_host_last [of h] wf_host_ascii [of h]
  by (auto simp: CanonicalHost_new_Ok strip_final_dot_def wf_host_def to_ascii_lowercase_id)

lemma show_ipv4_not_host:
  assumes "a < 256" "b < 256" "c < 256" "d < 256"
  shows "CanonicalHost_new s = Ok h \<Longrightarrow> host_str h \<noteq> show_ipv4 a b c d"
  using read_ipv4_show [OF assms]
  by (auto simp: CanonicalHost_new_Ok wf_host_def parse_ip_def)

section \<open>URL path validation\<close>

lemma url_path_eqI: "up_segments p = up_segments q \<Longrightarrow> p = (q :: CanonicalUrlPath)"
  by (cases p; cases q) simp

lemma url_char_facts:
  assumes "is_unencoded_url_path_character c"
  shows "of_char c < (128 :: nat)" "\<not> is_ascii_control c" "c \<noteq> CHR ''/''" "c \<noteq> CHR 0x5C"
    "c \<noteq> CHR ''%''" "c \<noteq> CHR ''?''" "c \<noteq> CHR ''#''"
  using assms
  by (auto simp: is_unencoded_url_path_character_def is_ascii_alphanumeric_def
      is_ascii_upper_def is_ascii_lower_def is_ascii_digit_def is_ascii_control_def)

lemma validate_url_path_segment_Ok:
  "validate_url_path_segment i s = Ok t \<longleftrightarrow> t = s \<and> url_segment_ok s"
  by (auto simp: validate_url_path_segment_def invalid_url_segment_def url_segment_ok_def
      list_all_iff list_ex_iff dest: url_char_facts)

lemmas collect_url_segments =
  collect_indexed_id [of validate_url_path_segment url_segment_ok, OF validate_url_path_segment_Ok]

lemma display_join:
  "up_segments p \<noteq> [] \<Longrightarrow>
     CanonicalUrlPath_display p = CHR ''/'' # join_with (CHR ''/'') (up_segments p)"
proof -
  have "ws \<noteq> [] \<Longrightarrow> concat (map (\<lambda>s. c # s) ws) = c # join_with c ws" for c :: char and ws
    by (induction c ws rule: join_with.induct) auto
  then show "up_segments p \<noteq> [] \<Longrightarrow> ?thesis"
    by (simp add: CanonicalUrlPath_display_def CanonicalUrlPath_is_root_def)
qed

lemma url_segments_joined:
  assumes ok: "list_all url_segment_ok ws" and ne: "ws \<noteq> []"
  shows "split_on (CHR ''/'') (join_with (CHR ''/'') ws) = ws"
    and "join_with (CHR ''/'') ws \<noteq> []"
    and "last (join_with (CHR ''/'') ws) \<noteq> CHR ''/''"
    and "is_ascii (CHR ''/'' # join_with (CHR ''/'') ws)"
proof -
  have "CHR ''/'' \<notin> set w" if "w \<in> set ws" for w
    using ok that by (auto simp: list_all_iff url_segment_ok_def dest: url_char_facts(3))
  with ne show sp: "split_on (CHR ''/'') (join_with (CHR ''/'') ws) = ws"
    by (rule split_join)
  have "last ws \<noteq> []"
    using ok ne last_in_set [of ws] by (auto simp: list_all_iff url_segment_ok_def)
  with sp show "join_with (CHR ''/'') ws \<noteq> []" "last (join_with (CHR ''/'') ws) \<noteq> CHR ''/''"
    using split_on_last [of "CHR ''/''" "join_with (CHR ''/'') ws"] by auto
  have "list_all (list_all (\<lambda>c. of_char c < (128 :: nat))) ws"
    using ok by (auto simp: list_all_iff url_segment_ok_def dest: url_char_facts(1))
  then show "is_ascii (CHR ''/'' # join_with (CHR ''/'') ws)"
    using list_all_pieces [of "\<lambda>c. of_char c < (128 :: nat)" "CHR ''/''" ws]
    by (simp add: is_ascii_def)
qed

lemma url_new_sound:
  assumes "CanonicalUrlPath_new s = Ok p"
  shows "wf_url_path p \<and> s = CanonicalUrlPath_display p"
proof (cases "s = ''/''")
  case True
  with assms show ?thesis
    by (auto simp: CanonicalUrlPath_new_def CanonicalUrlPath_root_def wf_url_path_def
        CanonicalUrlPath_display_def CanonicalUrlPath_is_root_def MAX_CANONICAL_URL_PATH_BYTES_def)
next
  case False
  with assms obtain t where s: "s = CHR ''/'' # t"
    by (cases s) (auto simp: CanonicalUrlPath_new_def invalid_url_def split: if_splits)
  from assms False have segs: "up_segments p = split_on (CHR ''/'') t"
    "list_all url_segment_ok (split_on (CHR ''/'') t)"
    and len: "length s \<le> MAX_CANONICAL_URL_PATH_BYTES"
      "length (split_on (CHR ''/'') t) \<le> MAX_CANONICAL_URL_PATH_SEGMENTS"
    by (auto simp: CanonicalUrlPath_new_def s invalid_url_def invalid_url_segment_def
        collect_url_segments split: if_splits sum.splits)
  then have "s = CanonicalUrlPath_display p" by (simp add: display_join s)
  with segs len show ?thesis by (simp add: wf_url_path_def)
qed

lemma url_new_complete:
  assumes "wf_url_path p"
  shows "CanonicalUrlPath_new (CanonicalUrlPath_display p) = Ok p"
proof (cases "up_segments p = []")
  case True
  then show ?thesis
    by (cases p) (simp add: CanonicalUrlPath_new_def CanonicalUrlPath_display_def
        CanonicalUrlPath_is_root_def CanonicalUrlPath_root_def)
next
  case False
  let ?j = "join_with (CHR ''/'') (up_segments p)"
  have ok: "list_all url_segment_ok (up_segments p)"
    "length (up_segments p) \<le> MAX_CANONICAL_URL_PATH_SEGMENTS"
    "length (CHR ''/'' # ?j) \<le> MAX_CANONICAL_URL_PATH_BYTES"
    using assms display_join [OF False] by (simp_all add: wf_url_path_def)
  note j = url_segments_joined [OF ok(1) False]
  have "collect_indexed validate_url_path_segment 0 (up_segments p) = Ok (up_segments p)"
    using ok(1) by (simp add: collect_url_segments)
  moreover have "\<lparr>up_segments = up_segments p\<rparr> = p" by simp
  ultimately show ?thesis
    unfolding display_join [OF False] using ok j by (simp add: CanonicalUrlPath_new_def)
qed

lemma CanonicalUrlPath_new_Ok:
  "CanonicalUrlPath_new s = Ok p \<longleftrightarrow> wf_url_path p \<and> s = CanonicalUrlPath_display p"
  using url_new_sound url_new_complete by blast

lemma url_display_inject:
  "wf_url_path p \<Longrightarrow> wf_url_path q \<Longrightarrow> CanonicalUrlPath_display p = CanonicalUrlPath_display q \<Longrightarrow> p = q"
  by (metis url_new_complete sum.inject(2))

section \<open>Patterns, methods and delegation\<close>

interpretation url_pat: segment_pattern up_segments UrlExact UrlPrefix url_path_matches url_path_below
proof
  show "(\<exists>p. t = UrlExact p) \<or> (\<exists>p. t = UrlPrefix p)" for t
    by (cases t) auto
qed (auto simp: CanonicalUrlPath_is_at_or_below_def intro: url_path_eqI)

interpretation method_flags: flag_set HttpFetchMethod_tag HttpFetchMethod_mask "[Get, Head]"
proof
  show "HttpFetchMethod_tag m < LENGTH(8)" for m by (cases m) simp_all
  show "m = m'" if "HttpFetchMethod_tag m = HttpFetchMethod_tag m'" for m m'
    using that by (cases m; cases m') simp_all
  show "m \<in> set [Get, Head]" for m by (cases m) simp_all
qed (simp add: HttpFetchMethod_mask_def)

lemma HttpFetchMethods_contains_from [simp]:
  "HttpFetchMethods_contains (HttpFetchMethods_from_methods ms) m \<longleftrightarrow> m \<in> set ms"
  by (simp add: HttpFetchMethods_contains_def HttpFetchMethods_from_methods_def
      method_flags.contains_from_list)

lemma wf_methods_bits: "wf_methods s \<Longrightarrow> bit (method_bits s) n \<Longrightarrow> n \<in> range HttpFetchMethod_tag"
  by (auto simp: wf_methods_def HttpFetchMethods_from_methods_def method_flags.bit_from_list)

lemma wf_methods_only: "wf_methods (HttpFetchMethods_only m)"
  by (auto simp: wf_methods_def HttpFetchMethods_only_def HttpFetchMethods_from_methods_def
      intro: exI [of _ "[m]"])

lemma HttpFetchMethods_subset_iff:
  assumes "wf_methods c"
  shows "HttpFetchMethods_is_subset_of c p \<longleftrightarrow>
    (\<forall>m. HttpFetchMethods_contains c m \<longrightarrow> HttpFetchMethods_contains p m)"
  unfolding HttpFetchMethods_is_subset_of_def HttpFetchMethods_contains_def
  using method_flags.subset_sound method_flags.subset_complete [OF wf_methods_bits [OF assms]]
  by blast

interpretation http_family: authority_family http_fetch_matches http_fetch_body_below
proof
  show "http_fetch_body_below a a" for a
    by (simp add: http_fetch_body_below_def HttpFetchMethods_is_subset_of_def url_pat.below_refl)
  show "http_fetch_body_below a c" if "http_fetch_body_below a b" "http_fetch_body_below b c" for a b c
    using that
    by (auto simp: http_fetch_body_below_def HttpFetchMethods_is_subset_of_def
        intro: url_pat.below_trans and_not_trans)
  show "http_fetch_matches p r" if "http_fetch_body_below c p" "http_fetch_matches c r" for c p r
    using that method_flags.subset_sound url_pat.below_sound
    by (auto simp: http_fetch_body_below_def http_fetch_matches_def
        HttpFetchMethods_is_subset_of_def HttpFetchMethods_contains_def)
qed

end
