(* ===== verification/GitHub_Authority.thy ===== *)
theory GitHub_Authority
  imports File_Authority
begin

text \<open>
  GitHub authorities (\<open>authority-core/src/github.rs\<close>): validated branch names, branch patterns,
  the operation bit set, and the request and delegation decisions.
\<close>

datatype InstallationId = InstallationId (installation_str: string)

section \<open>Operations\<close>

datatype GitHubOperation = PublishBranch | CreatePullRequest

fun GitHubOperation_tag :: "GitHubOperation \<Rightarrow> nat" where
  "GitHubOperation_tag PublishBranch = 0"
| "GitHubOperation_tag CreatePullRequest = 1"

definition GitHubOperation_mask :: "GitHubOperation \<Rightarrow> u8" where
  "GitHubOperation_mask x = push_bit (GitHubOperation_tag x) 1"

datatype GitHubOperations = GitHubOperations (operation_bits: u8)

definition GitHubOperations_empty :: GitHubOperations where
  "GitHubOperations_empty = GitHubOperations 0"

definition GitHubOperations_only :: "GitHubOperation \<Rightarrow> GitHubOperations" where
  "GitHubOperations_only x = GitHubOperations (GitHubOperation_mask x)"

definition GitHubOperations_from_operations :: "GitHubOperation list \<Rightarrow> GitHubOperations" where
  "GitHubOperations_from_operations xs =
     GitHubOperations (fold (\<lambda>x acc. acc OR GitHubOperation_mask x) xs 0)"

definition GitHubOperations_contains :: "GitHubOperations \<Rightarrow> GitHubOperation \<Rightarrow> bool" where
  "GitHubOperations_contains s x \<longleftrightarrow> operation_bits s AND GitHubOperation_mask x \<noteq> 0"

definition GitHubOperations_is_empty :: "GitHubOperations \<Rightarrow> bool" where
  "GitHubOperations_is_empty s \<longleftrightarrow> operation_bits s = 0"

definition GitHubOperations_is_subset_of :: "GitHubOperations \<Rightarrow> GitHubOperations \<Rightarrow> bool" where
  "GitHubOperations_is_subset_of c p \<longleftrightarrow> operation_bits c AND NOT (operation_bits p) = 0"

section \<open>Branch names\<close>

record BranchName =
  bn_segments :: "string list"

datatype InvalidBranchName =
    BranchEmpty
  | LeadingOrTrailingSeparator
  | FullyQualifiedReference
  | LeadingDash
  | ReservedAt
  | TrailingDot
  | DoubleDot
  | ReflogSyntax
  | EmptySegment nat
  | SegmentLeadingDot nat
  | SegmentTrailingDot nat
  | SegmentLockSuffix nat
  | ForbiddenCharacter nat

text \<open>
  \<open>chars().any(is_control)\<close> on the UTF-8 bytes of a string: the control characters are
  U+0000 to U+001F, U+007F, and U+0080 to U+009F, which UTF-8 writes as C2 followed by 80 to 9F.
\<close>

fun has_control :: "string \<Rightarrow> bool" where
  "has_control [] \<longleftrightarrow> False"
| "has_control (c # cs) \<longleftrightarrow>
     is_ascii_control c \<or>
     (of_char c = (0xC2 :: nat) \<and> cs \<noteq> [] \<and> 0x80 \<le> (of_char (hd cs) :: nat) \<and>
      of_char (hd cs) \<le> (0x9F :: nat)) \<or>
     has_control cs"

definition forbidden_branch_chars :: string where
  "forbidden_branch_chars = '' ~^:?*['' @ [CHR 0x5C]"

definition validate_branch_segment :: "nat \<Rightarrow> string \<Rightarrow> (InvalidBranchName, string) result" where
  "validate_branch_segment i s =
     (if s = [] then Err (EmptySegment i)
      else if hd s = CHR ''.'' then Err (SegmentLeadingDot i)
      else if last s = CHR ''.'' then Err (SegmentTrailingDot i)
      else if suffix ''.lock'' s then Err (SegmentLockSuffix i)
      else if has_control s \<or> list_ex (\<lambda>c. c \<in> set forbidden_branch_chars) s
      then Err (ForbiddenCharacter i)
      else Ok s)"

definition BranchName_new :: "string \<Rightarrow> (InvalidBranchName, BranchName) result" where
  "BranchName_new s =
     (if s = [] then Err BranchEmpty
      else if hd s = CHR ''/'' \<or> last s = CHR ''/'' then Err LeadingOrTrailingSeparator
      else if prefix ''refs/'' s then Err FullyQualifiedReference
      else if hd s = CHR ''-'' then Err LeadingDash
      else if s = ''@'' then Err ReservedAt
      else if last s = CHR ''.'' then Err TrailingDot
      else if sublist ''..'' s then Err DoubleDot
      else if sublist [CHR ''@'', CHR 0x7B] s then Err ReflogSyntax
      else (case collect_indexed validate_branch_segment 0 (split_on (CHR ''/'') s) of
              Err e \<Rightarrow> Err e
            | Ok segs \<Rightarrow> Ok \<lparr>bn_segments = segs\<rparr>))"

definition BranchName_is_at_or_below :: "BranchName \<Rightarrow> BranchName \<Rightarrow> bool" where
  "BranchName_is_at_or_below b a \<longleftrightarrow> prefix (bn_segments a) (bn_segments b)"

definition BranchName_display :: "BranchName \<Rightarrow> string" where
  "BranchName_display b = join_with (CHR ''/'') (bn_segments b)"

datatype BranchPattern =
    BranchExact BranchName
  | BranchPrefix BranchName

fun BranchPattern_branch :: "BranchPattern \<Rightarrow> BranchName" where
  "BranchPattern_branch (BranchExact b) = b"
| "BranchPattern_branch (BranchPrefix b) = b"

fun branch_matches :: "BranchPattern \<Rightarrow> BranchName \<Rightarrow> bool" where
  "branch_matches (BranchExact s) b \<longleftrightarrow> s = b"
| "branch_matches (BranchPrefix s) b \<longleftrightarrow> BranchName_is_at_or_below b s"

fun branch_below :: "BranchPattern \<Rightarrow> BranchPattern \<Rightarrow> bool" where
  "branch_below (BranchExact c) (BranchExact p) \<longleftrightarrow> c = p"
| "branch_below (BranchExact c) (BranchPrefix p) \<longleftrightarrow> BranchName_is_at_or_below c p"
| "branch_below (BranchPrefix c) (BranchPrefix p) \<longleftrightarrow> BranchName_is_at_or_below c p"
| "branch_below (BranchPrefix c) (BranchExact p) \<longleftrightarrow> False"

section \<open>Authorities and requests\<close>

record GitHubAuthority =
  ga_installation :: InstallationId
  ga_repository :: RepoId
  ga_operations :: GitHubOperations
  ga_base :: BranchPattern
  ga_head :: BranchPattern

record GitHubRequest =
  gr_installation :: InstallationId
  gr_repository :: RepoId
  gr_operation :: GitHubOperation
  gr_base :: BranchName
  gr_head :: BranchName

definition github_matches :: "GitHubAuthority \<Rightarrow> GitHubRequest \<Rightarrow> bool" where
  "github_matches a r \<longleftrightarrow>
     ga_installation a = gr_installation r \<and>
     ga_repository a = gr_repository r \<and>
     GitHubOperations_contains (ga_operations a) (gr_operation r) \<and>
     branch_matches (ga_base a) (gr_base r) \<and>
     branch_matches (ga_head a) (gr_head r)"

definition github_body_below :: "GitHubAuthority \<Rightarrow> GitHubAuthority \<Rightarrow> bool" where
  "github_body_below c p \<longleftrightarrow>
     ga_installation c = ga_installation p \<and>
     ga_repository c = ga_repository p \<and>
     GitHubOperations_is_subset_of (ga_operations c) (ga_operations p) \<and>
     branch_below (ga_base c) (ga_base p) \<and>
     branch_below (ga_head c) (ga_head p)"

text \<open>What the validator of branch names establishes.\<close>

definition branch_segment_ok :: "string \<Rightarrow> bool" where
  "branch_segment_ok s \<longleftrightarrow> s \<noteq> [] \<and> hd s \<noteq> CHR ''.'' \<and> last s \<noteq> CHR ''.'' \<and>
     \<not> suffix ''.lock'' s \<and> \<not> has_control s \<and> set s \<inter> set forbidden_branch_chars = {}"

definition branch_value_ok :: "string \<Rightarrow> bool" where
  "branch_value_ok s \<longleftrightarrow> s \<noteq> [] \<and> hd s \<noteq> CHR ''/'' \<and> last s \<noteq> CHR ''/'' \<and>
     \<not> prefix ''refs/'' s \<and> hd s \<noteq> CHR ''-'' \<and> s \<noteq> ''@'' \<and> last s \<noteq> CHR ''.'' \<and>
     \<not> sublist ''..'' s \<and> \<not> sublist [CHR ''@'', CHR 0x7B] s"

definition wf_branch :: "BranchName \<Rightarrow> bool" where
  "wf_branch b \<longleftrightarrow> bn_segments b \<noteq> [] \<and> branch_value_ok (BranchName_display b) \<and>
     list_all (\<lambda>s. branch_segment_ok s \<and> CHR ''/'' \<notin> set s) (bn_segments b)"

definition wf_operations :: "GitHubOperations \<Rightarrow> bool" where
  "wf_operations s \<longleftrightarrow> (\<exists>xs. s = GitHubOperations_from_operations xs)"

section \<open>Branch validation\<close>

lemma branch_eqI: "bn_segments p = bn_segments q \<Longrightarrow> p = (q :: BranchName)"
  by (cases p; cases q) simp

lemma validate_branch_segment_Ok:
  "validate_branch_segment i s = Ok t \<longleftrightarrow> t = s \<and> branch_segment_ok s"
  by (auto simp: validate_branch_segment_def branch_segment_ok_def list_ex_iff)

lemmas collect_branch_segments =
  collect_indexed_id [of validate_branch_segment branch_segment_ok, OF validate_branch_segment_Ok]

lemma branch_new_unfold:
  "BranchName_new s = Ok b \<longleftrightarrow>
     branch_value_ok s \<and> bn_segments b = split_on (CHR ''/'') s \<and>
     list_all branch_segment_ok (split_on (CHR ''/'') s)"
proof (cases "branch_value_ok s")
  case True
  then have "BranchName_new s =
    (case collect_indexed validate_branch_segment 0 (split_on (CHR ''/'') s) of
       Err e \<Rightarrow> Err e | Ok segs \<Rightarrow> Ok \<lparr>bn_segments = segs\<rparr>)"
    by (simp only: BranchName_new_def branch_value_ok_def if_False simp_thms)
  with True show ?thesis
    using collect_branch_segments [of 0 "split_on (CHR ''/'') s" "bn_segments b"]
    by (cases b) (auto split: sum.splits)
next
  case False
  then have "BranchName_new s \<noteq> Ok b"
    unfolding BranchName_new_def branch_value_ok_def by (simp only: split: if_split) auto
  with False show ?thesis by simp
qed

lemma wf_branch_split:
  "wf_branch b \<Longrightarrow> split_on (CHR ''/'') (BranchName_display b) = bn_segments b"
  unfolding BranchName_display_def by (rule split_join) (auto simp: wf_branch_def list_all_iff)

lemma BranchName_new_sound:
  assumes "BranchName_new s = Ok b"
  shows "wf_branch b \<and> s = BranchName_display b"
proof -
  from assms have ok: "branch_value_ok s" "bn_segments b = split_on (CHR ''/'') s"
    "list_all branch_segment_ok (split_on (CHR ''/'') s)"
    unfolding branch_new_unfold by blast+
  have s: "BranchName_display b = s" by (simp add: BranchName_display_def ok(2))
  have "list_all (\<lambda>w. branch_segment_ok w \<and> CHR ''/'' \<notin> set w) (bn_segments b)"
    using ok(3) by (auto simp: ok(2) list_all_iff dest: split_on_pieces)
  with ok(1) s show ?thesis by (simp add: wf_branch_def ok(2))
qed

lemma BranchName_new_complete: "wf_branch b \<Longrightarrow> BranchName_new (BranchName_display b) = Ok b"
  unfolding branch_new_unfold using wf_branch_split [of b] by (simp add: wf_branch_def list_all_iff)

lemma BranchName_new_Ok: "BranchName_new s = Ok b \<longleftrightarrow> wf_branch b \<and> s = BranchName_display b"
  using BranchName_new_sound BranchName_new_complete by blast

section \<open>Patterns, operations and delegation\<close>

interpretation branch_pat: segment_pattern bn_segments BranchExact BranchPrefix branch_matches branch_below
proof
  show "(\<exists>p. t = BranchExact p) \<or> (\<exists>p. t = BranchPrefix p)" for t
    by (cases t) auto
qed (auto simp: BranchName_is_at_or_below_def intro: branch_eqI)

interpretation operation_flags: flag_set GitHubOperation_tag GitHubOperation_mask
  "[PublishBranch, CreatePullRequest]"
proof
  show "GitHubOperation_tag x < LENGTH(8)" for x by (cases x) simp_all
  show "x = y" if "GitHubOperation_tag x = GitHubOperation_tag y" for x y
    using that by (cases x; cases y) simp_all
  show "x \<in> set [PublishBranch, CreatePullRequest]" for x by (cases x) simp_all
qed (simp add: GitHubOperation_mask_def)

lemma GitHubOperations_contains_from [simp]:
  "GitHubOperations_contains (GitHubOperations_from_operations xs) x \<longleftrightarrow> x \<in> set xs"
  by (simp add: GitHubOperations_contains_def GitHubOperations_from_operations_def
      operation_flags.contains_from_list)

lemma wf_operations_bits:
  "wf_operations s \<Longrightarrow> bit (operation_bits s) n \<Longrightarrow> n \<in> range GitHubOperation_tag"
  by (auto simp: wf_operations_def GitHubOperations_from_operations_def operation_flags.bit_from_list)

lemma GitHubOperations_subset_iff:
  assumes "wf_operations c"
  shows "GitHubOperations_is_subset_of c p \<longleftrightarrow>
    (\<forall>x. GitHubOperations_contains c x \<longrightarrow> GitHubOperations_contains p x)"
  unfolding GitHubOperations_is_subset_of_def GitHubOperations_contains_def
  using operation_flags.subset_sound operation_flags.subset_complete [OF wf_operations_bits [OF assms]]
  by blast

interpretation github_family: authority_family github_matches github_body_below
proof
  show "github_body_below a a" for a
    by (simp add: github_body_below_def GitHubOperations_is_subset_of_def branch_pat.below_refl)
  show "github_body_below a c" if "github_body_below a b" "github_body_below b c" for a b c
    using that
    by (auto simp: github_body_below_def GitHubOperations_is_subset_of_def
        intro: branch_pat.below_trans and_not_trans)
  show "github_matches p r" if "github_body_below c p" "github_matches c r" for c p r
    using that operation_flags.subset_sound branch_pat.below_sound
    by (auto simp: github_body_below_def github_matches_def
        GitHubOperations_is_subset_of_def GitHubOperations_contains_def)
qed

end
