(* ===== verification/Capability.thy ===== *)
theory Capability
  imports Time_Window File_Authority Http_Authority GitHub_Authority
begin

text \<open>
  Capabilities (\<open>authority-core/src/capability.rs\<close>): identities, lineage metadata, the union of
  the authority families, request sets, and the two pure decisions of the authority core,
  \<open>capability_matches\<close> and \<open>weaker_than\<close>.
\<close>

definition MAX_REQUESTS_PER_EFFECT :: nat where
  "MAX_REQUESTS_PER_EFFECT = 16"

datatype CapId = CapId (cap_str: string)

datatype SubjectId = SubjectId (subject_str: string)

datatype IssuerId = IssuerId (issuer_str: string)

record CapabilityMetadata =
  cm_id :: CapId
  cm_subject :: SubjectId
  cm_issuer :: IssuerId
  cm_parent :: "CapId option"
  cm_delegable :: bool

definition CapabilityMetadata_new :: "CapId \<Rightarrow> SubjectId \<Rightarrow> IssuerId \<Rightarrow> CapabilityMetadata" where
  "CapabilityMetadata_new i s j =
     \<lparr>cm_id = i, cm_subject = s, cm_issuer = j, cm_parent = None, cm_delegable = False\<rparr>"

definition with_parent :: "CapId \<Rightarrow> CapabilityMetadata \<Rightarrow> CapabilityMetadata" where
  "with_parent p m = m\<lparr>cm_parent := Some p\<rparr>"

definition with_delegable :: "bool \<Rightarrow> CapabilityMetadata \<Rightarrow> CapabilityMetadata" where
  "with_delegable d m = m\<lparr>cm_delegable := d\<rparr>"

datatype AuthorityBody =
    FileBody FileAuthority
  | HttpFetchBody HttpFetchAuthority
  | GitHubBody GitHubAuthority

datatype AuthorityRequest =
    FileReq FileRequest
  | HttpFetchReq HttpFetchRequest
  | GitHubReq GitHubRequest

record Capability =
  c_metadata :: CapabilityMetadata
  c_validity :: TimeWindow
  c_authority :: AuthorityBody

record CapabilityRequest =
  cr_time :: MonotonicTime
  cr_authority :: AuthorityRequest

record CapabilityRequestSet =
  rs_first :: CapabilityRequest
  rs_additional :: "CapabilityRequest list"
  rs_complete :: bool

definition CapabilityRequestSet_one :: "CapabilityRequest \<Rightarrow> CapabilityRequestSet" where
  "CapabilityRequestSet_one r = \<lparr>rs_first = r, rs_additional = [], rs_complete = True\<rparr>"

definition CapabilityRequestSet_new ::
    "CapabilityRequest \<Rightarrow> CapabilityRequest list \<Rightarrow> CapabilityRequestSet" where
  "CapabilityRequestSet_new r rs =
     \<lparr>rs_first = r,
      rs_additional = take (MAX_REQUESTS_PER_EFFECT - 1) rs,
      rs_complete = (drop (MAX_REQUESTS_PER_EFFECT - 1) rs = [])\<rparr>"

definition CapabilityRequestSet_iter :: "CapabilityRequestSet \<Rightarrow> CapabilityRequest list" where
  "CapabilityRequestSet_iter s = rs_first s # rs_additional s"

definition CapabilityRequestSet_len :: "CapabilityRequestSet \<Rightarrow> nat" where
  "CapabilityRequestSet_len s = 1 + length (rs_additional s)"

fun authority_matches :: "AuthorityBody \<Rightarrow> AuthorityRequest \<Rightarrow> bool" where
  "authority_matches (FileBody a) (FileReq r) \<longleftrightarrow> file_matches a r"
| "authority_matches (HttpFetchBody a) (HttpFetchReq r) \<longleftrightarrow> http_fetch_matches a r"
| "authority_matches (GitHubBody a) (GitHubReq r) \<longleftrightarrow> github_matches a r"
| "authority_matches _ _ \<longleftrightarrow> False"

fun authority_body_below :: "AuthorityBody \<Rightarrow> AuthorityBody \<Rightarrow> bool" where
  "authority_body_below (FileBody c) (FileBody p) \<longleftrightarrow> file_body_below c p"
| "authority_body_below (HttpFetchBody c) (HttpFetchBody p) \<longleftrightarrow> http_fetch_body_below c p"
| "authority_body_below (GitHubBody c) (GitHubBody p) \<longleftrightarrow> github_body_below c p"
| "authority_body_below _ _ \<longleftrightarrow> False"

definition capability_matches :: "Capability \<Rightarrow> CapabilityRequest \<Rightarrow> bool" where
  "capability_matches c r \<longleftrightarrow>
     TimeWindow_contains (c_validity c) (cr_time r) \<and>
     authority_matches (c_authority c) (cr_authority r)"

definition weaker_than :: "Capability \<Rightarrow> Capability \<Rightarrow> bool" where
  "weaker_than c p \<longleftrightarrow>
     TimeWindow_is_subset_of (c_validity c) (c_validity p) \<and>
     authority_body_below (c_authority c) (c_authority p)"

section \<open>Delegation is a preorder that never adds authority\<close>

interpretation body_family: authority_family authority_matches authority_body_below
proof
  show "authority_body_below a a" for a
    by (cases a) (simp_all add: file_family.family_refl http_family.family_refl
        github_family.family_refl)
  show "authority_body_below a c" if "authority_body_below a b" "authority_body_below b c" for a b c
    using that by (cases a; cases b; cases c)
      (auto intro: file_family.family_trans http_family.family_trans github_family.family_trans)
  show "authority_matches p r" if "authority_body_below c p" "authority_matches c r" for c p r
    using that by (cases c; cases p; cases r)
      (auto intro: file_family.family_sound http_family.family_sound github_family.family_sound)
qed

interpretation cap_family: authority_family capability_matches weaker_than
proof
  show "weaker_than a a" for a
    by (simp add: weaker_than_def body_family.family_refl)
  show "weaker_than a c" if "weaker_than a b" "weaker_than b c" for a b c
    using that by (auto simp: weaker_than_def intro: window_subset_trans body_family.family_trans)
  show "capability_matches p r" if "weaker_than c p" "capability_matches c r" for c p r
    using that
    by (auto simp: weaker_than_def capability_matches_def
        intro: window_subset_sound body_family.family_sound)
qed

section \<open>Request sets\<close>

definition wf_request_set :: "CapabilityRequestSet \<Rightarrow> bool" where
  "wf_request_set s \<longleftrightarrow> CapabilityRequestSet_len s \<le> MAX_REQUESTS_PER_EFFECT"

lemma wf_request_set_new: "wf_request_set (CapabilityRequestSet_new r rs)"
  by (simp add: wf_request_set_def CapabilityRequestSet_new_def CapabilityRequestSet_len_def
      MAX_REQUESTS_PER_EFFECT_def)

lemma wf_request_set_one: "wf_request_set (CapabilityRequestSet_one r)"
  by (simp add: wf_request_set_def CapabilityRequestSet_one_def CapabilityRequestSet_len_def
      MAX_REQUESTS_PER_EFFECT_def)

lemma request_set_complete:
  "rs_complete (CapabilityRequestSet_new r rs) \<Longrightarrow>
     CapabilityRequestSet_iter (CapabilityRequestSet_new r rs) = r # rs"
  by (simp add: CapabilityRequestSet_new_def CapabilityRequestSet_iter_def)

lemma request_set_truncated:
  "rs_complete (CapabilityRequestSet_new r rs) \<longleftrightarrow> length (r # rs) \<le> MAX_REQUESTS_PER_EFFECT"
  by (auto simp: CapabilityRequestSet_new_def MAX_REQUESTS_PER_EFFECT_def)

end
