(* ===== verification/Capability_State.thy ===== *)
theory Capability_State
  imports Capability
begin

text \<open>
  The sequential capability state machine (\<open>authority-core/src/state.rs\<close>, \<open>handle.rs\<close>):
  subjects, issued capabilities with their lineage, possession, direct revocation, the
  authorization epoch and open handles.  A method that takes \<open>&mut self\<close> returns its result
  together with the state it leaves.
\<close>

definition MAX_SUBJECTS_PER_SESSION :: nat where
  "MAX_SUBJECTS_PER_SESSION = 1048576"

definition MAX_CAPABILITIES_PER_SESSION :: nat where
  "MAX_CAPABILITIES_PER_SESSION = 1048576"

definition MAX_HANDLES_PER_SESSION :: nat where
  "MAX_HANDLES_PER_SESSION = 1048576"

definition MAX_DELEGATION_DEPTH :: nat where
  "MAX_DELEGATION_DEPTH = 64"

lemmas session_limits =
  MAX_SUBJECTS_PER_SESSION_def MAX_CAPABILITIES_PER_SESSION_def MAX_HANDLES_PER_SESSION_def
  MAX_DELEGATION_DEPTH_def

datatype HandleId = HandleId (handle_str: string)

datatype ObjectId = ObjectId (object_str: string)

record OpenHandle =
  oh_id :: HandleId
  oh_subject :: SubjectId
  oh_object :: ObjectId

record StaticAuthorityEnvelope =
  env_validity :: TimeWindow
  env_authority :: AuthorityBody

definition StaticAuthorityEnvelope_contains ::
    "StaticAuthorityEnvelope \<Rightarrow> TimeWindow \<Rightarrow> AuthorityBody \<Rightarrow> bool" where
  "StaticAuthorityEnvelope_contains e w a \<longleftrightarrow>
     TimeWindow_is_subset_of w (env_validity e) \<and> authority_body_below a (env_authority e)"

record Subject =
  sb_id :: SubjectId
  sb_parent :: "SubjectId option"
  sb_envelope :: StaticAuthorityEnvelope

datatype SubjectStatus = Running | Closing | Closed

datatype SubjectCloseStatus = CloseStarted | CloseAlreadyClosing | CloseAlreadyClosed

datatype SubjectFinishStatus = FinishClosed | FinishAlreadyClosed

datatype HandleCloseStatus = HandleClosed | HandleAlreadyClosed

record CapabilityGrant =
  g_subject :: SubjectId
  g_validity :: TimeWindow
  g_authority :: AuthorityBody
  g_delegable :: bool

datatype RevocationStatus = NewlyRevoked | AlreadyRevoked

datatype AuthorizationEpoch = AuthorizationEpoch (epoch_u64: u64)

instantiation AuthorizationEpoch :: linorder
begin

definition less_eq_AuthorizationEpoch :: "AuthorizationEpoch \<Rightarrow> AuthorizationEpoch \<Rightarrow> bool" where
  "less_eq_AuthorizationEpoch s t \<longleftrightarrow> epoch_u64 s \<le> epoch_u64 t"

definition less_AuthorizationEpoch :: "AuthorizationEpoch \<Rightarrow> AuthorizationEpoch \<Rightarrow> bool" where
  "less_AuthorizationEpoch s t \<longleftrightarrow> epoch_u64 s < epoch_u64 t"

instance
  by standard
    (auto simp: less_eq_AuthorizationEpoch_def less_AuthorizationEpoch_def AuthorizationEpoch.expand)

end

definition AuthorizationEpoch_checked_next :: "AuthorizationEpoch \<Rightarrow> AuthorizationEpoch option" where
  "AuthorizationEpoch_checked_next e =
     (case checked_add (epoch_u64 e) 1 of None \<Rightarrow> None | Some v \<Rightarrow> Some (AuthorizationEpoch v))"

datatype CapabilityStateError =
    DuplicateSubject SubjectId
  | SubjectCountExceeded
  | UnknownParentSubject SubjectId
  | UnknownSubject SubjectId
  | SubjectNotRunning SubjectId
  | SubjectNotClosing SubjectId
  | SubjectHasOpenHandles SubjectId
  | HandleIdAlreadyIssued HandleId
  | HandleCountExceeded
  | UnknownHandle HandleId
  | HandleNotOwned SubjectId HandleId
  | UnknownCapability CapId
  | CapabilityNotHeld SubjectId CapId
  | InvalidCapabilityId CapId
  | CapabilityIdAlreadyIssued CapId
  | ParentNotHeld SubjectId CapId
  | ParentChainInactive CapId
  | ParentNotDelegable CapId
  | DelegationDepthExceeded CapId
  | GrantExceedsParent CapId
  | GrantExceedsEnvelope SubjectId
  | CapabilityIdExhausted
  | CapabilityCountExceeded
  | AuthorizationEpochExhausted

record CapabilityState =
  st_issuer :: IssuerId
  st_next :: "u64 option"
  st_subjects :: "(SubjectId, Subject) fmap"
  st_statuses :: "(SubjectId, SubjectStatus) fmap"
  st_capabilities :: "(CapId, Capability) fmap"
  st_held :: "(SubjectId, CapId fset) fmap"
  st_revoked :: "CapId fset"
  st_issued :: "CapId fset"
  st_epoch :: AuthorizationEpoch
  st_open :: "(HandleId, OpenHandle) fmap"
  st_owners :: "(HandleId, SubjectId) fmap"

definition CapabilityState_new :: "IssuerId \<Rightarrow> CapabilityState" where
  "CapabilityState_new i =
     \<lparr>st_issuer = i, st_next = Some 0, st_subjects = fmempty, st_statuses = fmempty,
      st_capabilities = fmempty, st_held = fmempty, st_revoked = {||}, st_issued = {||},
      st_epoch = AuthorizationEpoch 0, st_open = fmempty, st_owners = fmempty\<rparr>"

definition is_pristine :: "CapabilityState \<Rightarrow> bool" where
  "is_pristine s \<longleftrightarrow>
     st_next s = Some 0 \<and> st_subjects s = fmempty \<and> st_statuses s = fmempty \<and>
     st_capabilities s = fmempty \<and> st_held s = fmempty \<and> st_revoked s = {||} \<and>
     st_issued s = {||} \<and> st_epoch s = AuthorizationEpoch 0 \<and> st_open s = fmempty \<and>
     st_owners s = fmempty"

type_synonym 'a transition = "CapabilityState \<Rightarrow> (CapabilityStateError, 'a) result \<times> CapabilityState"

section \<open>Checks\<close>

definition ensure_subject_running ::
    "CapabilityState \<Rightarrow> SubjectId \<Rightarrow> (CapabilityStateError, unit) result" where
  "ensure_subject_running s x =
     (case fmlookup (st_statuses s) x of
        None \<Rightarrow> Err (UnknownSubject x)
      | Some Running \<Rightarrow> Ok ()
      | Some _ \<Rightarrow> Err (SubjectNotRunning x))"

definition validate_envelope ::
    "CapabilityState \<Rightarrow> CapabilityGrant \<Rightarrow> (CapabilityStateError, unit) result" where
  "validate_envelope s g =
     (case ensure_subject_running s (g_subject g) of
        Err e \<Rightarrow> Err e
      | Ok _ \<Rightarrow>
          (case fmlookup (st_subjects s) (g_subject g) of
             None \<Rightarrow> Err (UnknownSubject (g_subject g))
           | Some x \<Rightarrow>
               if StaticAuthorityEnvelope_contains (sb_envelope x) (g_validity g) (g_authority g)
               then Ok () else Err (GrantExceedsEnvelope (g_subject g))))"

definition validate_capability_id :: "CapId \<Rightarrow> (CapabilityStateError, unit) result" where
  "validate_capability_id i = (if cap_str i = [] then Err (InvalidCapabilityId i) else Ok ())"

definition ensure_capability_capacity :: "CapabilityState \<Rightarrow> (CapabilityStateError, unit) result" where
  "ensure_capability_capacity s =
     (if fcard (st_issued s) \<ge> MAX_CAPABILITIES_PER_SESSION then Err CapabilityCountExceeded else Ok ())"

definition next_authorization_epoch ::
    "CapabilityState \<Rightarrow> (CapabilityStateError, AuthorizationEpoch) result" where
  "next_authorization_epoch s =
     (case AuthorizationEpoch_checked_next (st_epoch s) of
        None \<Rightarrow> Err AuthorizationEpochExhausted | Some e \<Rightarrow> Ok e)"

definition is_held_by :: "CapabilityState \<Rightarrow> SubjectId \<Rightarrow> CapId \<Rightarrow> bool" where
  "is_held_by s x c \<longleftrightarrow> (case fmlookup (st_held s) x of None \<Rightarrow> False | Some cs \<Rightarrow> c |\<in>| cs)"

definition subject_open_handle_count :: "CapabilityState \<Rightarrow> SubjectId \<Rightarrow> nat" where
  "subject_open_handle_count s x =
     fcard (ffilter (\<lambda>h. map_option oh_subject (fmlookup (st_open s) h) = Some x) (fmdom (st_open s)))"

definition object_open_handle_count :: "CapabilityState \<Rightarrow> ObjectId \<Rightarrow> nat" where
  "object_open_handle_count s x =
     fcard (ffilter (\<lambda>h. map_option oh_object (fmlookup (st_open s) h) = Some x) (fmdom (st_open s)))"

section \<open>Walking the ancestor chain\<close>

text \<open>
  The loop of \<open>is_effectively_active\<close>.  Every turn adds an issued identity to \<open>visited\<close> or
  returns, so the issued identities not visited yet bound the number of turns.
\<close>

function active_loop :: "CapabilityState \<Rightarrow> MonotonicTime \<Rightarrow> CapId option \<Rightarrow> CapId fset \<Rightarrow> bool" where
  "active_loop s now current visited =
     (case current of
        None \<Rightarrow> True
      | Some i \<Rightarrow>
          if i |\<in>| visited then False
          else
            (case fmlookup (st_capabilities s) i of
               None \<Rightarrow> False
             | Some c \<Rightarrow>
                 if i |\<in>| st_revoked s \<or> \<not> TimeWindow_contains (c_validity c) now then False
                 else active_loop s now (cm_parent (c_metadata c)) (finsert i visited)))"
  by pat_completeness auto

termination active_loop
proof (relation "measure (\<lambda>(s, now, current, visited). fcard (fmdom (st_capabilities s) |-| visited))")
  fix s :: CapabilityState and now :: MonotonicTime and current visited i c
  assume "i |\<notin>| visited" "fmlookup (st_capabilities s) i = Some c"
  then have "fcard (fmdom (st_capabilities s) |-| finsert i visited)
      < fcard (fmdom (st_capabilities s) |-| visited)"
    by (intro fcard_visit fmdomI)
  then show "((s, now, cm_parent (c_metadata c), finsert i visited), s, now, current, visited)
      \<in> measure (\<lambda>(s, now, current, visited). fcard (fmdom (st_capabilities s) |-| visited))"
    by simp
qed simp

declare active_loop.simps [simp del]

definition is_effectively_active :: "CapabilityState \<Rightarrow> CapId \<Rightarrow> MonotonicTime \<Rightarrow> bool" where
  "is_effectively_active s i now = active_loop s now (Some i) {||}"

text \<open>The loop of \<open>delegation_depth\<close>; it stops as soon as the depth exceeds the limit.\<close>

function depth_loop :: "CapabilityState \<Rightarrow> CapId option \<Rightarrow> nat \<Rightarrow> CapId fset \<Rightarrow> nat" where
  "depth_loop s current depth visited =
     (case current of
        None \<Rightarrow> depth
      | Some i \<Rightarrow>
          if i |\<in>| visited then MAX_DELEGATION_DEPTH + 1
          else if Suc depth > MAX_DELEGATION_DEPTH then Suc depth
          else
            depth_loop s
              (case fmlookup (st_capabilities s) i of
                 None \<Rightarrow> None | Some c \<Rightarrow> cm_parent (c_metadata c))
              (Suc depth) (finsert i visited))"
  by pat_completeness auto

termination depth_loop
  by (relation "measure (\<lambda>(s, current, depth, visited). MAX_DELEGATION_DEPTH - depth)") auto

declare depth_loop.simps [simp del]

definition delegation_depth :: "CapabilityState \<Rightarrow> CapId \<Rightarrow> nat" where
  "delegation_depth s i = depth_loop s (Some i) 0 {||}"

definition active_capability ::
    "CapabilityState \<Rightarrow> SubjectId \<Rightarrow> CapId \<Rightarrow> MonotonicTime \<Rightarrow> Capability option" where
  "active_capability s caller i now =
     (if fmlookup (st_statuses s) caller \<noteq> Some Running then None
      else
        (case fmlookup (st_capabilities s) i of
           None \<Rightarrow> None
         | Some c \<Rightarrow>
             if cm_subject (c_metadata c) = caller \<and> is_held_by s caller i \<and> is_effectively_active s i now
             then Some c else None))"

definition authorizes :: "CapabilityState \<Rightarrow> SubjectId \<Rightarrow> CapId \<Rightarrow> CapabilityRequest \<Rightarrow> bool" where
  "authorizes s caller i r \<longleftrightarrow>
     (case active_capability s caller i (cr_time r) of
        None \<Rightarrow> False | Some c \<Rightarrow> capability_matches c r)"

section \<open>Issuing\<close>

definition sequential_id :: "IssuerId \<Rightarrow> u64 \<Rightarrow> CapId" where
  "sequential_id i n = CapId (issuer_str i @ '':'' @ show_nat (unat n))"

text \<open>The probing loop of \<open>allocate_capability_id\<close>: the sequence number only grows.\<close>

function allocate_loop :: "u64 \<Rightarrow> CapId transition" where
  "allocate_loop n s =
     (if sequential_id (st_issuer s) n |\<notin>| st_issued s
      then (Ok (sequential_id (st_issuer s) n), s\<lparr>st_next := checked_add n 1\<rparr>)
      else
        (case checked_add n 1 of
           Some n' \<Rightarrow> allocate_loop n' s
         | None \<Rightarrow> (Err CapabilityIdExhausted, s\<lparr>st_next := None\<rparr>)))"
  by pat_completeness auto

termination allocate_loop
proof (relation "measure (\<lambda>(n, s). 2 ^ 64 - unat n)")
  fix n n' :: u64 and s :: CapabilityState
  assume "checked_add n 1 = Some n'"
  then have "unat n' = unat n + 1" by (simp add: checked_add_Some_iff)
  moreover have "unat n' < 2 ^ 64" using unsigned_less [of n'] by simp
  ultimately show "((n', s), n, s) \<in> measure (\<lambda>(n, s). 2 ^ 64 - unat n)" by simp
qed simp

declare allocate_loop.simps [simp del]

definition allocate_capability_id :: "CapId transition" where
  "allocate_capability_id s =
     (case st_next s of
        None \<Rightarrow> (Err CapabilityIdExhausted, s)
      | Some n \<Rightarrow> allocate_loop n s)"

definition issue_with_id :: "CapabilityGrant \<Rightarrow> CapId option \<Rightarrow> CapId \<Rightarrow> CapabilityState \<Rightarrow> CapId \<times> CapabilityState" where
  "issue_with_id g parent i s =
     (let m = with_delegable (g_delegable g) (CapabilityMetadata_new i (g_subject g) (st_issuer s));
          m = (case parent of None \<Rightarrow> m | Some p \<Rightarrow> with_parent p m);
          c = \<lparr>c_metadata = m, c_validity = g_validity g, c_authority = g_authority g\<rparr>;
          x = cm_subject m;
          hs = (case fmlookup (st_held s) x of None \<Rightarrow> {||} | Some hs \<Rightarrow> hs)
      in (i, s\<lparr>st_issued := finsert i (st_issued s),
               st_held := fmupd x (finsert i hs) (st_held s),
               st_capabilities := fmupd i c (st_capabilities s)\<rparr>))"

definition issue :: "CapabilityGrant \<Rightarrow> CapId option \<Rightarrow> CapId transition" where
  "issue g parent s =
     (case ensure_capability_capacity s of
        Err e \<Rightarrow> (Err e, s)
      | Ok _ \<Rightarrow>
          (case allocate_capability_id s of
             (Err e, s') \<Rightarrow> (Err e, s')
           | (Ok i, s') \<Rightarrow> (let (j, s'') = issue_with_id g parent i s' in (Ok j, s''))))"

definition issue_root :: "CapabilityGrant \<Rightarrow> CapId transition" where
  "issue_root g s =
     (case validate_envelope s g of Err e \<Rightarrow> (Err e, s) | Ok _ \<Rightarrow> issue g None s)"

definition issue_root_with_id :: "CapId \<Rightarrow> CapabilityGrant \<Rightarrow> CapId transition" where
  "issue_root_with_id i g s =
     (case validate_envelope s g of
        Err e \<Rightarrow> (Err e, s)
      | Ok _ \<Rightarrow>
          (case validate_capability_id i of
             Err e \<Rightarrow> (Err e, s)
           | Ok _ \<Rightarrow>
               if i |\<in>| st_issued s then (Err (CapabilityIdAlreadyIssued i), s)
               else
                 (case ensure_capability_capacity s of
                    Err e \<Rightarrow> (Err e, s)
                  | Ok _ \<Rightarrow> (let (j, s') = issue_with_id g None i s in (Ok j, s')))))"

definition derive :: "SubjectId \<Rightarrow> CapId \<Rightarrow> CapabilityGrant \<Rightarrow> MonotonicTime \<Rightarrow> CapId transition" where
  "derive caller parent g now s =
     (case ensure_subject_running s caller of
        Err e \<Rightarrow> (Err e, s)
      | Ok _ \<Rightarrow>
          (case fmlookup (st_capabilities s) parent of
             None \<Rightarrow> (Err (UnknownCapability parent), s)
           | Some p \<Rightarrow>
               if cm_subject (c_metadata p) \<noteq> caller \<or> \<not> is_held_by s caller parent
               then (Err (ParentNotHeld caller parent), s)
               else if \<not> is_effectively_active s parent now
               then (Err (ParentChainInactive parent), s)
               else if \<not> cm_delegable (c_metadata p)
               then (Err (ParentNotDelegable parent), s)
               else if \<not> TimeWindow_is_subset_of (g_validity g) (c_validity p) \<or>
                       \<not> authority_body_below (g_authority g) (c_authority p)
               then (Err (GrantExceedsParent parent), s)
               else if delegation_depth s parent \<ge> MAX_DELEGATION_DEPTH
               then (Err (DelegationDepthExceeded parent), s)
               else
                 (case validate_envelope s g of
                    Err e \<Rightarrow> (Err e, s)
                  | Ok _ \<Rightarrow> issue g (Some parent) s)))"

section \<open>Subjects, handles and revocation\<close>

definition register_subject :: "Subject \<Rightarrow> unit transition" where
  "register_subject x s =
     (if sb_id x |\<in>| fmdom (st_subjects s) then (Err (DuplicateSubject (sb_id x)), s)
      else
        (case (case sb_parent x of
                 None \<Rightarrow> Ok ()
               | Some p \<Rightarrow>
                   if p |\<notin>| fmdom (st_subjects s) then Err (UnknownParentSubject p)
                   else ensure_subject_running s p) of
           Err e \<Rightarrow> (Err e, s)
         | Ok _ \<Rightarrow>
             if fm_len (st_subjects s) \<ge> MAX_SUBJECTS_PER_SESSION
             then (Err SubjectCountExceeded, s)
             else
               (Ok (), s\<lparr>st_held := fmupd (sb_id x) {||} (st_held s),
                         st_statuses := fmupd (sb_id x) Running (st_statuses s),
                         st_subjects := fmupd (sb_id x) x (st_subjects s)\<rparr>)))"

definition register_open_handle :: "OpenHandle \<Rightarrow> unit transition" where
  "register_open_handle h s =
     (case ensure_subject_running s (oh_subject h) of
        Err e \<Rightarrow> (Err e, s)
      | Ok _ \<Rightarrow>
          if oh_id h |\<in>| fmdom (st_owners s) then (Err (HandleIdAlreadyIssued (oh_id h)), s)
          else if fm_len (st_owners s) \<ge> MAX_HANDLES_PER_SESSION then (Err HandleCountExceeded, s)
          else
            (Ok (), s\<lparr>st_owners := fmupd (oh_id h) (oh_subject h) (st_owners s),
                      st_open := fmupd (oh_id h) h (st_open s)\<rparr>))"

definition close_handle :: "SubjectId \<Rightarrow> HandleId \<Rightarrow> HandleCloseStatus transition" where
  "close_handle caller h s =
     (case fmlookup (st_owners s) h of
        None \<Rightarrow> (Err (UnknownHandle h), s)
      | Some owner \<Rightarrow>
          if owner \<noteq> caller then (Err (HandleNotOwned caller h), s)
          else if h |\<in>| fmdom (st_open s)
          then (Ok HandleClosed, s\<lparr>st_open := fmdrop h (st_open s)\<rparr>)
          else (Ok HandleAlreadyClosed, s))"

definition revoke_existing :: "CapId \<Rightarrow> RevocationStatus transition" where
  "revoke_existing i s =
     (if i |\<in>| st_revoked s then (Ok AlreadyRevoked, s)
      else
        (case next_authorization_epoch s of
           Err e \<Rightarrow> (Err e, s)
         | Ok ep \<Rightarrow> (Ok NewlyRevoked, s\<lparr>st_revoked := finsert i (st_revoked s), st_epoch := ep\<rparr>)))"

definition revoke :: "CapId \<Rightarrow> RevocationStatus transition" where
  "revoke i s =
     (if i |\<notin>| fmdom (st_capabilities s) then (Err (UnknownCapability i), s)
      else revoke_existing i s)"

definition revoke_held_by :: "SubjectId \<Rightarrow> CapId \<Rightarrow> RevocationStatus transition" where
  "revoke_held_by caller i s =
     (if i |\<notin>| fmdom (st_capabilities s) then (Err (UnknownCapability i), s)
      else if \<not> is_held_by s caller i then (Err (CapabilityNotHeld caller i), s)
      else revoke_existing i s)"

definition begin_subject_close :: "SubjectId \<Rightarrow> SubjectCloseStatus transition" where
  "begin_subject_close x s =
     (case fmlookup (st_statuses s) x of
        None \<Rightarrow> (Err (UnknownSubject x), s)
      | Some Closing \<Rightarrow> (Ok CloseAlreadyClosing, s)
      | Some Closed \<Rightarrow> (Ok CloseAlreadyClosed, s)
      | Some Running \<Rightarrow>
          (case next_authorization_epoch s of
             Err e \<Rightarrow> (Err e, s)
           | Ok ep \<Rightarrow>
               (Ok CloseStarted,
                s\<lparr>st_revoked := (case fmlookup (st_held s) x of
                                 None \<Rightarrow> st_revoked s | Some cs \<Rightarrow> st_revoked s |\<union>| cs),
                  st_statuses := fmupd x Closing (st_statuses s),
                  st_epoch := ep\<rparr>)))"

definition finish_subject_close :: "SubjectId \<Rightarrow> SubjectFinishStatus transition" where
  "finish_subject_close x s =
     (case fmlookup (st_statuses s) x of
        None \<Rightarrow> (Err (UnknownSubject x), s)
      | Some Running \<Rightarrow> (Err (SubjectNotClosing x), s)
      | Some Closing \<Rightarrow>
          if subject_open_handle_count s x \<noteq> 0 then (Err (SubjectHasOpenHandles x), s)
          else (Ok FinishClosed, s\<lparr>st_statuses := fmupd x Closed (st_statuses s)\<rparr>)
      | Some Closed \<Rightarrow> (Ok FinishAlreadyClosed, s))"

section \<open>The state machine\<close>

text \<open>Every operation of the public interface that changes the state, and its reply.\<close>

datatype cap_op =
    OpRegisterSubject Subject
  | OpRegisterHandle OpenHandle
  | OpCloseHandle SubjectId HandleId
  | OpIssueRoot CapabilityGrant
  | OpIssueRootWithId CapId CapabilityGrant
  | OpDerive SubjectId CapId CapabilityGrant MonotonicTime
  | OpRevoke CapId
  | OpRevokeHeldBy SubjectId CapId
  | OpBeginClose SubjectId
  | OpFinishClose SubjectId

datatype cap_reply =
    RDone
  | RHandle HandleCloseStatus
  | RIssued CapId
  | RRevoked RevocationStatus
  | RClosing SubjectCloseStatus
  | RClosed SubjectFinishStatus

definition reply :: "('a \<Rightarrow> cap_reply) \<Rightarrow> (CapabilityStateError, 'a) result \<times> CapabilityState
    \<Rightarrow> (CapabilityStateError, cap_reply) result \<times> CapabilityState" where
  "reply f r = (map_sum id f (fst r), snd r)"

fun cap_step :: "cap_op \<Rightarrow> cap_reply transition" where
  "cap_step (OpRegisterSubject x) s = reply (\<lambda>_. RDone) (register_subject x s)"
| "cap_step (OpRegisterHandle h) s = reply (\<lambda>_. RDone) (register_open_handle h s)"
| "cap_step (OpCloseHandle x h) s = reply RHandle (close_handle x h s)"
| "cap_step (OpIssueRoot g) s = reply RIssued (issue_root g s)"
| "cap_step (OpIssueRootWithId i g) s = reply RIssued (issue_root_with_id i g s)"
| "cap_step (OpDerive x i g now) s = reply RIssued (derive x i g now s)"
| "cap_step (OpRevoke i) s = reply RRevoked (revoke i s)"
| "cap_step (OpRevokeHeldBy x i) s = reply RRevoked (revoke_held_by x i s)"
| "cap_step (OpBeginClose x) s = reply RClosing (begin_subject_close x s)"
| "cap_step (OpFinishClose x) s = reply RClosed (finish_subject_close x s)"

end
