(* ===== verification/Capability_Lineage.thy ===== *)
theory Capability_Lineage
  imports Capability_State
begin

text \<open>
  Lineages of capabilities and the changes of the capability state.  The two loops over the
  ancestor chain are characterised by the lineage of a capability (the path of parent links to
  its root), and every operation of \<open>cap_step\<close> is shown to make one of nine elementary changes,
  so that each invariant is proved once per change.
\<close>

section \<open>Lineages\<close>

inductive lineage :: "(CapId, Capability) fmap \<Rightarrow> CapId \<Rightarrow> CapId list \<Rightarrow> bool" for caps where
  lineage_root:
    "fmlookup caps i = Some c \<Longrightarrow> cm_parent (c_metadata c) = None \<Longrightarrow> lineage caps i [i]"
| lineage_step:
    "fmlookup caps i = Some c \<Longrightarrow> cm_parent (c_metadata c) = Some p \<Longrightarrow> lineage caps p xs \<Longrightarrow>
     lineage caps i (i # xs)"

inductive_cases lineage_NilE: "lineage caps i []"
inductive_cases lineage_ConsE: "lineage caps i (j # xs)"

lemma lineage_not_Nil: "lineage caps i xs \<Longrightarrow> xs \<noteq> []"
  by (auto elim: lineage_NilE)

lemma lineage_hd: "lineage caps i xs \<Longrightarrow> \<exists>ys. xs = i # ys"
  by (induction rule: lineage.induct) auto

lemma lineage_dom: "lineage caps i xs \<Longrightarrow> a \<in> set xs \<Longrightarrow> \<exists>c. fmlookup caps a = Some c"
  by (induction rule: lineage.induct) auto

lemma lineage_det: "lineage caps i xs \<Longrightarrow> lineage caps i ys \<Longrightarrow> xs = ys"
proof (induction arbitrary: ys rule: lineage.induct)
  case (lineage_root i c)
  from lineage_root.prems lineage_root.hyps show ?case by cases auto
next
  case (lineage_step i c p xs)
  from lineage_step.prems lineage_step.hyps(1,2) obtain zs where "ys = i # zs" "lineage caps p zs"
    by cases auto
  with lineage_step.IH [of zs] show ?case by blast
qed

lemma lineage_member:
  "lineage caps i xs \<Longrightarrow> a \<in> set xs \<Longrightarrow> \<exists>zs. suffix zs xs \<and> lineage caps a zs"
proof (induction rule: lineage.induct)
  case (lineage_root i c)
  then have "a = i" by simp
  with lineage_root have "lineage caps a [i]" by (simp add: lineage.lineage_root)
  then show ?case by (intro exI [of _ "[i]"]) simp
next
  case (lineage_step i c p xs)
  show ?case
  proof (cases "a = i")
    case True
    with lineage.lineage_step [OF lineage_step.hyps] have "lineage caps a (i # xs)" by simp
    then show ?thesis by (intro exI [of _ "i # xs"]) simp
  next
    case False
    with lineage_step.prems have "a \<in> set xs" by simp
    from lineage_step.IH [OF this] obtain zs where "suffix zs xs" "lineage caps a zs" by blast
    then show ?thesis by (intro exI [of _ zs]) (simp add: suffix_ConsI)
  qed
qed

lemma lineage_distinct: "lineage caps i xs \<Longrightarrow> distinct xs"
proof (induction rule: lineage.induct)
  case (lineage_step i c p xs)
  have "i \<notin> set xs"
  proof
    assume "i \<in> set xs"
    from lineage_member [OF lineage_step.hyps(3) this] obtain zs
      where zs: "suffix zs xs" "lineage caps i zs" by blast
    from lineage_det [OF zs(2) lineage.lineage_step [OF lineage_step.hyps]] zs(1)
    have "suffix (i # xs) xs" by simp
    from suffix_length_le [OF this] show False by simp
  qed
  with lineage_step show ?case by simp
qed simp

text \<open>Records are never changed, so lineages survive every extension of the capability map.\<close>

lemma lineage_mono:
  "lineage caps i xs \<Longrightarrow> (\<And>j c. fmlookup caps j = Some c \<Longrightarrow> fmlookup caps' j = Some c) \<Longrightarrow>
     lineage caps' i xs"
  by (induction rule: lineage.induct) (blast intro: lineage.intros)+

section \<open>The two loops\<close>

definition live_at :: "CapabilityState \<Rightarrow> MonotonicTime \<Rightarrow> CapId \<Rightarrow> bool" where
  "live_at s now a \<longleftrightarrow>
     a |\<notin>| st_revoked s \<and>
     (case fmlookup (st_capabilities s) a of
        None \<Rightarrow> False | Some c \<Rightarrow> TimeWindow_contains (c_validity c) now)"

lemma active_loop_lineage:
  assumes "lineage (st_capabilities s) i xs" "set xs \<inter> fset visited = {}"
  shows "active_loop s now (Some i) visited \<longleftrightarrow> (\<forall>a \<in> set xs. live_at s now a)"
  using assms
proof (induction arbitrary: visited rule: lineage.induct)
  case (lineage_root i c)
  then show ?case
    by (subst active_loop.simps) (auto simp: live_at_def active_loop.simps [of _ _ None])
next
  case (lineage_step i c p xs)
  have "i \<notin> set xs"
    using lineage_distinct [OF lineage.lineage_step [OF lineage_step.hyps]] by simp
  with lineage_step have "active_loop s now (Some p) (finsert i visited) \<longleftrightarrow>
      (\<forall>a \<in> set xs. live_at s now a)"
    by simp
  with lineage_step show ?case
    by (subst active_loop.simps) (auto simp: live_at_def)
qed

lemma active_loop_has_lineage:
  "active_loop s now current visited \<Longrightarrow> current = Some i \<Longrightarrow> \<exists>xs. lineage (st_capabilities s) i xs"
proof (induction s now current visited arbitrary: i rule: active_loop.induct)
  case (1 s now current visited)
  from 1(2,3) obtain c where c: "fmlookup (st_capabilities s) i = Some c"
    and up: "active_loop s now (cm_parent (c_metadata c)) (finsert i visited)"
    and ok: "i |\<notin>| visited" "\<not> (i |\<in>| st_revoked s \<or> \<not> TimeWindow_contains (c_validity c) now)"
    by (subst (asm) active_loop.simps) (auto split: if_splits option.splits)
  show ?case
  proof (cases "cm_parent (c_metadata c)")
    case None
    with c show ?thesis by (blast intro: lineage.lineage_root)
  next
    case (Some p)
    from 1(1) [OF 1(3) ok(1) c ok(2) up Some] c Some show ?thesis
      by (blast intro: lineage.lineage_step)
  qed
qed

lemma is_effectively_active_iff:
  "is_effectively_active s i now \<longleftrightarrow>
     (\<exists>xs. lineage (st_capabilities s) i xs \<and> (\<forall>a \<in> set xs. live_at s now a))"
  unfolding is_effectively_active_def
  using active_loop_lineage [of s i _ "{||}" now] active_loop_has_lineage by fastforce

lemma depth_loop_lineage:
  assumes "lineage (st_capabilities s) i xs" "set xs \<inter> fset visited = {}"
    "depth + length xs \<le> MAX_DELEGATION_DEPTH"
  shows "depth_loop s (Some i) depth visited = depth + length xs"
  using assms
proof (induction arbitrary: visited depth rule: lineage.induct)
  case (lineage_root i c)
  then show ?case
    by (subst depth_loop.simps) (auto simp: depth_loop.simps [of _ None])
next
  case (lineage_step i c p xs)
  have "i \<notin> set xs"
    using lineage_distinct [OF lineage.lineage_step [OF lineage_step.hyps]] by simp
  with lineage_step have "depth_loop s (Some p) (Suc depth) (finsert i visited) = Suc depth + length xs"
    by simp
  with lineage_step show ?case
    by (subst depth_loop.simps) auto
qed

lemma delegation_depth_lineage:
  "lineage (st_capabilities s) i xs \<Longrightarrow> length xs \<le> MAX_DELEGATION_DEPTH \<Longrightarrow>
     delegation_depth s i = length xs"
  using depth_loop_lineage [of s i xs "{||}" 0] by (simp add: delegation_depth_def)

section \<open>Elementary changes\<close>

definition held_of :: "CapabilityState \<Rightarrow> SubjectId \<Rightarrow> CapId fset" where
  "held_of s x = (case fmlookup (st_held s) x of None \<Rightarrow> {||} | Some cs \<Rightarrow> cs)"

lemma is_held_by_held_of: "is_held_by s x i \<longleftrightarrow> i |\<in>| held_of s x"
  by (simp add: is_held_by_def held_of_def split: option.splits)

definition granted :: "IssuerId \<Rightarrow> CapabilityGrant \<Rightarrow> CapId option \<Rightarrow> CapId \<Rightarrow> Capability" where
  "granted j g parent i =
     \<lparr>c_metadata = \<lparr>cm_id = i, cm_subject = g_subject g, cm_issuer = j, cm_parent = parent,
                     cm_delegable = g_delegable g\<rparr>,
      c_validity = g_validity g, c_authority = g_authority g\<rparr>"

lemma granted_sel [simp]:
  "cm_id (c_metadata (granted j g parent i)) = i"
  "cm_subject (c_metadata (granted j g parent i)) = g_subject g"
  "cm_issuer (c_metadata (granted j g parent i)) = j"
  "cm_parent (c_metadata (granted j g parent i)) = parent"
  "cm_delegable (c_metadata (granted j g parent i)) = g_delegable g"
  "c_validity (granted j g parent i) = g_validity g"
  "c_authority (granted j g parent i) = g_authority g"
  by (simp_all add: granted_def)

definition issued_state ::
    "CapabilityGrant \<Rightarrow> CapId option \<Rightarrow> CapId \<Rightarrow> u64 option \<Rightarrow> CapabilityState \<Rightarrow> CapabilityState" where
  "issued_state g parent i nxt s =
     s\<lparr>st_next := nxt,
       st_issued := finsert i (st_issued s),
       st_held := fmupd (g_subject g) (finsert i (held_of s (g_subject g))) (st_held s),
       st_capabilities := fmupd i (granted (st_issuer s) g parent i) (st_capabilities s)\<rparr>"

lemma issue_with_id_eq:
  "issue_with_id g parent i (s\<lparr>st_next := nxt\<rparr>) = (i, issued_state g parent i nxt s)"
  by (cases parent) (simp_all add: issue_with_id_def issued_state_def Let_def with_delegable_def
      with_parent_def CapabilityMetadata_new_def granted_def held_of_def)

lemma issue_with_id_same:
  "issue_with_id g parent i s = (i, issued_state g parent i (st_next s) s)"
  using issue_with_id_eq [where s = s and nxt = "st_next s"] by simp

text \<open>The sequence cursor only moves forward; the exhausted cursor \<open>None\<close> is the last one.\<close>

definition cursor_le :: "u64 option \<Rightarrow> u64 option \<Rightarrow> bool" where
  "cursor_le a b \<longleftrightarrow> (case b of None \<Rightarrow> True | Some m \<Rightarrow> (case a of None \<Rightarrow> False | Some n \<Rightarrow> n \<le> m))"

lemma cursor_le_refl [simp]: "cursor_le a a"
  by (simp add: cursor_le_def split: option.splits)

lemma cursor_le_None [simp]: "cursor_le a None"
  by (simp add: cursor_le_def)

lemma cursor_le_trans: "cursor_le a b \<Longrightarrow> cursor_le b c \<Longrightarrow> cursor_le a c"
  by (auto simp: cursor_le_def split: option.splits)

text \<open>What the checks of an issuing operation establish about the grant.\<close>

definition within_parent :: "CapabilityState \<Rightarrow> CapabilityGrant \<Rightarrow> CapId \<Rightarrow> bool" where
  "within_parent s g p \<longleftrightarrow>
     delegation_depth s p < MAX_DELEGATION_DEPTH \<and>
     (case fmlookup (st_capabilities s) p of
        None \<Rightarrow> False
      | Some c \<Rightarrow> cm_delegable (c_metadata c) \<and>
          TimeWindow_is_subset_of (g_validity g) (c_validity c) \<and>
          authority_body_below (g_authority g) (c_authority c))"

inductive cap_change :: "CapabilityState \<Rightarrow> CapabilityState \<Rightarrow> bool" for s where
  ch_same: "cap_change s s"
| ch_exhaust: "cap_change s (s\<lparr>st_next := None\<rparr>)"
| ch_subject:
    "sb_id x |\<notin>| fmdom (st_subjects s) \<Longrightarrow> fm_len (st_subjects s) < MAX_SUBJECTS_PER_SESSION \<Longrightarrow>
     (\<And>p. sb_parent x = Some p \<Longrightarrow> p |\<in>| fmdom (st_subjects s)) \<Longrightarrow>
     cap_change s (s\<lparr>st_held := fmupd (sb_id x) {||} (st_held s),
                     st_statuses := fmupd (sb_id x) Running (st_statuses s),
                     st_subjects := fmupd (sb_id x) x (st_subjects s)\<rparr>)"
| ch_open:
    "fmlookup (st_statuses s) (oh_subject h) = Some Running \<Longrightarrow> oh_id h |\<notin>| fmdom (st_owners s) \<Longrightarrow>
     fm_len (st_owners s) < MAX_HANDLES_PER_SESSION \<Longrightarrow>
     cap_change s (s\<lparr>st_owners := fmupd (oh_id h) (oh_subject h) (st_owners s),
                     st_open := fmupd (oh_id h) h (st_open s)\<rparr>)"
| ch_close: "cap_change s (s\<lparr>st_open := fmdrop h (st_open s)\<rparr>)"
| ch_issue:
    "validate_envelope s g = Ok () \<Longrightarrow> i |\<notin>| st_issued s \<Longrightarrow>
     fcard (st_issued s) < MAX_CAPABILITIES_PER_SESSION \<Longrightarrow> cursor_le (st_next s) nxt \<Longrightarrow>
     (\<And>p. parent = Some p \<Longrightarrow> within_parent s g p) \<Longrightarrow>
     cap_change s (issued_state g parent i nxt s)"
| ch_revoke:
    "i |\<in>| fmdom (st_capabilities s) \<Longrightarrow> i |\<notin>| st_revoked s \<Longrightarrow>
     AuthorizationEpoch_checked_next (st_epoch s) = Some ep \<Longrightarrow>
     cap_change s (s\<lparr>st_revoked := finsert i (st_revoked s), st_epoch := ep\<rparr>)"
| ch_begin:
    "fmlookup (st_statuses s) x = Some Running \<Longrightarrow>
     AuthorizationEpoch_checked_next (st_epoch s) = Some ep \<Longrightarrow>
     cap_change s (s\<lparr>st_revoked := st_revoked s |\<union>| held_of s x,
                     st_statuses := fmupd x Closing (st_statuses s), st_epoch := ep\<rparr>)"
| ch_finish:
    "fmlookup (st_statuses s) x = Some Closing \<Longrightarrow> subject_open_handle_count s x = 0 \<Longrightarrow>
     cap_change s (s\<lparr>st_statuses := fmupd x Closed (st_statuses s)\<rparr>)"

section \<open>Every operation makes an elementary change\<close>

lemma allocate_loop_cases:
  "allocate_loop n s = (r, t) \<Longrightarrow>
     (\<exists>m. n \<le> m \<and> r = Ok (sequential_id (st_issuer s) m) \<and> sequential_id (st_issuer s) m |\<notin>| st_issued s \<and>
        t = s\<lparr>st_next := checked_add m 1\<rparr>) \<or>
     (r = Err CapabilityIdExhausted \<and> t = s\<lparr>st_next := None\<rparr>)"
proof (induction n s rule: allocate_loop.induct)
  case (1 n s)
  show ?case
  proof (cases "sequential_id (st_issuer s) n |\<in>| st_issued s")
    case False
    with 1(2) show ?thesis by (auto simp: allocate_loop.simps [of n])
  next
    case True
    show ?thesis
    proof (cases "checked_add n 1")
      case None
      with 1(2) True show ?thesis by (simp add: allocate_loop.simps [of n])
    next
      case (Some n')
      with 1(2) True have "allocate_loop n' s = (r, t)" by (simp add: allocate_loop.simps [of n])
      with 1(1) [of n'] True Some have ih: "(\<exists>m. n' \<le> m \<and> r = Ok (sequential_id (st_issuer s) m) \<and>
          sequential_id (st_issuer s) m |\<notin>| st_issued s \<and> t = s\<lparr>st_next := checked_add m 1\<rparr>) \<or>
          (r = Err CapabilityIdExhausted \<and> t = s\<lparr>st_next := None\<rparr>)" by simp
      have "n \<le> n'" using checked_succ_less [OF Some] by simp
      with ih show ?thesis using order_trans [of n n'] by blast
    qed
  qed
qed

lemma allocate_cases:
  assumes "allocate_capability_id s = (r, t)"
  obtains (fresh) i nxt where "r = Ok i" "i |\<notin>| st_issued s" "t = s\<lparr>st_next := nxt\<rparr>"
      "cursor_le (st_next s) nxt"
  | (exhausted) "r = Err CapabilityIdExhausted" "t = s \<or> t = s\<lparr>st_next := None\<rparr>"
proof (cases "st_next s")
  case None
  with assms exhausted show thesis by (simp add: allocate_capability_id_def)
next
  case (Some n)
  with assms have "allocate_loop n s = (r, t)" by (simp add: allocate_capability_id_def)
  from allocate_loop_cases [OF this] show thesis
  proof (elim disjE exE conjE)
    fix m assume m: "n \<le> m" "r = Ok (sequential_id (st_issuer s) m)"
      "sequential_id (st_issuer s) m |\<notin>| st_issued s" "t = s\<lparr>st_next := checked_add m 1\<rparr>"
    have "cursor_le (Some n) (checked_add m 1)"
      using m(1) checked_succ_less [of m] by (auto simp: cursor_le_def split: option.splits)
    with m Some fresh show thesis by simp
  qed (use exhausted in blast)
qed

lemma capacity_Ok:
  "ensure_capability_capacity s = Ok u \<longleftrightarrow> fcard (st_issued s) < MAX_CAPABILITIES_PER_SESSION"
  by (auto simp: ensure_capability_capacity_def)

lemma issue_change:
  assumes "validate_envelope s g = Ok ()" "\<And>p. parent = Some p \<Longrightarrow> within_parent s g p"
  shows "cap_change s (snd (issue g parent s))"
proof (cases "fcard (st_issued s) < MAX_CAPABILITIES_PER_SESSION")
  case False
  then show ?thesis by (simp add: issue_def ensure_capability_capacity_def ch_same)
next
  case True
  obtain r t where a: "allocate_capability_id s = (r, t)" by fastforce
  then show ?thesis
  proof (cases rule: allocate_cases)
    case (fresh i nxt)
    then have "snd (issue g parent s) = issued_state g parent i nxt s"
      using True a by (simp add: issue_def ensure_capability_capacity_def issue_with_id_eq)
    with ch_issue [OF assms(1) fresh(2) True fresh(4)] assms(2) show ?thesis by simp
  next
    case exhausted
    then show ?thesis
      using True a by (auto simp: issue_def ensure_capability_capacity_def intro: ch_same ch_exhaust)
  qed
qed

lemma ensure_running_Ok:
  "ensure_subject_running s x = Ok u \<longleftrightarrow> fmlookup (st_statuses s) x = Some Running"
  by (auto simp: ensure_subject_running_def split: option.splits SubjectStatus.splits)

lemma validate_envelope_Ok:
  "validate_envelope s g = Ok u \<longleftrightarrow>
     fmlookup (st_statuses s) (g_subject g) = Some Running \<and>
     (\<exists>x. fmlookup (st_subjects s) (g_subject g) = Some x \<and>
        StaticAuthorityEnvelope_contains (sb_envelope x) (g_validity g) (g_authority g))"
  using ensure_running_Ok [of s "g_subject g" "()"]
  by (auto simp: validate_envelope_def split: sum.splits option.splits)

lemma next_epoch_Ok:
  "next_authorization_epoch s = Ok ep \<longleftrightarrow> AuthorizationEpoch_checked_next (st_epoch s) = Some ep"
  by (auto simp: next_authorization_epoch_def split: option.splits)

lemma issue_root_change: "cap_change s (snd (issue_root g s))"
  by (auto simp: issue_root_def intro: ch_same issue_change split: sum.split)

lemma issue_root_with_id_change: "cap_change s (snd (issue_root_with_id i g s))"
  by (auto simp: issue_root_with_id_def issue_with_id_same capacity_Ok
      intro: ch_same ch_issue split: sum.split)

lemma derive_change: "cap_change s (snd (derive x p g now s))"
  by (auto simp: derive_def within_parent_def not_le
      intro!: ch_same issue_change split: sum.split option.split)

lemma register_subject_change: "cap_change s (snd (register_subject x s))"
  by (auto simp: register_subject_def not_le
      intro!: ch_same ch_subject split: sum.split option.splits if_splits)

lemma register_open_handle_change: "cap_change s (snd (register_open_handle h s))"
  by (auto simp: register_open_handle_def not_le ensure_running_Ok
      intro!: ch_same ch_open split: sum.split)

lemma close_handle_change: "cap_change s (snd (close_handle x h s))"
  by (auto simp: close_handle_def intro: ch_same ch_close split: option.split)

lemma revoke_existing_change:
  "i |\<in>| fmdom (st_capabilities s) \<Longrightarrow> cap_change s (snd (revoke_existing i s))"
  by (auto simp: revoke_existing_def next_epoch_Ok intro!: ch_same ch_revoke split: sum.split)

lemma revoke_change: "cap_change s (snd (revoke i s))"
  by (simp add: revoke_def ch_same revoke_existing_change)

lemma revoke_held_by_change: "cap_change s (snd (revoke_held_by x i s))"
  by (simp add: revoke_held_by_def ch_same revoke_existing_change)

lemma begin_subject_close_change: "cap_change s (snd (begin_subject_close x s))"
proof -
  have held: "(case fmlookup (st_held s) x of None \<Rightarrow> st_revoked s | Some cs \<Rightarrow> st_revoked s |\<union>| cs) =
      st_revoked s |\<union>| held_of s x"
    by (simp add: held_of_def split: option.split)
  show ?thesis
    unfolding begin_subject_close_def held
    by (auto simp: next_epoch_Ok intro!: ch_same ch_begin
        split: sum.split option.split SubjectStatus.split)
qed

lemma finish_subject_close_change: "cap_change s (snd (finish_subject_close x s))"
  by (auto simp: finish_subject_close_def intro!: ch_same ch_finish
      split: option.split SubjectStatus.split)

lemmas op_changes =
  issue_root_change issue_root_with_id_change derive_change register_subject_change
  register_open_handle_change close_handle_change revoke_change revoke_held_by_change
  begin_subject_close_change finish_subject_close_change

lemma snd_reply [simp]: "snd (reply f r) = snd r"
  by (simp add: reply_def)

lemma cap_step_change: "cap_change s (snd (cap_step x s))"
  by (cases x) (simp_all add: op_changes)

end
