(* ===== verification/Capability_Invariant.thy ===== *)
theory Capability_Invariant
  imports Capability_Lineage
begin

text \<open>
  The invariant of the capability state machine, its preservation by every operation, and the
  order in which states evolve.  Both feed the \<open>machine\<close> interpretation on \<open>cap_step\<close>.
\<close>

section \<open>The invariant\<close>

text \<open>The maps of the state agree on their keys.\<close>

definition wf_keys :: "CapabilityState \<Rightarrow> bool" where
  "wf_keys s \<longleftrightarrow>
     fmdom (st_statuses s) = fmdom (st_subjects s) \<and> fmdom (st_held s) = fmdom (st_subjects s) \<and>
     fmdom (st_capabilities s) = st_issued s \<and> st_revoked s |\<subseteq>| st_issued s"

definition wf_subjects :: "CapabilityState \<Rightarrow> bool" where
  "wf_subjects s \<longleftrightarrow>
     (\<forall>x r. fmlookup (st_subjects s) x = Some r \<longrightarrow>
        sb_id r = x \<and> (\<forall>p. sb_parent r = Some p \<longrightarrow> p |\<in>| fmdom (st_subjects s)))"

text \<open>
  A capability carries its own identity and the issuer of the session, is held by its subject,
  and lies inside the static envelope of that subject.
\<close>

definition in_envelope :: "CapabilityState \<Rightarrow> Capability \<Rightarrow> bool" where
  "in_envelope s c \<longleftrightarrow>
     (\<exists>x. fmlookup (st_subjects s) (cm_subject (c_metadata c)) = Some x \<and>
        StaticAuthorityEnvelope_contains (sb_envelope x) (c_validity c) (c_authority c))"

definition wf_caps :: "CapabilityState \<Rightarrow> bool" where
  "wf_caps s \<longleftrightarrow>
     (\<forall>i c. fmlookup (st_capabilities s) i = Some c \<longrightarrow>
        cm_id (c_metadata c) = i \<and> cm_issuer (c_metadata c) = st_issuer s \<and>
        i |\<in>| held_of s (cm_subject (c_metadata c)) \<and> in_envelope s c)"

definition wf_held :: "CapabilityState \<Rightarrow> bool" where
  "wf_held s \<longleftrightarrow>
     (\<forall>x i. i |\<in>| held_of s x \<longrightarrow>
        (\<exists>c. fmlookup (st_capabilities s) i = Some c \<and> cm_subject (c_metadata c) = x))"

definition wf_links :: "CapabilityState \<Rightarrow> bool" where
  "wf_links s \<longleftrightarrow>
     (\<forall>i c p. fmlookup (st_capabilities s) i = Some c \<longrightarrow> cm_parent (c_metadata c) = Some p \<longrightarrow>
        (\<exists>d. fmlookup (st_capabilities s) p = Some d \<and> cm_delegable (c_metadata d) \<and> weaker_than c d))"

definition wf_depth :: "CapabilityState \<Rightarrow> bool" where
  "wf_depth s \<longleftrightarrow>
     (\<forall>i c. fmlookup (st_capabilities s) i = Some c \<longrightarrow>
        (\<exists>xs. lineage (st_capabilities s) i xs \<and> length xs \<le> MAX_DELEGATION_DEPTH))"

text \<open>A subject that is not running holds revoked capabilities only.\<close>

definition wf_status :: "CapabilityState \<Rightarrow> bool" where
  "wf_status s \<longleftrightarrow>
     (\<forall>x. fmlookup (st_statuses s) x \<noteq> Some Running \<longrightarrow> held_of s x |\<subseteq>| st_revoked s)"

text \<open>An open handle belongs to its recorded owner, who is not closed.\<close>

definition wf_handles :: "CapabilityState \<Rightarrow> bool" where
  "wf_handles s \<longleftrightarrow>
     (\<forall>h r. fmlookup (st_open s) h = Some r \<longrightarrow>
        oh_id r = h \<and> fmlookup (st_owners s) h = Some (oh_subject r) \<and>
        fmlookup (st_statuses s) (oh_subject r) \<in> {Some Running, Some Closing})"

definition wf_sizes :: "CapabilityState \<Rightarrow> bool" where
  "wf_sizes s \<longleftrightarrow>
     fm_len (st_subjects s) \<le> MAX_SUBJECTS_PER_SESSION \<and>
     fcard (st_issued s) \<le> MAX_CAPABILITIES_PER_SESSION \<and>
     fm_len (st_owners s) \<le> MAX_HANDLES_PER_SESSION"

definition wf_state :: "CapabilityState \<Rightarrow> bool" where
  "wf_state s \<longleftrightarrow>
     wf_keys s \<and> wf_subjects s \<and> wf_caps s \<and> wf_held s \<and> wf_links s \<and> wf_depth s \<and>
     wf_status s \<and> wf_handles s \<and> wf_sizes s"

lemma held_of_issued [simp]:
  "held_of (issued_state g parent i nxt s) y =
     (if y = g_subject g then finsert i (held_of s y) else held_of s y)"
  by (simp add: held_of_def issued_state_def)

lemma issued_state_sel [simp]:
  "st_issuer (issued_state g parent i nxt s) = st_issuer s"
  "st_next (issued_state g parent i nxt s) = nxt"
  "st_subjects (issued_state g parent i nxt s) = st_subjects s"
  "st_statuses (issued_state g parent i nxt s) = st_statuses s"
  "st_capabilities (issued_state g parent i nxt s) =
     fmupd i (granted (st_issuer s) g parent i) (st_capabilities s)"
  "st_revoked (issued_state g parent i nxt s) = st_revoked s"
  "st_issued (issued_state g parent i nxt s) = finsert i (st_issued s)"
  "st_epoch (issued_state g parent i nxt s) = st_epoch s"
  "st_open (issued_state g parent i nxt s) = st_open s"
  "st_owners (issued_state g parent i nxt s) = st_owners s"
  "fmdom (st_held (issued_state g parent i nxt s)) = finsert (g_subject g) (fmdom (st_held s))"
  by (simp_all add: issued_state_def)

lemma held_of_new: "x |\<notin>| fmdom (st_held s) \<Longrightarrow> held_of s x = {||}"
  by (simp add: held_of_def fmdom_notD)

section \<open>Preservation, part by part\<close>

lemma wf_keys_change:
  assumes "cap_change s t" "wf_keys s" "wf_held s"
  shows "wf_keys t"
  using assms(1)
proof cases
  case (ch_issue g i nxt parent)
  then have "g_subject g |\<in>| fmdom (st_subjects s)"
    by (auto simp: validate_envelope_Ok intro: fmdomI)
  with ch_issue(1) assms show ?thesis by (auto simp: wf_keys_def)
next
  case (ch_begin x ep)
  have "held_of s x |\<subseteq>| st_issued s"
  proof
    fix i assume "i |\<in>| held_of s x"
    with assms(3) show "i |\<in>| st_issued s"
      using assms(2) unfolding wf_held_def wf_keys_def by (metis fmdomI)
  qed
  with ch_begin assms show ?thesis by (auto simp: wf_keys_def intro: fmdomI)
next
  case (ch_finish x)
  with assms show ?thesis by (auto simp: wf_keys_def intro: fmdomI)
qed (use assms in \<open>auto simp: wf_keys_def\<close>)

lemma wf_subjects_change: "cap_change s t \<Longrightarrow> wf_subjects s \<Longrightarrow> wf_subjects t"
  by (induction rule: cap_change.induct) (auto simp: wf_subjects_def)

text \<open>Updates of other fields leave the held sets alone.\<close>

lemma held_of_frame [simp]:
  "held_of (s\<lparr>st_next := n\<rparr>) x = held_of s x"
  "held_of (s\<lparr>st_subjects := v\<rparr>) x = held_of s x"
  "held_of (s\<lparr>st_statuses := u\<rparr>) x = held_of s x"
  "held_of (s\<lparr>st_capabilities := cs\<rparr>) x = held_of s x"
  "held_of (s\<lparr>st_revoked := r\<rparr>) x = held_of s x"
  "held_of (s\<lparr>st_issued := r\<rparr>) x = held_of s x"
  "held_of (s\<lparr>st_epoch := e\<rparr>) x = held_of s x"
  "held_of (s\<lparr>st_open := a\<rparr>) x = held_of s x"
  "held_of (s\<lparr>st_owners := b\<rparr>) x = held_of s x"
  "held_of (s\<lparr>st_held := fmupd y hs (st_held s)\<rparr>) x = (if x = y then hs else held_of s x)"
  "held_of (s\<lparr>st_subjects := v, st_held := fmupd y hs (st_held s)\<rparr>) x =
     (if x = y then hs else held_of s x)"
  "held_of (s\<lparr>st_subjects := v, st_statuses := u, st_held := fmupd y hs (st_held s)\<rparr>) x =
     (if x = y then hs else held_of s x)"
  by (simp_all add: held_of_def)

lemma in_envelope_mono:
  "in_envelope s c \<Longrightarrow>
     (\<And>x r. fmlookup (st_subjects s) x = Some r \<Longrightarrow> fmlookup (st_subjects t) x = Some r) \<Longrightarrow>
     in_envelope t c"
  unfolding in_envelope_def by blast

lemma in_envelope_frame:
  "st_subjects t = st_subjects s \<Longrightarrow> in_envelope t c \<longleftrightarrow> in_envelope s c"
  by (simp add: in_envelope_def)

lemma wf_caps_change:
  assumes "cap_change s t" "wf_caps s"
  shows "wf_caps t"
  using assms(1)
proof cases
  case (ch_subject x)
  show ?thesis
    unfolding wf_caps_def
  proof (intro allI impI)
    fix i c assume "fmlookup (st_capabilities t) i = Some c"
    with ch_subject assms(2) have c: "cm_id (c_metadata c) = i" "cm_issuer (c_metadata c) = st_issuer s"
      "i |\<in>| held_of s (cm_subject (c_metadata c))" "in_envelope s c"
      by (auto simp: wf_caps_def)
    from c(4) ch_subject(2) have "cm_subject (c_metadata c) \<noteq> sb_id x"
      by (auto simp: in_envelope_def intro: fmdomI)
    moreover from c(4) have "in_envelope t c"
      by (rule in_envelope_mono) (use ch_subject in \<open>auto dest: fmdom_notD\<close>)
    ultimately show "cm_id (c_metadata c) = i \<and> cm_issuer (c_metadata c) = st_issuer t \<and>
        i |\<in>| held_of t (cm_subject (c_metadata c)) \<and> in_envelope t c"
      using c ch_subject by simp
  qed
next
  case (ch_issue g i nxt parent)
  then have "in_envelope s (granted (st_issuer s) g parent i)"
    by (auto simp: in_envelope_def validate_envelope_Ok)
  with ch_issue(1) assms(2) show ?thesis
    by (auto simp: wf_caps_def in_envelope_frame [of "issued_state g parent i nxt s" s]) metis
qed (use assms in \<open>auto simp: wf_caps_def in_envelope_def\<close>)

lemma wf_held_change:
  assumes "cap_change s t" "wf_held s" "wf_keys s"
  shows "wf_held t"
  using assms(1)
proof cases
  case (ch_issue g i nxt parent)
  with assms(3) have fresh: "fmlookup (st_capabilities s) i = None"
    by (simp add: wf_keys_def fmdom_notD)
  show ?thesis
    unfolding wf_held_def ch_issue(1) using assms(2) fresh
    by (auto simp: wf_held_def) force+
qed (use assms in \<open>auto simp: wf_held_def\<close>)

lemma wf_links_change:
  assumes "cap_change s t" "wf_links s" "wf_keys s"
  shows "wf_links t"
  using assms(1)
proof cases
  case (ch_issue g i nxt parent)
  with assms(3) have fresh: "fmlookup (st_capabilities s) i = None"
    by (simp add: wf_keys_def fmdom_notD)
  show ?thesis
    unfolding wf_links_def
  proof (intro allI impI)
    fix j c p
    assume j: "fmlookup (st_capabilities t) j = Some c" "cm_parent (c_metadata c) = Some p"
    have "\<exists>d. fmlookup (st_capabilities s) p = Some d \<and> cm_delegable (c_metadata d) \<and> weaker_than c d"
    proof (cases "j = i")
      case True
      with j ch_issue have "within_parent s g p" "c = granted (st_issuer s) g parent i" by auto
      then show ?thesis by (auto simp: within_parent_def weaker_than_def split: option.splits)
    next
      case False
      with j ch_issue assms(2) show ?thesis by (simp add: wf_links_def)
    qed
    with fresh ch_issue(1) show "\<exists>d. fmlookup (st_capabilities t) p = Some d \<and>
        cm_delegable (c_metadata d) \<and> weaker_than c d"
      by (auto intro: exI)
  qed
qed (use assms in \<open>auto simp: wf_links_def\<close>)

lemma wf_depth_change:
  assumes "cap_change s t" "wf_depth s" "wf_keys s"
  shows "wf_depth t"
  using assms(1)
proof cases
  case (ch_issue g i nxt parent)
  with assms(3) have fresh: "fmlookup (st_capabilities s) i = None"
    by (simp add: wf_keys_def fmdom_notD)
  then have keep: "fmlookup (st_capabilities t) j = Some c" if "fmlookup (st_capabilities s) j = Some c" for j c
    using that ch_issue(1) by auto
  have new: "fmlookup (st_capabilities t) i = Some (granted (st_issuer s) g parent i)"
    using ch_issue(1) by simp
  have "\<exists>xs. lineage (st_capabilities t) i xs \<and> length xs \<le> MAX_DELEGATION_DEPTH"
  proof (cases parent)
    case None
    with new show ?thesis
      by (auto simp: MAX_DELEGATION_DEPTH_def intro!: exI [of _ "[i]"] lineage.lineage_root)
  next
    case (Some p)
    with ch_issue have "within_parent s g p" by simp
    then obtain c where depth: "delegation_depth s p < MAX_DELEGATION_DEPTH"
      and c: "fmlookup (st_capabilities s) p = Some c"
      by (auto simp: within_parent_def split: option.splits)
    from assms(2) c obtain xs where xs: "lineage (st_capabilities s) p xs"
      "length xs \<le> MAX_DELEGATION_DEPTH"
      by (auto simp: wf_depth_def)
    with depth have "length (i # xs) \<le> MAX_DELEGATION_DEPTH"
      by (simp add: delegation_depth_lineage)
    moreover have "lineage (st_capabilities t) i (i # xs)"
      using new Some lineage_mono [OF xs(1) keep] by (auto intro: lineage.lineage_step)
    ultimately show ?thesis by blast
  qed
  moreover have "\<exists>xs. lineage (st_capabilities t) j xs \<and> length xs \<le> MAX_DELEGATION_DEPTH"
    if "fmlookup (st_capabilities s) j = Some c" for j c
    using assms(2) that lineage_mono [OF _ keep] unfolding wf_depth_def by blast
  ultimately show ?thesis
    using ch_issue(1) unfolding wf_depth_def by auto
qed (use assms in \<open>auto simp: wf_depth_def\<close>)

lemma wf_status_change:
  assumes "cap_change s t" "wf_status s"
  shows "wf_status t"
  using assms(1)
proof cases
  case (ch_finish x)
  then have "held_of s x |\<subseteq>| st_revoked s" using assms(2) by (auto simp: wf_status_def)
  with ch_finish(1) assms(2) show ?thesis by (auto simp: wf_status_def)
qed (use assms in \<open>fastforce simp: wf_status_def validate_envelope_Ok\<close>)+

lemma subject_handle_count_zero:
  "subject_open_handle_count s x = 0 \<longleftrightarrow> (\<forall>h r. fmlookup (st_open s) h = Some r \<longrightarrow> oh_subject r \<noteq> x)"
proof -
  have "subject_open_handle_count s x = 0 \<longleftrightarrow>
    (\<forall>h. h |\<in>| fmdom (st_open s) \<longrightarrow> map_option oh_subject (fmlookup (st_open s) h) \<noteq> Some x)"
    unfolding subject_open_handle_count_def fcard_0_eq fset_eq_iff ffmember_filter by blast
  then show ?thesis by (auto simp: fmlookup_dom_iff)
qed

lemma wf_handles_change:
  assumes "cap_change s t" "wf_handles s"
  shows "wf_handles t"
  using assms(1)
proof cases
  case (ch_finish x)
  then show ?thesis
    using assms(2) by (auto simp: wf_handles_def subject_handle_count_zero)
next
  case (ch_open h)
  then show ?thesis
    using assms(2) by (auto simp: wf_handles_def dest: fmdom_notD)
qed (use assms in \<open>auto simp: wf_handles_def split: if_splits\<close>)

lemma wf_sizes_change: "cap_change s t \<Longrightarrow> wf_sizes s \<Longrightarrow> wf_sizes t"
  by (induction rule: cap_change.induct)
    (auto simp: wf_sizes_def fcard_finsert_if)

lemma wf_state_change: "cap_change s t \<Longrightarrow> wf_state s \<Longrightarrow> wf_state t"
  unfolding wf_state_def
  by (intro conjI; elim conjE)
    (blast intro: wf_keys_change wf_subjects_change wf_caps_change wf_held_change wf_links_change
      wf_depth_change wf_status_change wf_handles_change wf_sizes_change)+

lemma wf_state_new: "wf_state (CapabilityState_new j)"
  by (simp add: wf_state_def wf_keys_def wf_subjects_def wf_caps_def wf_held_def wf_links_def
      wf_depth_def wf_status_def wf_handles_def wf_sizes_def CapabilityState_new_def held_of_def
      fcard_fempty)

section \<open>The order of states\<close>

fun status_rank :: "SubjectStatus \<Rightarrow> nat" where
  "status_rank Running = 0"
| "status_rank Closing = 1"
| "status_rank Closed = 2"

definition statuses_advance :: "CapabilityState \<Rightarrow> CapabilityState \<Rightarrow> bool" where
  "statuses_advance s t \<longleftrightarrow>
     (\<forall>x a. fmlookup (st_statuses s) x = Some a \<longrightarrow>
        (\<exists>b. fmlookup (st_statuses t) x = Some b \<and> status_rank a \<le> status_rank b))"

definition handles_stay_closed :: "CapabilityState \<Rightarrow> CapabilityState \<Rightarrow> bool" where
  "handles_stay_closed s t \<longleftrightarrow>
     (\<forall>h. h |\<in>| fmdom (st_owners s) \<longrightarrow> h |\<notin>| fmdom (st_open s) \<longrightarrow> h |\<notin>| fmdom (st_open t))"

text \<open>Between two states of the same epoch nothing was revoked and no subject left \<open>Running\<close>.\<close>

definition epoch_covers :: "CapabilityState \<Rightarrow> CapabilityState \<Rightarrow> bool" where
  "epoch_covers s t \<longleftrightarrow>
     st_epoch s \<le> st_epoch t \<and>
     (st_epoch s = st_epoch t \<longrightarrow>
        st_revoked s = st_revoked t \<and>
        (\<forall>x. fmlookup (st_statuses s) x = Some Running \<longrightarrow> fmlookup (st_statuses t) x = Some Running))"

definition state_later :: "CapabilityState \<Rightarrow> CapabilityState \<Rightarrow> bool" where
  "state_later s t \<longleftrightarrow>
     st_issuer t = st_issuer s \<and> cursor_le (st_next s) (st_next t) \<and>
     extends (st_subjects s) (st_subjects t) \<and> extends (st_capabilities s) (st_capabilities t) \<and>
     extends (st_owners s) (st_owners t) \<and> (\<forall>x. held_of s x |\<subseteq>| held_of t x) \<and>
     st_revoked s |\<subseteq>| st_revoked t \<and> st_issued s |\<subseteq>| st_issued t \<and>
     statuses_advance s t \<and> handles_stay_closed s t \<and> epoch_covers s t"

lemma epoch_next_less:
  "AuthorizationEpoch_checked_next e = Some f \<Longrightarrow> e < f"
  using checked_succ_less [of "epoch_u64 e"]
  by (auto simp: AuthorizationEpoch_checked_next_def less_AuthorizationEpoch_def split: option.splits)

lemma state_later_refl: "state_later s s"
  by (auto simp: state_later_def statuses_advance_def handles_stay_closed_def epoch_covers_def)

lemma statuses_advance_trans:
  "statuses_advance s t \<Longrightarrow> statuses_advance t u \<Longrightarrow> statuses_advance s u"
  unfolding statuses_advance_def by (meson order_trans)

lemma epoch_covers_trans: "epoch_covers s t \<Longrightarrow> epoch_covers t u \<Longrightarrow> epoch_covers s u"
  unfolding epoch_covers_def by (metis order_antisym order_trans)

lemma handles_stay_closed_trans:
  "handles_stay_closed s t \<Longrightarrow> handles_stay_closed t u \<Longrightarrow> extends (st_owners s) (st_owners t) \<Longrightarrow>
     handles_stay_closed s u"
  unfolding handles_stay_closed_def by (metis extends_lookup fmlookup_dom_iff)

lemma state_later_trans:
  assumes "state_later s t" "state_later t u"
  shows "state_later s u"
proof -
  from assms have "statuses_advance s u" "epoch_covers s u" "handles_stay_closed s u"
    unfolding state_later_def
    by (blast intro: statuses_advance_trans epoch_covers_trans handles_stay_closed_trans)+
  with assms show ?thesis
    unfolding state_later_def
    by (auto intro: cursor_le_trans extends_trans)
qed

lemma state_later_change:
  assumes "cap_change s t" "wf_keys s"
  shows "state_later s t"
  using assms(1)
proof cases
  case (ch_subject x)
  with assms(2) have "sb_id x |\<notin>| fmdom (st_statuses s)" "held_of s (sb_id x) = {||}"
    using held_of_new [of "sb_id x" s] by (simp_all add: wf_keys_def)
  with ch_subject show ?thesis
    by (auto simp: state_later_def statuses_advance_def handles_stay_closed_def epoch_covers_def
        extends_fresh dest: fmdom_notD)
next
  case (ch_issue g i nxt parent)
  with assms(2) have "i |\<notin>| fmdom (st_capabilities s)" by (simp add: wf_keys_def)
  with ch_issue show ?thesis
    by (auto simp: state_later_def statuses_advance_def handles_stay_closed_def epoch_covers_def
        extends_fresh)
next
  case (ch_revoke i ep)
  with epoch_next_less [OF ch_revoke(4)] show ?thesis
    by (auto simp: state_later_def statuses_advance_def handles_stay_closed_def epoch_covers_def)
next
  case (ch_begin x ep)
  with epoch_next_less [OF ch_begin(3)] show ?thesis
    by (auto simp: state_later_def statuses_advance_def handles_stay_closed_def epoch_covers_def)
next
  case (ch_open h)
  then show ?thesis
    by (auto simp: state_later_def statuses_advance_def handles_stay_closed_def epoch_covers_def
        extends_fresh)
qed (use state_later_refl in \<open>auto simp: state_later_def statuses_advance_def
      handles_stay_closed_def epoch_covers_def\<close>)

interpretation cap_machine: machine cap_step wf_state state_later
proof
  show "wf_state (snd (cap_step x s))" if "wf_state s" for x s
    using wf_state_change [OF cap_step_change that] .
  show "state_later s (snd (cap_step x s))" if "wf_state s" for x s
    using that by (intro state_later_change [OF cap_step_change]) (simp add: wf_state_def)
qed (rule state_later_refl, rule state_later_trans)

definition reachable :: "CapabilityState \<Rightarrow> bool" where
  "reachable s \<longleftrightarrow> (\<exists>j xs. s = run cap_step xs (CapabilityState_new j))"

lemma reachable_wf: "reachable s \<Longrightarrow> wf_state s"
  by (auto simp: reachable_def intro: cap_machine.run_good wf_state_new)

end
