(* ===== verification/Capability_Properties.thy ===== *)
theory Capability_Properties
  imports Capability_Invariant
begin

text \<open>
  What the capability state machine guarantees: attenuation along lineages, permanent and
  transitive revocation, unique identities, sound caching by authorization epoch, and the
  behaviour of issuing and of errors.
\<close>

section \<open>Lineages attenuate\<close>

abbreviation cap_of :: "CapabilityState \<Rightarrow> CapId \<Rightarrow> Capability" where
  "cap_of s a \<equiv> the (fmlookup (st_capabilities s) a)"

lemma lineage_chain:
  "lineage (st_capabilities s) i xs \<Longrightarrow> wf_links s \<Longrightarrow> successively weaker_than (map (cap_of s) xs)"
proof (induction rule: lineage.induct)
  case (lineage_step i c p xs)
  obtain ys where xs: "xs = p # ys" using lineage_hd [OF lineage_step.hyps(3)] by blast
  from lineage_step have "weaker_than (cap_of s i) (cap_of s p)" by (fastforce simp: wf_links_def)
  with lineage_step xs show ?case by simp
qed simp

lemma lineage_matches:
  assumes "lineage (st_capabilities s) i xs" "wf_links s" "capability_matches (cap_of s i) r" "a \<in> set xs"
  shows "capability_matches (cap_of s a) r"
proof -
  obtain ys where xs: "xs = i # ys" using lineage_hd [OF assms(1)] by blast
  from lineage_chain [OF assms(1,2)] have "successively weaker_than (cap_of s i # map (cap_of s) ys)"
    by (simp add: xs)
  from cap_family.chain_sound [OF this assms(3), of "cap_of s a"] assms(4) show ?thesis
    by (auto simp: xs)
qed

lemma envelope_matches:
  assumes "StaticAuthorityEnvelope_contains e w a" "TimeWindow_contains w t" "authority_matches a q"
  shows "TimeWindow_contains (env_validity e) t \<and> authority_matches (env_authority e) q"
  using assms window_subset_sound body_family.family_sound
  by (auto simp: StaticAuthorityEnvelope_contains_def)

lemma authorizes_unfold:
  "authorizes s x i r \<longleftrightarrow>
     fmlookup (st_statuses s) x = Some Running \<and>
     (\<exists>c. fmlookup (st_capabilities s) i = Some c \<and> cm_subject (c_metadata c) = x \<and>
        i |\<in>| held_of s x \<and> is_effectively_active s i (cr_time r) \<and> capability_matches c r)"
  by (auto simp: authorizes_def active_capability_def is_held_by_held_of split: option.splits if_splits)

lemma authorizes_lineage:
  assumes "authorizes s x i r" "wf_links s"
  obtains xs where "lineage (st_capabilities s) i xs"
    "\<And>a. a \<in> set xs \<Longrightarrow> a |\<notin>| st_revoked s \<and>
       (\<exists>c. fmlookup (st_capabilities s) a = Some c \<and> capability_matches c r)"
proof -
  from assms(1) obtain xs where xs: "lineage (st_capabilities s) i xs" "\<forall>a \<in> set xs. live_at s (cr_time r) a"
    and m: "capability_matches (cap_of s i) r"
    by (auto simp: authorizes_unfold is_effectively_active_iff)
  show thesis
  proof (rule that [OF xs(1)])
    fix a assume a: "a \<in> set xs"
    with lineage_matches [OF xs(1) assms(2) m a] lineage_dom [OF xs(1) a] xs(2)
    show "a |\<notin>| st_revoked s \<and> (\<exists>c. fmlookup (st_capabilities s) a = Some c \<and> capability_matches c r)"
      by (auto simp: live_at_def)
  qed
qed

lemma revoked_ancestor_blocks:
  assumes "wf_links s" "lineage (st_capabilities s) i xs" "a \<in> set xs" "a |\<in>| st_revoked s"
  shows "\<not> authorizes s x i r"
proof
  assume "authorizes s x i r"
  then obtain ys where "lineage (st_capabilities s) i ys" "\<And>a. a \<in> set ys \<Longrightarrow> a |\<notin>| st_revoked s"
    using assms(1) authorizes_lineage by metis
  with assms lineage_det show False by blast
qed

lemma state_later_lineage:
  "state_later s t \<Longrightarrow> lineage (st_capabilities s) i xs \<Longrightarrow> lineage (st_capabilities t) i xs"
  using lineage_mono by (auto simp: state_later_def extends_def)

lemma revocation_stays:
  assumes "wf_state s" "lineage (st_capabilities s) i xs" "a \<in> set xs" "a |\<in>| st_revoked s"
  shows "\<not> authorizes (run cap_step ops s) x i r"
proof (rule revoked_ancestor_blocks)
  have later: "state_later s (run cap_step ops s)" by (rule cap_machine.run_later [OF assms(1)])
  show "wf_links (run cap_step ops s)"
    using cap_machine.run_good [OF assms(1)] by (simp add: wf_state_def)
  show "lineage (st_capabilities (run cap_step ops s)) i xs"
    by (rule state_later_lineage [OF later assms(2)])
  show "a |\<in>| st_revoked (run cap_step ops s)"
    using later assms(4) by (auto simp: state_later_def)
qed (rule assms(3))

lemma revoke_Ok_revoked: "fst (revoke a s) = Ok v \<Longrightarrow> a |\<in>| st_revoked (snd (revoke a s))"
  by (auto simp: revoke_def revoke_existing_def split: if_splits sum.splits)

lemma revoke_Ok_dom: "fst (revoke a s) = Ok v \<Longrightarrow> a |\<in>| fmdom (st_capabilities s)"
  by (auto simp: revoke_def split: if_splits)

lemma revoke_frame: "st_capabilities (snd (revoke a s)) = st_capabilities s"
  by (auto simp: revoke_def revoke_existing_def split: sum.splits)

lemma not_running_never_authorizes:
  assumes "wf_state s" "fmlookup (st_statuses s) x = Some a" "a \<noteq> Running"
  shows "\<not> authorizes (run cap_step ops s) x i r"
proof -
  have "state_later s (run cap_step ops s)" by (rule cap_machine.run_later [OF assms(1)])
  then obtain b where "fmlookup (st_statuses (run cap_step ops s)) x = Some b" "status_rank a \<le> status_rank b"
    using assms(2) unfolding state_later_def statuses_advance_def by blast
  with assms(3) have "fmlookup (st_statuses (run cap_step ops s)) x \<noteq> Some Running"
    by (cases a; cases b) auto
  then show ?thesis by (simp add: authorizes_unfold)
qed

section \<open>Issuing\<close>

lemma issue_Ok:
  assumes "issue g parent s = (Ok i, t)"
  shows "i |\<notin>| st_issued s \<and> (\<exists>nxt. t = issued_state g parent i nxt s)"
proof -
  obtain r u where a: "allocate_capability_id s = (r, u)" by fastforce
  from a show ?thesis
  proof (cases rule: allocate_cases)
    case (fresh j nxt)
    with assms a show ?thesis by (auto simp: issue_def issue_with_id_eq split: sum.splits)
  next
    case exhausted
    with assms a show ?thesis by (auto simp: issue_def split: sum.splits)
  qed
qed

lemma issue_root_Ok:
  "issue_root g s = (Ok i, t) \<Longrightarrow>
     validate_envelope s g = Ok () \<and> i |\<notin>| st_issued s \<and> (\<exists>nxt. t = issued_state g None i nxt s)"
  by (auto simp: issue_root_def dest: issue_Ok split: sum.splits)

lemma issue_root_with_id_Ok:
  "issue_root_with_id j g s = (Ok i, t) \<Longrightarrow>
     validate_envelope s g = Ok () \<and> i = j \<and> j |\<notin>| st_issued s \<and>
     t = issued_state g None j (st_next s) s"
  by (auto simp: issue_root_with_id_def issue_with_id_same split: sum.splits if_splits)

lemma derive_Ok:
  assumes "derive x p g now s = (Ok i, t)"
  shows "fmlookup (st_statuses s) x = Some Running"
    and "\<exists>c. fmlookup (st_capabilities s) p = Some c \<and> cm_subject (c_metadata c) = x \<and>
        cm_delegable (c_metadata c) \<and> TimeWindow_is_subset_of (g_validity g) (c_validity c) \<and>
        authority_body_below (g_authority g) (c_authority c)"
    and "p |\<in>| held_of s x" "is_effectively_active s p now" "delegation_depth s p < MAX_DELEGATION_DEPTH"
    and "validate_envelope s g = Ok ()" "i |\<notin>| st_issued s" "\<exists>nxt. t = issued_state g (Some p) i nxt s"
  using assms
  by (auto simp: derive_def ensure_running_Ok is_held_by_held_of not_le
      dest: issue_Ok split: sum.splits option.splits if_splits)

fun issued_reply :: "(CapabilityStateError, cap_reply) result \<Rightarrow> CapId option" where
  "issued_reply (Ok (RIssued i)) = Some i"
| "issued_reply _ = None"

definition issued_ids_of :: "(CapabilityStateError, cap_reply) result list \<Rightarrow> CapId list" where
  "issued_ids_of rs = List.map_filter issued_reply rs"

lemma issued_reply_Some: "issued_reply r = Some i \<longleftrightarrow> r = Ok (RIssued i)"
  by (cases r rule: issued_reply.cases) auto

lemma fst_reply_Ok: "fst (reply f r) = Ok v \<longleftrightarrow> (\<exists>w. fst r = Ok w \<and> v = f w)"
  by (cases "fst r") (auto simp: reply_def)

lemma step_issues_fresh:
  assumes "fst (cap_step x s) = Ok (RIssued i)"
  shows "i |\<notin>| st_issued s \<and> i |\<in>| st_issued (snd (cap_step x s))"
proof (cases x)
  case (OpIssueRoot g)
  with assms have "issue_root g s = (Ok i, snd (issue_root g s))"
    by (auto simp: fst_reply_Ok prod_eq_iff)
  from issue_root_Ok [OF this] show ?thesis using OpIssueRoot by auto
next
  case (OpIssueRootWithId j g)
  with assms have "issue_root_with_id j g s = (Ok i, snd (issue_root_with_id j g s))"
    by (auto simp: fst_reply_Ok prod_eq_iff)
  from issue_root_with_id_Ok [OF this] show ?thesis using OpIssueRootWithId by auto
next
  case (OpDerive y p g now)
  with assms have "derive y p g now s = (Ok i, snd (derive y p g now s))"
    by (auto simp: fst_reply_Ok prod_eq_iff)
  from derive_Ok(7,8) [OF this] show ?thesis using OpDerive by auto
qed (use assms in \<open>auto simp: fst_reply_Ok\<close>)

lemma trace_ids_fresh:
  "wf_state s \<Longrightarrow>
     distinct (issued_ids_of (trace cap_step xs s)) \<and>
     (\<forall>i \<in> set (issued_ids_of (trace cap_step xs s)). i |\<notin>| st_issued s)"
proof (induction xs arbitrary: s)
  case Nil
  then show ?case by (simp add: issued_ids_of_def map_filter_simps)
next
  case (Cons x xs)
  let ?t = "snd (cap_step x s)" and ?ids = "issued_ids_of (trace cap_step xs (snd (cap_step x s)))"
  have "wf_state ?t" by (rule cap_machine.step_good [OF Cons.prems])
  from Cons.IH [OF this] have ih: "distinct ?ids" "\<forall>i \<in> set ?ids. i |\<notin>| st_issued ?t" by auto
  have grow: "st_issued s |\<subseteq>| st_issued ?t"
    using cap_machine.step_later [OF Cons.prems, of x] by (simp add: state_later_def)
  show ?case
  proof (cases "issued_reply (fst (cap_step x s))")
    case None
    with ih grow show ?thesis by (auto simp: issued_ids_of_def map_filter_simps)
  next
    case (Some i)
    from step_issues_fresh [of x s i] Some have "i |\<notin>| st_issued s" "i |\<in>| st_issued ?t"
      by (auto simp: issued_reply_Some)
    with Some ih grow show ?thesis by (auto simp: issued_ids_of_def map_filter_simps)
  qed
qed

section \<open>Errors\<close>

definition err_frame :: "CapabilityStateError \<Rightarrow> CapabilityState \<Rightarrow> CapabilityState \<Rightarrow> bool" where
  "err_frame e s t \<longleftrightarrow> t = s \<or> (e = CapabilityIdExhausted \<and> t = s\<lparr>st_next := None\<rparr>)"

lemma err_frame_refl [simp]: "err_frame e s s"
  by (simp add: err_frame_def)

lemma issue_Err: "issue g parent s = (Err e, t) \<Longrightarrow> err_frame e s t"
proof -
  assume i: "issue g parent s = (Err e, t)"
  obtain r u where a: "allocate_capability_id s = (r, u)" by fastforce
  from a show ?thesis
  proof (cases rule: allocate_cases)
    case (fresh j nxt)
    with i a show ?thesis by (auto simp: issue_def issue_with_id_eq split: sum.splits)
  next
    case exhausted
    with i a show ?thesis by (auto simp: issue_def err_frame_def split: sum.splits)
  qed
qed

lemma fst_reply_Err: "fst (reply f r) = Err e \<longleftrightarrow> fst r = Err e"
  by (cases "fst r") (auto simp: reply_def)

lemma issue_Err_snd: "fst (issue g parent s) = Err e \<Longrightarrow> err_frame e s (snd (issue g parent s))"
  by (rule issue_Err) (simp add: prod_eq_iff)

lemma cap_step_Err: "fst (cap_step x s) = Err e \<Longrightarrow> err_frame e s (snd (cap_step x s))"
  by (cases x)
    (auto simp: fst_reply_Err register_subject_def register_open_handle_def close_handle_def
      issue_root_def issue_root_with_id_def derive_def revoke_def revoke_held_by_def
      revoke_existing_def begin_subject_close_def finish_subject_close_def Let_def
      intro: issue_Err_snd
      split: sum.splits option.splits if_splits SubjectStatus.splits prod.splits)

section \<open>Decisions within one epoch\<close>

lemma active_iff_lineage:
  assumes "lineage (st_capabilities s) i xs"
  shows "is_effectively_active s i now \<longleftrightarrow> (\<forall>a \<in> set xs. live_at s now a)"
  unfolding is_effectively_active_iff using assms lineage_det [OF assms] by blast

lemma same_epoch_live:
  assumes "epoch_covers s t" "st_epoch t = st_epoch s" "extends (st_capabilities s) (st_capabilities t)"
    "fmlookup (st_capabilities s) a = Some c"
  shows "live_at t now a \<longleftrightarrow> live_at s now a"
  using assms by (simp add: epoch_covers_def live_at_def extends_lookup)

lemma same_epoch_active:
  assumes "state_later s t" "st_epoch t = st_epoch s" "wf_depth s" "fmlookup (st_capabilities s) i = Some c"
  shows "is_effectively_active t i now \<longleftrightarrow> is_effectively_active s i now"
proof -
  from assms(3,4) obtain xs where xs: "lineage (st_capabilities s) i xs" by (auto simp: wf_depth_def)
  have xt: "lineage (st_capabilities t) i xs" by (rule state_later_lineage [OF assms(1) xs])
  have live: "live_at t now a \<longleftrightarrow> live_at s now a" if "a \<in> set xs" for a
    using lineage_dom [OF xs that] same_epoch_live [of s t a] assms(1,2) by (auto simp: state_later_def)
  show ?thesis unfolding active_iff_lineage [OF xs] active_iff_lineage [OF xt] using live by blast
qed

lemma same_epoch_running:
  assumes "state_later s t" "st_epoch t = st_epoch s" "x |\<in>| fmdom (st_statuses s)"
  shows "fmlookup (st_statuses t) x = Some Running \<longleftrightarrow> fmlookup (st_statuses s) x = Some Running"
proof -
  from assms(3) obtain a where a: "fmlookup (st_statuses s) x = Some a" by (auto simp: fmlookup_dom_iff)
  with assms(1) obtain b where "fmlookup (st_statuses t) x = Some b" "status_rank a \<le> status_rank b"
    unfolding state_later_def statuses_advance_def by blast
  with a assms show ?thesis
    by (cases a; cases b) (auto simp: state_later_def epoch_covers_def)
qed

lemma same_epoch_authorizes:
  assumes "wf_state s" "state_later s t" "st_epoch t = st_epoch s" "i |\<in>| st_issued s"
  shows "authorizes t x i r \<longleftrightarrow> authorizes s x i r"
proof -
  from assms(1,4) obtain c where c: "fmlookup (st_capabilities s) i = Some c"
    by (auto simp: wf_state_def wf_keys_def fmlookup_dom_iff)
  let ?y = "cm_subject (c_metadata c)"
  from assms(1) c have "in_envelope s c" and held: "i |\<in>| held_of s ?y"
    by (auto simp: wf_state_def wf_caps_def)
  then have "?y |\<in>| fmdom (st_statuses s)"
    using assms(1) by (auto simp: in_envelope_def wf_state_def wf_keys_def intro: fmdomI)
  with assms have run: "fmlookup (st_statuses t) ?y = Some Running \<longleftrightarrow> fmlookup (st_statuses s) ?y = Some Running"
    by (intro same_epoch_running)
  from assms(2) c held have ct: "fmlookup (st_capabilities t) i = Some c" "i |\<in>| held_of t ?y"
    by (auto simp: state_later_def extends_lookup)
  have "is_effectively_active t i (cr_time r) \<longleftrightarrow> is_effectively_active s i (cr_time r)"
    using assms by (intro same_epoch_active [OF _ _ _ c]) (simp_all add: wf_state_def)
  with c ct held run show ?thesis by (auto simp: authorizes_unfold)
qed

section \<open>Issuing succeeds and takes effect\<close>

lemma sequential_id_inject [simp]: "sequential_id j m = sequential_id j n \<longleftrightarrow> m = n"
  by (simp add: sequential_id_def word_unat_eq_iff)

lemma allocate_loop_exhausted:
  "allocate_loop n s = (Err e, t) \<Longrightarrow> n \<le> m \<Longrightarrow> sequential_id (st_issuer s) m |\<in>| st_issued s"
proof (induction n s rule: allocate_loop.induct)
  case (1 n s)
  from 1(2) have taken: "sequential_id (st_issuer s) n |\<in>| st_issued s"
    by (auto simp: allocate_loop.simps [of n] split: if_splits)
  show ?case
  proof (cases "m = n")
    case False
    with 1(3) have less: "unat n < unat m" by (simp add: word_le_nat_alt word_unat_eq_iff)
    moreover have "unat m < 2 ^ 64" using unsigned_less [of m] by simp
    ultimately obtain n' where n': "checked_add n 1 = Some n'"
      using checked_add_None_iff [of n 1] by (cases "checked_add n 1") auto
    with less have "n' \<le> m" by (simp add: checked_add_Some_iff word_le_nat_alt)
    moreover from 1(2) taken n' have "allocate_loop n' s = (Err e, t)"
      by (simp add: allocate_loop.simps [of n])
    ultimately show ?thesis using 1(1) [of n'] taken n' by simp
  qed (use taken in simp)
qed

lemma allocate_succeeds:
  assumes "st_next s = Some n" "fcard (st_issued s) < k" "unat n + k \<le> 2 ^ 64"
  shows "\<exists>i. fst (allocate_capability_id s) = Ok i"
proof (rule ccontr)
  assume "\<not> ?thesis"
  then obtain e where "fst (allocate_capability_id s) = Err e"
    by (cases "fst (allocate_capability_id s)") auto
  with assms(1) have "allocate_loop n s = (Err e, snd (allocate_loop n s))"
    by (simp add: allocate_capability_id_def prod_eq_iff)
  from allocate_loop_exhausted [OF this]
  have all: "sequential_id (st_issuer s) m |\<in>| st_issued s" if "n \<le> m" for m using that by blast
  let ?f = "\<lambda>j. sequential_id (st_issuer s) (word_of_nat (unat n + j))"
  have val: "unat (word_of_nat (unat n + j) :: u64) = unat n + j" if "j < k" for j
    using that assms(3) by (subst unat_of_nat) simp
  have "inj_on ?f {..<k}"
    using val by (intro inj_onI) (auto simp: word_unat_eq_iff)
  then have "card (?f ` {..<k}) = k" by (simp add: card_image)
  moreover have "?f ` {..<k} \<subseteq> fset (st_issued s)"
    using all val by (auto simp: word_le_nat_alt)
  ultimately have "k \<le> fcard (st_issued s)"
    using card_mono [of "fset (st_issued s)" "?f ` {..<k}"] by (simp add: fcard.rep_eq)
  with assms(2) show False by simp
qed

lemma issue_succeeds:
  assumes "st_next s = Some n" "unat n + MAX_CAPABILITIES_PER_SESSION \<le> 2 ^ 64"
    "fcard (st_issued s) < MAX_CAPABILITIES_PER_SESSION"
  shows "\<exists>i. fst (issue g parent s) = Ok i"
proof -
  from allocate_succeeds [OF assms(1,3,2)] obtain i u where "allocate_capability_id s = (Ok i, u)"
    by (metis prod.collapse)
  with assms(3) show ?thesis
    by (auto simp: issue_def ensure_capability_capacity_def split: prod.splits)
qed

lemma live_at_issued:
  "a \<noteq> i \<Longrightarrow> live_at (issued_state g parent i nxt s) now a \<longleftrightarrow> live_at s now a"
  by (simp add: live_at_def)

lemma issued_root_active:
  assumes "wf_keys s" "i |\<notin>| st_issued s" "TimeWindow_contains (g_validity g) now"
  shows "is_effectively_active (issued_state g None i nxt s) i now"
proof -
  let ?t = "issued_state g None i nxt s"
  have "lineage (st_capabilities ?t) i [i]"
    by (rule lineage.lineage_root [where c = "granted (st_issuer s) g None i"]) simp_all
  moreover have "live_at ?t now i"
    using assms by (auto simp: live_at_def wf_keys_def)
  ultimately show ?thesis unfolding is_effectively_active_iff by auto
qed

lemma issued_child_active:
  assumes "wf_keys s" "i |\<notin>| st_issued s" "lineage (st_capabilities s) p xs"
  shows "is_effectively_active (issued_state g (Some p) i nxt s) i now \<longleftrightarrow>
    TimeWindow_contains (g_validity g) now \<and> is_effectively_active s p now"
proof -
  let ?t = "issued_state g (Some p) i nxt s"
  from assms(1,2) have fresh: "fmlookup (st_capabilities s) i = None"
    by (simp add: wf_keys_def fmdom_notD)
  have "lineage (st_capabilities ?t) p xs"
    by (rule lineage_mono [OF assms(3)]) (use fresh in auto)
  from lineage.lineage_step [OF _ _ this, of i "granted (st_issuer s) g (Some p) i"]
  have t: "lineage (st_capabilities ?t) i (i # xs)" by simp
  have "live_at ?t now i \<longleftrightarrow> TimeWindow_contains (g_validity g) now"
    using assms(1,2) by (auto simp: live_at_def wf_keys_def)
  moreover have "live_at ?t now a \<longleftrightarrow> live_at s now a" if "a \<in> set xs" for a
    using lineage_dom [OF assms(3) that] fresh by (cases "a = i") (auto simp: live_at_issued)
  ultimately show ?thesis
    unfolding active_iff_lineage [OF t] active_iff_lineage [OF assms(3)] by auto
qed

lemma issued_authorizes:
  assumes "validate_envelope s g = Ok ()"
  shows "authorizes (issued_state g parent i nxt s) (g_subject g) i r \<longleftrightarrow>
    is_effectively_active (issued_state g parent i nxt s) i (cr_time r) \<and>
    TimeWindow_contains (g_validity g) (cr_time r) \<and> authority_matches (g_authority g) (cr_authority r)"
  using assms by (auto simp: authorizes_unfold validate_envelope_Ok capability_matches_def)

section \<open>Closing\<close>

lemma begin_close_Ok:
  assumes "wf_status s" "fst (begin_subject_close x s) = Ok v"
  defines "t \<equiv> snd (begin_subject_close x s)"
  obtains b where "fmlookup (st_statuses t) x = Some b" "b \<noteq> Running" "held_of s x |\<subseteq>| st_revoked t"
    "st_capabilities t = st_capabilities s"
proof (cases "fmlookup (st_statuses s) x = Some Running")
  case True
  with assms(2) that show thesis
    by (auto simp: t_def begin_subject_close_def held_of_def split: option.splits sum.splits)
next
  case False
  with assms(1) have "held_of s x |\<subseteq>| st_revoked s" by (simp add: wf_status_def)
  with False assms(2) that show thesis
    by (auto simp: t_def begin_subject_close_def split: option.splits SubjectStatus.splits)
qed

end
