(* ===== verification/Policy.thy ===== *)
theory Policy
  imports Capability "HOL-Library.Monad_Syntax"
begin

text \<open>
  The canonical root-policy digest (\<open>authority-core/src/policy.rs\<close>).  The encoder appends fields
  to a byte buffer; a buffer operation yields \<open>None\<close> where the source panics (a length that does
  not fit \<open>u32\<close>).  The \<open>sha2\<close> crate is the parameter \<open>sha256\<close>.
\<close>

definition ROOT_POLICY_ENCODING_VERSION :: u16 where
  "ROOT_POLICY_ENCODING_VERSION = 1"

section \<open>The canonical buffer\<close>

datatype CanonicalPolicy = CanonicalPolicy (policy_bytes: bytes)

definition CanonicalPolicy_new :: CanonicalPolicy where
  "CanonicalPolicy_new = CanonicalPolicy (as_bytes (''authority-root-policy'' @ [CHR 0x00]))"

definition emit :: "bytes \<Rightarrow> CanonicalPolicy \<Rightarrow> CanonicalPolicy option" where
  "emit bs c = Some (CanonicalPolicy (policy_bytes c @ bs))"

definition field_u8 :: "u8 \<Rightarrow> CanonicalPolicy \<Rightarrow> CanonicalPolicy option" where
  "field_u8 v = emit [v]"

definition field_u16 :: "u16 \<Rightarrow> CanonicalPolicy \<Rightarrow> CanonicalPolicy option" where
  "field_u16 v = emit (be_bytes 2 (unat v))"

definition field_u32 :: "u32 \<Rightarrow> CanonicalPolicy \<Rightarrow> CanonicalPolicy option" where
  "field_u32 v = emit (be_bytes 4 (unat v))"

definition field_u64 :: "u64 \<Rightarrow> CanonicalPolicy \<Rightarrow> CanonicalPolicy option" where
  "field_u64 v = emit (be_bytes 8 (unat v))"

text \<open>\<open>u32::try_from(n).expect(..)\<close>.\<close>

definition u32_try_from :: "nat \<Rightarrow> u32 option" where
  "u32_try_from n = (if n < 2 ^ 32 then Some (word_of_nat n) else None)"

definition field_str :: "string \<Rightarrow> CanonicalPolicy \<Rightarrow> CanonicalPolicy option" where
  "field_str s c = do {
     n \<leftarrow> u32_try_from (length s);
     c \<leftarrow> field_u32 n c;
     emit (as_bytes s) c
   }"

fun field_strs :: "string list \<Rightarrow> CanonicalPolicy \<Rightarrow> CanonicalPolicy option" where
  "field_strs [] c = Some c"
| "field_strs (s # ss) c = do { c \<leftarrow> field_str s c; field_strs ss c }"

definition field_segments :: "string list \<Rightarrow> CanonicalPolicy \<Rightarrow> CanonicalPolicy option" where
  "field_segments ss c = do {
     n \<leftarrow> u32_try_from (length ss);
     c \<leftarrow> field_u32 n c;
     field_strs ss c
   }"

section \<open>Bits and patterns\<close>

definition file_effect_bits :: "FileEffects \<Rightarrow> u16" where
  "file_effect_bits es =
     fold (\<lambda>e bits. bits OR (if FileEffects_contains es e
                             then push_bit (unat (FileEffect_tag e)) 1 else 0)) FileEffect_ALL 0"

definition http_method_bits :: "HttpFetchMethods \<Rightarrow> u8" where
  "http_method_bits ms =
     (if HttpFetchMethods_contains ms Get then 1 else 0) OR
     push_bit 1 (if HttpFetchMethods_contains ms Head then 1 else 0)"

definition github_operation_bits :: "GitHubOperations \<Rightarrow> u8" where
  "github_operation_bits xs =
     (if GitHubOperations_contains xs PublishBranch then 1 else 0) OR
     push_bit 1 (if GitHubOperations_contains xs CreatePullRequest then 1 else 0)"

definition encode_path_pattern :: "PathPattern \<Rightarrow> CanonicalPolicy \<Rightarrow> CanonicalPolicy option" where
  "encode_path_pattern p c = do {
     c \<leftarrow> field_u8 (case p of PathExact _ \<Rightarrow> 1 | PathPrefix _ \<Rightarrow> 2) c;
     field_segments (cp_segments (PathPattern_path p)) c
   }"

definition encode_url_pattern :: "UrlPathPattern \<Rightarrow> CanonicalPolicy \<Rightarrow> CanonicalPolicy option" where
  "encode_url_pattern p c = do {
     c \<leftarrow> field_u8 (case p of UrlExact _ \<Rightarrow> 1 | UrlPrefix _ \<Rightarrow> 2) c;
     field_segments (up_segments (UrlPathPattern_path p)) c
   }"

definition encode_branch_pattern :: "BranchPattern \<Rightarrow> CanonicalPolicy \<Rightarrow> CanonicalPolicy option" where
  "encode_branch_pattern p c = do {
     c \<leftarrow> field_u8 (case p of BranchExact _ \<Rightarrow> 1 | BranchPrefix _ \<Rightarrow> 2) c;
     field_segments (bn_segments (BranchPattern_branch p)) c
   }"

fun encode_authority :: "AuthorityBody \<Rightarrow> CanonicalPolicy \<Rightarrow> CanonicalPolicy option" where
  "encode_authority (FileBody a) c = do {
     c \<leftarrow> field_u8 1 c;
     c \<leftarrow> field_str (repo_str (fa_repository a)) c;
     c \<leftarrow> field_u16 (file_effect_bits (fa_effects a)) c;
     encode_path_pattern (fa_path a) c
   }"
| "encode_authority (HttpFetchBody a) c = do {
     c \<leftarrow> field_u8 2 c;
     c \<leftarrow> field_u8 (http_method_bits (ha_methods a)) c;
     c \<leftarrow> field_str (host_str (ha_host a)) c;
     c \<leftarrow> encode_url_pattern (ha_path a) c;
     field_u64 (ha_max_response_bytes a) c
   }"
| "encode_authority (GitHubBody a) c = do {
     c \<leftarrow> field_u8 3 c;
     c \<leftarrow> field_str (installation_str (ga_installation a)) c;
     c \<leftarrow> field_str (repo_str (ga_repository a)) c;
     c \<leftarrow> field_u8 (github_operation_bits (ga_operations a)) c;
     c \<leftarrow> encode_branch_pattern (ga_base a) c;
     encode_branch_pattern (ga_head a) c
   }"

section \<open>Digests\<close>

datatype AuthorityPolicyDigest = AuthorityPolicyDigest (digest_bytes: bytes)

definition root_policy :: "TimeWindow \<Rightarrow> AuthorityBody \<Rightarrow> bool \<Rightarrow> CanonicalPolicy option" where
  "root_policy w a d = do {
     c \<leftarrow> field_u16 ROOT_POLICY_ENCODING_VERSION CanonicalPolicy_new;
     c \<leftarrow> field_u64 (ticks (not_before w)) c;
     c \<leftarrow> field_u64 (ticks (expires_at w)) c;
     c \<leftarrow> field_u8 (if d then 1 else 0) c;
     encode_authority a c
   }"

definition for_root ::
    "(bytes \<Rightarrow> bytes) \<Rightarrow> TimeWindow \<Rightarrow> AuthorityBody \<Rightarrow> bool \<Rightarrow> AuthorityPolicyDigest option" where
  "for_root sha256 w a d = map_option (\<lambda>c. AuthorityPolicyDigest (sha256 (policy_bytes c))) (root_policy w a d)"

datatype InvalidAuthorityPolicyDigest = InvalidAuthorityPolicyDigest

definition decode_hex :: "u8 \<Rightarrow> (InvalidAuthorityPolicyDigest, u8) result" where
  "decode_hex b =
     (if 48 \<le> b \<and> b \<le> 57 then Ok (b - 48)
      else if 97 \<le> b \<and> b \<le> 102 then Ok (b - 97 + 10)
      else Err InvalidAuthorityPolicyDigest)"

fun decode_hex_pairs :: "bytes \<Rightarrow> (InvalidAuthorityPolicyDigest, bytes) result" where
  "decode_hex_pairs (x # y # bs) =
     (case decode_hex x of
        Err e \<Rightarrow> Err e
      | Ok h \<Rightarrow>
          (case decode_hex y of
             Err e \<Rightarrow> Err e
           | Ok l \<Rightarrow>
               (case decode_hex_pairs bs of
                  Err e \<Rightarrow> Err e
                | Ok rest \<Rightarrow> Ok ((push_bit 4 h OR l) # rest))))"
| "decode_hex_pairs _ = Ok []"

definition from_hex :: "string \<Rightarrow> (InvalidAuthorityPolicyDigest, AuthorityPolicyDigest) result" where
  "from_hex s =
     (if length s \<noteq> 64 then Err InvalidAuthorityPolicyDigest
      else (case decode_hex_pairs (as_bytes s) of
              Err e \<Rightarrow> Err e
            | Ok bs \<Rightarrow> Ok (AuthorityPolicyDigest bs)))"

definition HEX :: string where
  "HEX = ''0123456789abcdef''"

definition to_hex :: "AuthorityPolicyDigest \<Rightarrow> string" where
  "to_hex d =
     concat (map (\<lambda>b. [HEX ! unat (drop_bit 4 b), HEX ! unat (b AND 0x0F)]) (digest_bytes d))"

section \<open>What the buffer operations append\<close>

definition fits_str :: "string \<Rightarrow> bool" where
  "fits_str s \<longleftrightarrow> length s < 2 ^ 32"

definition enc_str :: "string \<Rightarrow> bytes" where
  "enc_str s = be_bytes 4 (length s) @ as_bytes s"

definition fits_segments :: "string list \<Rightarrow> bool" where
  "fits_segments ss \<longleftrightarrow> length ss < 2 ^ 32 \<and> list_all fits_str ss"

definition enc_segments :: "string list \<Rightarrow> bytes" where
  "enc_segments ss = be_bytes 4 (length ss) @ concat (map enc_str ss)"

definition enc_tagged :: "bool \<times> string list \<Rightarrow> bytes" where
  "enc_tagged p = (if fst p then 1 else 2) # enc_segments (snd p)"

definition fits_tagged :: "bool \<times> string list \<Rightarrow> bool" where
  "fits_tagged p \<longleftrightarrow> fits_segments (snd p)"

fun path_view :: "PathPattern \<Rightarrow> bool \<times> string list" where
  "path_view (PathExact p) = (True, cp_segments p)"
| "path_view (PathPrefix p) = (False, cp_segments p)"

fun url_view :: "UrlPathPattern \<Rightarrow> bool \<times> string list" where
  "url_view (UrlExact p) = (True, up_segments p)"
| "url_view (UrlPrefix p) = (False, up_segments p)"

fun branch_view :: "BranchPattern \<Rightarrow> bool \<times> string list" where
  "branch_view (BranchExact p) = (True, bn_segments p)"
| "branch_view (BranchPrefix p) = (False, bn_segments p)"

fun enc_body :: "AuthorityBody \<Rightarrow> bytes" where
  "enc_body (FileBody a) =
     1 # enc_str (repo_str (fa_repository a)) @ be_bytes 2 (unat (file_effect_bits (fa_effects a))) @
     enc_tagged (path_view (fa_path a))"
| "enc_body (HttpFetchBody a) =
     2 # http_method_bits (ha_methods a) # enc_str (host_str (ha_host a)) @
     enc_tagged (url_view (ha_path a)) @ be_bytes 8 (unat (ha_max_response_bytes a))"
| "enc_body (GitHubBody a) =
     3 # enc_str (installation_str (ga_installation a)) @ enc_str (repo_str (ga_repository a)) @
     github_operation_bits (ga_operations a) # enc_tagged (branch_view (ga_base a)) @
     enc_tagged (branch_view (ga_head a))"

text \<open>No field of the body is too long for its length prefix.\<close>

fun fits_body :: "AuthorityBody \<Rightarrow> bool" where
  "fits_body (FileBody a) \<longleftrightarrow>
     fits_str (repo_str (fa_repository a)) \<and> fits_tagged (path_view (fa_path a))"
| "fits_body (HttpFetchBody a) \<longleftrightarrow>
     fits_str (host_str (ha_host a)) \<and> fits_tagged (url_view (ha_path a))"
| "fits_body (GitHubBody a) \<longleftrightarrow>
     fits_str (installation_str (ga_installation a)) \<and> fits_str (repo_str (ga_repository a)) \<and>
     fits_tagged (branch_view (ga_base a)) \<and> fits_tagged (branch_view (ga_head a))"

text \<open>The bit sets of the body hold no bit outside their enumerations.\<close>

fun wf_body_bits :: "AuthorityBody \<Rightarrow> bool" where
  "wf_body_bits (FileBody a) \<longleftrightarrow> wf_effects (fa_effects a)"
| "wf_body_bits (HttpFetchBody a) \<longleftrightarrow> wf_methods (ha_methods a)"
| "wf_body_bits (GitHubBody a) \<longleftrightarrow> wf_operations (ga_operations a)"

abbreviation appended :: "bool \<Rightarrow> bytes \<Rightarrow> CanonicalPolicy \<Rightarrow> CanonicalPolicy option" where
  "appended ok bs c \<equiv> (if ok then Some (CanonicalPolicy (policy_bytes c @ bs)) else None)"

lemma field_str_appends: "field_str s c = appended (fits_str s) (enc_str s) c"
  by (simp add: field_str_def u32_try_from_def field_u32_def emit_def fits_str_def enc_str_def
      unat_of_nat)

lemma field_strs_appends:
  "field_strs ss c = appended (list_all fits_str ss) (concat (map enc_str ss)) c"
  by (induction ss arbitrary: c) (auto simp: field_str_appends)

lemma field_segments_appends: "field_segments ss c = appended (fits_segments ss) (enc_segments ss) c"
  by (simp add: field_segments_def u32_try_from_def field_u32_def emit_def fits_segments_def
      enc_segments_def field_strs_appends unat_of_nat)

lemmas tagged_simps =
  field_u8_def emit_def field_segments_appends fits_tagged_def enc_tagged_def

lemma path_pattern_appends:
  "encode_path_pattern p c = appended (fits_tagged (path_view p)) (enc_tagged (path_view p)) c"
  by (cases p) (simp_all add: encode_path_pattern_def tagged_simps)

lemma url_pattern_appends:
  "encode_url_pattern p c = appended (fits_tagged (url_view p)) (enc_tagged (url_view p)) c"
  by (cases p) (simp_all add: encode_url_pattern_def tagged_simps)

lemma branch_pattern_appends:
  "encode_branch_pattern p c = appended (fits_tagged (branch_view p)) (enc_tagged (branch_view p)) c"
  by (cases p) (simp_all add: encode_branch_pattern_def tagged_simps)

lemmas pattern_appends = path_pattern_appends url_pattern_appends branch_pattern_appends

lemma encode_authority_appends: "encode_authority a c = appended (fits_body a) (enc_body a) c"
  by (cases a) (simp_all add: field_u8_def field_u16_def field_u64_def emit_def
      field_str_appends pattern_appends)

lemma root_policy_Some:
  "root_policy w a d =
     appended (fits_body a)
       (be_bytes 2 1 @ be_bytes 8 (unat (ticks (not_before w))) @
        be_bytes 8 (unat (ticks (expires_at w))) @ (if d then 1 else 0) # enc_body a)
       CanonicalPolicy_new"
  by (simp add: root_policy_def field_u8_def field_u16_def field_u64_def emit_def
      encode_authority_appends ROOT_POLICY_ENCODING_VERSION_def)

section \<open>The encoding is injective\<close>

lemma word_field_inject:
  "LENGTH('w) = 8 * k \<Longrightarrow> be_bytes k (unat v) = be_bytes k (unat w) \<longleftrightarrow> v = w"
  for v w :: "'w::len word"
proof -
  assume "LENGTH('w) = 8 * k"
  then have "256 ^ k = (2 :: nat) ^ LENGTH('w)" by (simp add: power_mult)
  then have "unat x < 256 ^ k" for x :: "'w word" using unsigned_less [of x] by simp
  then show ?thesis by (simp add: be_bytes_inject word_unat_eq_iff)
qed

lemma length_field_inject:
  "m < 2 ^ 32 \<Longrightarrow> n < 2 ^ 32 \<Longrightarrow> be_bytes 4 m = be_bytes 4 n \<longleftrightarrow> m = n"
  using be_bytes_inject [of m 4 n] by simp

interpretation str_code: prefix_code enc_str fits_str
proof
  show "x = y \<and> r = s" if "fits_str x" "fits_str y" "enc_str x @ r = enc_str y @ s" for x y r s
  proof -
    from that have "length x = length y \<and> as_bytes x @ r = as_bytes y @ s"
      using length_field_inject [of "length x" "length y"] by (simp add: fits_str_def enc_str_def)
    then show ?thesis by (auto simp: append_eq_append_conv)
  qed
qed

interpretation segments_code: prefix_code enc_segments fits_segments
proof
  show "x = y \<and> r = s" if "fits_segments x" "fits_segments y"
    "enc_segments x @ r = enc_segments y @ s" for x y r s
  proof -
    from that have "length x = length y"
      "concat (map enc_str x) @ r = concat (map enc_str y) @ s"
      using length_field_inject [of "length x" "length y"]
      by (simp_all add: fits_segments_def enc_segments_def)
    with that str_code.enc_list_append [of x y r s] show ?thesis by (simp add: fits_segments_def)
  qed
qed

interpretation tagged_code: prefix_code enc_tagged fits_tagged
proof
  show "x = y \<and> r = s" if "fits_tagged x" "fits_tagged y" "enc_tagged x @ r = enc_tagged y @ s"
    for x y r s
    using that by (cases x; cases y)
      (auto simp: fits_tagged_def enc_tagged_def segments_code.enc_append_iff split: if_splits)
qed

lemma path_view_inject: "path_view p = path_view q \<longleftrightarrow> p = q"
  by (cases p; cases q) (auto intro: path_eqI)

lemma url_view_inject: "url_view p = url_view q \<longleftrightarrow> p = q"
  by (cases p; cases q) (auto intro: url_path_eqI)

lemma branch_view_inject: "branch_view p = branch_view q \<longleftrightarrow> p = q"
  by (cases p; cases q) (auto intro: branch_eqI)

lemmas view_inject = path_view_inject url_view_inject branch_view_inject

lemma file_effect_bits_id: "wf_effects s \<Longrightarrow> file_effect_bits s = effect_bits s"
  using effect_flags.rebuild_bits [OF wf_effects_bits]
  by (simp add: file_effect_bits_def FileEffects_contains_def)

lemma http_method_bits_id: "wf_methods s \<Longrightarrow> http_method_bits s = method_bits s"
proof -
  assume "wf_methods s"
  from method_flags.rebuild_bits [of "method_bits s", OF wf_methods_bits [OF this]]
  show ?thesis
    by (auto simp: http_method_bits_def HttpFetchMethods_contains_def split: if_splits)
qed

lemma github_operation_bits_id: "wf_operations s \<Longrightarrow> github_operation_bits s = operation_bits s"
proof -
  assume "wf_operations s"
  from operation_flags.rebuild_bits [of "operation_bits s", OF wf_operations_bits [OF this]]
  show ?thesis
    by (auto simp: github_operation_bits_def GitHubOperations_contains_def split: if_splits)
qed

lemmas bits_id = file_effect_bits_id http_method_bits_id github_operation_bits_id

interpretation body_code: prefix_code enc_body "\<lambda>a. fits_body a \<and> wf_body_bits a"
proof
  show "x = y \<and> r = s" if "fits_body x \<and> wf_body_bits x" "fits_body y \<and> wf_body_bits y"
    "enc_body x @ r = enc_body y @ s" for x y r s
  proof (cases x; cases y)
    fix a b assume xy: "x = FileBody a" "y = FileBody b"
    with that have "fa_repository a = fa_repository b" "fa_effects a = fa_effects b"
        "fa_path a = fa_path b" "r = s"
      by (simp_all add: str_code.enc_append_iff word_field_inject tagged_code.enc_append_iff
          bits_id view_inject RepoId.expand FileEffects.expand)
    with xy show ?thesis by simp
  next
    fix a b assume xy: "x = HttpFetchBody a" "y = HttpFetchBody b"
    with that have "ha_methods a = ha_methods b" "ha_host a = ha_host b" "ha_path a = ha_path b"
        "ha_max_response_bytes a = ha_max_response_bytes b" "r = s"
      by (simp_all add: str_code.enc_append_iff word_field_inject tagged_code.enc_append_iff
          bits_id view_inject CanonicalHost.expand HttpFetchMethods.expand)
    with xy show ?thesis by simp
  next
    fix a b assume xy: "x = GitHubBody a" "y = GitHubBody b"
    with that have "ga_installation a = ga_installation b" "ga_repository a = ga_repository b"
        "ga_operations a = ga_operations b" "ga_base a = ga_base b" "ga_head a = ga_head b" "r = s"
      by (simp_all add: str_code.enc_append_iff tagged_code.enc_append_iff
          bits_id view_inject RepoId.expand InstallationId.expand GitHubOperations.expand)
    with xy show ?thesis by simp
  qed (use that in auto)
qed

lemma root_policy_inject:
  assumes "root_policy w a d = Some c" "root_policy w' a' d' = Some c"
    and "wf_body_bits a" "wf_body_bits a'"
  shows "w = w' \<and> a = a' \<and> d = d'"
proof -
  from assms have fits: "fits_body a" "fits_body a'" by (auto simp: root_policy_Some split: if_splits)
  let ?flag = "\<lambda>d. if d then 1 else 0 :: u8"
  from fits assms(1,2) have "be_bytes 8 (unat (ticks (not_before w))) @
      be_bytes 8 (unat (ticks (expires_at w))) @ ?flag d # enc_body a =
    be_bytes 8 (unat (ticks (not_before w'))) @
      be_bytes 8 (unat (ticks (expires_at w'))) @ ?flag d' # enc_body a'"
    by (simp only: root_policy_Some if_True option.inject)
      (metis CanonicalPolicy.sel same_append_eq)
  then have "ticks (not_before w) = ticks (not_before w')" "ticks (expires_at w) = ticks (expires_at w')"
    "?flag d = ?flag d'" "enc_body a = enc_body a'"
    by (simp_all add: word_field_inject)
  moreover from this(3) have "d = d'" by (cases d; cases d') simp_all
  ultimately show ?thesis
    using fits assms(3,4) by (simp add: body_code.enc_inject MonotonicTime.expand)
qed

section \<open>Hexadecimal digests\<close>

lemma byte_range:
  fixes b :: u8
  assumes "word_of_nat lo \<le> b" "b \<le> word_of_nat hi" "lo < 256" "hi < 256"
  shows "b \<in> set (map word_of_nat [lo..<Suc hi])"
proof -
  from assms have "lo \<le> unat b" "unat b \<le> hi"
    by (simp_all add: word_le_nat_alt unat_of_nat)
  then have "unat b \<in> set [lo..<Suc hi]" by (auto simp del: upt_Suc)
  then have "word_of_nat (unat b) \<in> set (map word_of_nat [lo..<Suc hi] :: u8 list)"
    unfolding set_map by (rule imageI)
  then show ?thesis by simp
qed

lemma decode_hex_Ok:
  assumes "decode_hex b = Ok h"
  shows "b = byte_of_char (HEX ! unat h) \<and> h < 16"
proof -
  from assms consider "48 \<le> b" "b \<le> 57" "h = b - 48" | "97 \<le> b" "b \<le> 102" "h = b - 97 + 10"
    by (auto simp: decode_hex_def split: if_splits)
  then show ?thesis
  proof cases
    case 1
    with byte_range [of 48 b 57] have "b \<in> {48, 49, 50, 51, 52, 53, 54, 55, 56, 57}"
      by (simp add: upt_rec)
    with 1 show ?thesis by (auto simp: HEX_def byte_of_char_def)
  next
    case 2
    with byte_range [of 97 b 102] have "b \<in> {97, 98, 99, 100, 101, 102}" by (simp add: upt_rec)
    with 2 show ?thesis by (auto simp: HEX_def byte_of_char_def)
  qed
qed

lemma decode_hex_digit: "h < 16 \<Longrightarrow> decode_hex (byte_of_char (HEX ! unat h)) = Ok h"
proof -
  assume "h < 16"
  then have "h \<in> {0, 1, 2, 3, 4, 5, 6, 7, 8, 9, 10, 11, 12, 13, 14, 15}"
    using byte_range [of 0 h 15] by (simp add: upt_rec word_less_nat_alt word_le_nat_alt)
  then show ?thesis by (auto simp: HEX_def byte_of_char_def decode_hex_def)
qed

lemma low_nibble: "b AND 0x0F = take_bit 4 b" for b :: u8
  by (simp add: take_bit_eq_mask mask_eq_exp_minus_1)

lemma nibble_iff: "h < 16 \<longleftrightarrow> take_bit 4 h = h" for h :: u8
  using word_less_nat_alt [of h 16]
  by (simp add: word_unat_eq_iff unsigned_take_bit_eq take_bit_nat_eq_self_iff)

lemma nibble_bit: "h < 16 \<Longrightarrow> bit h n \<Longrightarrow> n < 4" for h :: u8
  unfolding nibble_iff by (metis bit_take_bit_iff)

lemma high_nibble_less: "drop_bit 4 b < 16" for b :: u8
  unfolding nibble_iff by (rule bit_word_eqI) (auto simp: bit_take_bit_iff bit_drop_bit_eq
      dest: bit_imp_le_length)

lemma low_nibble_less: "take_bit 4 b < 16" for b :: u8
  unfolding nibble_iff by simp

lemma nibbles_join: "push_bit 4 (drop_bit 4 b) OR take_bit 4 b = b" for b :: u8
  by (rule bit_word_eqI) (auto simp: bit_or_iff bit_push_bit_iff bit_take_bit_iff bit_drop_bit_eq)

lemma nibbles_split:
  fixes h l :: u8
  assumes "h < 16" "l < 16"
  shows "drop_bit 4 (push_bit 4 h OR l) = h" "take_bit 4 (push_bit 4 h OR l) = l"
proof -
  have "\<not> bit l (4 + n)" for n using nibble_bit [OF assms(2), of "4 + n"] by auto
  then show "drop_bit 4 (push_bit 4 h OR l) = h"
    using nibble_bit [OF assms(1)]
    by (intro bit_word_eqI) (auto simp: bit_or_iff bit_push_bit_iff bit_drop_bit_eq)
  show "take_bit 4 (push_bit 4 h OR l) = l"
    using nibble_bit [OF assms(2)]
    by (intro bit_word_eqI) (auto simp: bit_or_iff bit_push_bit_iff bit_take_bit_iff)
qed

lemma decode_hex_pairs_show:
  "decode_hex_pairs (as_bytes (concat (map (\<lambda>b. [HEX ! unat (drop_bit 4 b), HEX ! unat (b AND 0x0F)]) bs)))
     = Ok bs"
  by (induction bs) (simp_all add: as_bytes_def decode_hex_digit high_nibble_less low_nibble_less
      low_nibble nibbles_join)

lemma decode_hex_pairs_Ok:
  "decode_hex_pairs xs = Ok bs \<Longrightarrow> even (length xs) \<Longrightarrow>
     xs = as_bytes (concat (map (\<lambda>b. [HEX ! unat (drop_bit 4 b), HEX ! unat (b AND 0x0F)]) bs))"
proof (induction xs arbitrary: bs rule: decode_hex_pairs.induct)
  case (1 x y xs)
  then obtain h l rest where "decode_hex x = Ok h" "decode_hex y = Ok l"
    "decode_hex_pairs xs = Ok rest" "bs = (push_bit 4 h OR l) # rest"
    by (auto split: sum.splits)
  with 1 show ?case
    using decode_hex_Ok [of x h] decode_hex_Ok [of y l] nibbles_split [of h l]
    by (simp add: as_bytes_def low_nibble)
qed (auto simp: as_bytes_def)

lemma length_to_hex: "length (to_hex d) = 2 * length (digest_bytes d)"
proof -
  have "length (concat (map (\<lambda>b. [f b, g b]) bs)) = 2 * length bs" for f g :: "u8 \<Rightarrow> char" and bs
    by (induction bs) auto
  then show ?thesis by (simp add: to_hex_def)
qed

lemma from_hex_iff: "from_hex s = Ok d \<longleftrightarrow> length (digest_bytes d) = 32 \<and> s = to_hex d"
proof
  assume "from_hex s = Ok d"
  then have len: "length s = 64" and d: "decode_hex_pairs (as_bytes s) = Ok (digest_bytes d)"
    by (auto simp: from_hex_def split: if_splits sum.splits)
  from decode_hex_pairs_Ok [OF d] len have s: "s = to_hex d" by (simp add: to_hex_def)
  with len length_to_hex [of d] show "length (digest_bytes d) = 32 \<and> s = to_hex d" by simp
next
  assume "length (digest_bytes d) = 32 \<and> s = to_hex d"
  then show "from_hex s = Ok d"
    using decode_hex_pairs_show [of "digest_bytes d"] length_to_hex [of d]
    by (simp add: from_hex_def to_hex_def)
qed

end
