(* ===== verification/Examples.thy ===== *)
theory Examples
  imports Capability_State
begin

text \<open>
  A small concrete session on which the hypotheses of the theorems are discharged: an issuer
  \<open>s\<close>, subjects \<open>a\<close> and \<open>b\<close> with the same static envelope, a root capability \<open>s:0\<close> for \<open>a\<close>
  and its child \<open>s:1\<close> delegated to \<open>b\<close>.
\<close>

definition ex_window :: TimeWindow where
  "ex_window = \<lparr>not_before = MonotonicTime 0, expires_at = MonotonicTime 100\<rparr>"

definition ex_src :: CanonicalPath where
  "ex_src = \<lparr>cp_segments = [''src'']\<rparr>"

definition ex_authority :: FileAuthority where
  "ex_authority =
     \<lparr>fa_repository = RepoId ''r'', fa_effects = FileEffects_only ReadData, fa_path = PathPrefix ex_src\<rparr>"

definition ex_body :: AuthorityBody where
  "ex_body = FileBody ex_authority"

definition ex_subject :: "SubjectId \<Rightarrow> Subject" where
  "ex_subject x =
     \<lparr>sb_id = x, sb_parent = None, sb_envelope = \<lparr>env_validity = ex_window, env_authority = ex_body\<rparr>\<rparr>"

definition ex_grant :: "SubjectId \<Rightarrow> CapabilityGrant" where
  "ex_grant x = \<lparr>g_subject = x, g_validity = ex_window, g_authority = ex_body, g_delegable = True\<rparr>"

abbreviation ex_a :: SubjectId where "ex_a \<equiv> SubjectId ''a''"
abbreviation ex_b :: SubjectId where "ex_b \<equiv> SubjectId ''b''"
abbreviation ex_root :: CapId where "ex_root \<equiv> CapId ''s:0''"
abbreviation ex_child :: CapId where "ex_child \<equiv> CapId ''s:1''"

definition ex_file_request :: FileRequest where
  "ex_file_request =
     \<lparr>fr_repository = RepoId ''r'', fr_effect = ReadData, fr_path = \<lparr>cp_segments = [''src'', ''lib'']\<rparr>\<rparr>"

definition ex_request :: CapabilityRequest where
  "ex_request = \<lparr>cr_time = MonotonicTime 7, cr_authority = FileReq ex_file_request\<rparr>"

definition ex_setup :: "cap_op list" where
  "ex_setup =
     [OpRegisterSubject (ex_subject ex_a), OpRegisterSubject (ex_subject ex_b),
      OpIssueRoot (ex_grant ex_a)]"

definition ex_derive :: cap_op where
  "ex_derive = OpDerive ex_a ex_root (ex_grant ex_b) (MonotonicTime 5)"

definition ex_new :: CapabilityState where
  "ex_new = CapabilityState_new (IssuerId ''s'')"

lemmas ex_defs =
  ex_window_def ex_src_def ex_authority_def ex_body_def ex_subject_def ex_grant_def
  ex_file_request_def ex_request_def ex_setup_def ex_derive_def ex_new_def

lemmas path_eval =
  CanonicalPath_is_at_or_below_def CanonicalPath_root_def FileEffects_contains_def
  FileEffects_only_def FileEffect_mask_def file_matches_def file_family.family_refl

lemmas state_eval =
  register_subject_def issue_root_def issue_root_with_id_def issue_def derive_def
  validate_envelope_def ensure_subject_running_def ensure_capability_capacity_def
  validate_capability_id_def allocate_capability_id_def allocate_loop.simps issue_with_id_def
  CapabilityState_new_def StaticAuthorityEnvelope_contains_def session_limits sequential_id_def
  with_delegable_def with_parent_def CapabilityMetadata_new_def reply_def is_held_by_def
  is_effectively_active_def active_loop.simps delegation_depth_def depth_loop.simps
  authorizes_def active_capability_def capability_matches_def TimeWindow_contains_def
  TimeWindow_is_subset_of_def revoke_def revoke_held_by_def revoke_existing_def
  begin_subject_close_def finish_subject_close_def next_authorization_epoch_def
  AuthorizationEpoch_checked_next_def register_open_handle_def close_handle_def
  fcard_fempty fcard_finsert_if show_nat.simps checked_add_def digit_char_eval
  digit_char_eval(2) [unfolded One_nat_def] Let_def

text \<open>The record that issuing and delegating to subject \<open>x\<close> creates.\<close>

definition ex_cap :: "CapId \<Rightarrow> SubjectId \<Rightarrow> CapId option \<Rightarrow> Capability" where
  "ex_cap i x p =
     \<lparr>c_metadata = \<lparr>cm_id = i, cm_subject = x, cm_issuer = IssuerId ''s'', cm_parent = p,
                     cm_delegable = True\<rparr>,
      c_validity = ex_window, c_authority = ex_body\<rparr>"

definition ex_state :: CapabilityState where
  "ex_state = run cap_step (ex_setup @ [ex_derive]) ex_new"

lemma ex_state_eq:
  "ex_state =
     \<lparr>st_issuer = IssuerId ''s'', st_next = Some 2,
      st_subjects = fmupd ex_b (ex_subject ex_b) (fmupd ex_a (ex_subject ex_a) fmempty),
      st_statuses = fmupd ex_b Running (fmupd ex_a Running fmempty),
      st_capabilities =
        fmupd ex_child (ex_cap ex_child ex_b (Some ex_root)) (fmupd ex_root (ex_cap ex_root ex_a None) fmempty),
      st_held = fmupd ex_b {|ex_child|} (fmupd ex_a {|ex_root|} (fmupd ex_b {||} (fmupd ex_a {||} fmempty))),
      st_revoked = {||}, st_issued = {|ex_child, ex_root|}, st_epoch = AuthorizationEpoch 0,
      st_open = fmempty, st_owners = fmempty\<rparr>"
  by (simp add: ex_state_def state_eval ex_defs path_eval ex_cap_def)

lemma ex_state_authorizes: "authorizes ex_state ex_b ex_child ex_request"
  by (simp add: ex_state_eq ex_cap_def state_eval ex_defs path_eval)

lemma ex_host_new: "CanonicalHost_new ''X.Test.'' = Ok (CanonicalHost ''x.test'')"
  by (simp add: CanonicalHost_new_def is_ascii_def strip_final_dot_def to_ascii_lowercase_def
      ascii_lower_char_def is_ascii_upper_def Let_def nondigit_not_ip to_digit_def
      validate_label_def is_label_char_def is_ascii_alphanumeric_def is_ascii_lower_def
      char_of_def bit_0)

end
