(* ===== verification/Authority_Theorems.thy ===== *)
theory Authority_Theorems
  imports Capability_Properties Policy Examples
begin

text \<open>
  The guarantees of the authority core, stated over the definitions of the component theories,
  each with a witness on the session of \<open>Examples\<close> where it has hypotheses.
\<close>

section \<open>Authorization in reachable states\<close>

text \<open>
  C1. Confinement: in every reachable state, a request that \<open>authorizes\<close> accepts comes from a
  running subject; every capability of the lineage of the presented one, up to its root, is
  unrevoked and itself matches the request; the lineage has at most 64 members; and the static
  envelope of the subject covers the request.
\<close>

theorem authorized_confined:
  assumes "reachable s" "authorizes s x i r"
  shows "fmlookup (st_statuses s) x = Some Running \<and>
    (\<exists>xs. lineage (st_capabilities s) i xs \<and> length xs \<le> MAX_DELEGATION_DEPTH \<and>
       (\<forall>a \<in> set xs. a |\<notin>| st_revoked s \<and>
          (\<exists>c. fmlookup (st_capabilities s) a = Some c \<and> capability_matches c r))) \<and>
    (\<exists>u. fmlookup (st_subjects s) x = Some u \<and>
       TimeWindow_contains (env_validity (sb_envelope u)) (cr_time r) \<and>
       authority_matches (env_authority (sb_envelope u)) (cr_authority r))"
proof -
  from reachable_wf [OF assms(1)] have wf: "wf_links s" "wf_depth s" "wf_caps s"
    by (simp_all add: wf_state_def)
  from assms(2) obtain c where c: "fmlookup (st_statuses s) x = Some Running"
    "fmlookup (st_capabilities s) i = Some c" "cm_subject (c_metadata c) = x" "capability_matches c r"
    by (auto simp: authorizes_unfold)
  from wf(2) c(2) obtain ys where ys: "lineage (st_capabilities s) i ys" "length ys \<le> MAX_DELEGATION_DEPTH"
    by (auto simp: wf_depth_def)
  obtain xs where xs: "lineage (st_capabilities s) i xs"
    "\<And>a. a \<in> set xs \<Longrightarrow> a |\<notin>| st_revoked s \<and>
       (\<exists>c. fmlookup (st_capabilities s) a = Some c \<and> capability_matches c r)"
    using authorizes_lineage [OF assms(2) wf(1)] by metis
  from wf(3) c(2,3) obtain u where u: "fmlookup (st_subjects s) x = Some u"
    "StaticAuthorityEnvelope_contains (sb_envelope u) (c_validity c) (c_authority c)"
    by (auto simp: wf_caps_def in_envelope_def)
  with c(4) envelope_matches [OF u(2), of "cr_time r" "cr_authority r"]
  have "TimeWindow_contains (env_validity (sb_envelope u)) (cr_time r)"
    "authority_matches (env_authority (sb_envelope u)) (cr_authority r)"
    by (auto simp: capability_matches_def)
  with c(1) u(1) xs ys lineage_det [OF xs(1) ys(1)] show ?thesis by blast
qed

lemma ex_state_reachable: "reachable ex_state"
  by (auto simp: reachable_def ex_state_def ex_new_def)

theorem authorized_confined_witness:
  "fmlookup (st_statuses ex_state) ex_b = Some Running"
  using authorized_confined [OF ex_state_reachable ex_state_authorizes] by blast

text \<open>
  C2. Revocation is transitive and permanent: once revoking \<open>a\<close> succeeds in a reachable state,
  no capability with \<open>a\<close> in its lineage authorizes any request of any subject, now or after
  any further sequence of operations.
\<close>

theorem revocation_permanent:
  assumes "reachable s" "lineage (st_capabilities s) i xs" "a \<in> set xs" "fst (revoke a s) = Ok v"
  shows "\<not> authorizes (run cap_step ops (snd (revoke a s))) x i r"
proof (rule revocation_stays)
  show "wf_state (snd (revoke a s))"
    using wf_state_change [OF revoke_change reachable_wf [OF assms(1)]] .
qed (use assms revoke_Ok_revoked [OF assms(4)] in \<open>simp_all add: revoke_frame\<close>)

lemma ex_lineage: "lineage (st_capabilities ex_state) ex_child [ex_child, ex_root]"
proof -
  have "lineage (st_capabilities ex_state) ex_root [ex_root]"
    by (rule lineage.lineage_root [where c = "ex_cap ex_root ex_a None"])
      (simp_all add: ex_state_eq ex_cap_def)
  from lineage.lineage_step [OF _ _ this, of ex_child "ex_cap ex_child ex_b (Some ex_root)"]
  show ?thesis by (simp add: ex_state_eq ex_cap_def)
qed

theorem revocation_permanent_witness:
  "\<not> authorizes (run cap_step [OpRegisterSubject (ex_subject (SubjectId ''c''))]
      (snd (revoke ex_root ex_state))) ex_b ex_child ex_request"
  by (rule revocation_permanent [OF ex_state_reachable ex_lineage, where v = NewlyRevoked])
    (simp_all add: ex_state_eq state_eval)

text \<open>
  C3. Closing is final: after \<open>begin_subject_close\<close> succeeds for a subject in a reachable state,
  that subject is authorized for nothing in any later state, and neither is any subject that
  presents a capability derived from one the closed subject held.
\<close>

theorem closing_final:
  assumes "reachable s" "fst (begin_subject_close x s) = Ok v"
  shows "\<not> authorizes (run cap_step ops (snd (begin_subject_close x s))) x i r \<and>
    (\<forall>j xs a y. lineage (st_capabilities s) j xs \<longrightarrow> a \<in> set xs \<longrightarrow> a |\<in>| held_of s x \<longrightarrow>
       \<not> authorizes (run cap_step ops (snd (begin_subject_close x s))) y j r)"
proof -
  let ?t = "snd (begin_subject_close x s)"
  have wf: "wf_state s" "wf_state ?t"
    using reachable_wf [OF assms(1)] wf_state_change [OF begin_subject_close_change] by auto
  obtain b where b: "fmlookup (st_statuses ?t) x = Some b" "b \<noteq> Running"
    and held: "held_of s x |\<subseteq>| st_revoked ?t" and caps: "st_capabilities ?t = st_capabilities s"
    using begin_close_Ok [OF _ assms(2)] wf(1) unfolding wf_state_def by metis
  have "\<not> authorizes (run cap_step ops ?t) y j r"
    if "lineage (st_capabilities s) j xs" "a \<in> set xs" "a |\<in>| held_of s x" for j xs a y
    using that held caps by (intro revocation_stays [OF wf(2), of j xs a]) auto
  with not_running_never_authorizes [OF wf(2) b] show ?thesis by blast
qed

theorem closing_final_witness:
  "\<not> authorizes (run cap_step [] (snd (begin_subject_close ex_a ex_state))) ex_b ex_child ex_request"
proof -
  have "fst (begin_subject_close ex_a ex_state) = Ok CloseStarted"
    by (simp add: ex_state_eq state_eval)
  from closing_final [OF ex_state_reachable this, of "[]"] ex_lineage
  show ?thesis by (fastforce simp: ex_state_eq held_of_def)
qed

section \<open>The state machine\<close>

text \<open>
  C4. Every state the operations can reach satisfies the invariant of the capability state: maps
  agree on their keys, every capability is held by its subject inside that subject's envelope,
  parents are delegable and no weaker than their children, lineages are finite and at most 64
  long, subjects that are not running hold revoked capabilities only, open handles belong to
  subjects that are not closed, and the session limits hold.
\<close>

theorem state_invariant: "wf_state (run cap_step ops (CapabilityState_new j))"
  by (rule cap_machine.run_good [OF wf_state_new])

text \<open>
  C5. History is monotone: along any sequence of operations subject and capability records never
  change or disappear, identities stay reserved, revocations stay, lifecycle statuses only
  advance, closed handles stay closed, and the authorization epoch grows at every revocation and
  every subject shutdown.
\<close>

theorem history_monotone:
  "state_later (run cap_step xs (CapabilityState_new j)) (run cap_step (xs @ ys) (CapabilityState_new j))"
  unfolding run_append by (intro cap_machine.run_later cap_machine.run_good wf_state_new)

text \<open>
  No capability identity is handed out twice in a session: the identities that issuing and
  deriving return over any run of operations are pairwise distinct, revocations notwithstanding.
\<close>

theorem identities_unique: "distinct (issued_ids_of (trace cap_step ops (CapabilityState_new j)))"
  using trace_ids_fresh [OF wf_state_new] by blast

text \<open>
  C6. \<open>is_effectively_active\<close> terminates and decides exactly whether the capability has a lineage
  all of whose members are issued, not revoked and inside their validity window; corrupt cycles
  have no lineage and count as inactive.
\<close>

theorem effective_activity:
  "is_effectively_active s i now \<longleftrightarrow>
     (\<exists>xs. lineage (st_capabilities s) i xs \<and> list_all (live_at s now) xs)"
  by (simp add: is_effectively_active_iff list_all_iff)

text \<open>
  C7. Caching by epoch is sound: while the authorization epoch of a reachable state has not
  changed, every decision about a capability that was already issued is still the same, whatever
  was registered, issued, derived, opened or closed in between.
\<close>

theorem epoch_caching:
  assumes "reachable s" "st_epoch (run cap_step ops s) = st_epoch s" "i |\<in>| st_issued s"
  shows "authorizes (run cap_step ops s) x i r \<longleftrightarrow> authorizes s x i r"
  using assms reachable_wf [OF assms(1)]
  by (intro same_epoch_authorizes cap_machine.run_later) auto

theorem epoch_caching_witness:
  "authorizes (run cap_step [OpRegisterSubject (ex_subject (SubjectId ''c''))] ex_state) ex_b ex_child ex_request"
proof -
  have "st_epoch (run cap_step [OpRegisterSubject (ex_subject (SubjectId ''c''))] ex_state) = st_epoch ex_state"
    "ex_child |\<in>| st_issued ex_state"
    by (simp_all add: ex_state_eq state_eval ex_defs)
  from epoch_caching [OF ex_state_reachable this] ex_state_authorizes show ?thesis by simp
qed

text \<open>
  C8. A rejected operation leaves the whole state as it was, with one exception: when the probing
  for a fresh sequential identity runs out of numbers, the sequence cursor is left exhausted.
\<close>

theorem rejected_unchanged:
  assumes "fst (cap_step x s) = Err e"
  shows "snd (cap_step x s) = s \<or>
    (e = CapabilityIdExhausted \<and> snd (cap_step x s) = s\<lparr>st_next := None\<rparr>)"
  using cap_step_Err [OF assms] by (simp add: err_frame_def)

theorem rejected_unchanged_witness:
  "snd (cap_step (OpRevoke (CapId ''none'')) ex_state) = ex_state"
  using rejected_unchanged [of "OpRevoke (CapId ''none'')" ex_state "UnknownCapability (CapId ''none'')"]
  by (simp add: ex_state_eq state_eval)

text \<open>
  C9. Issuing a root capability succeeds whenever the grant fits the envelope of a running
  subject, the session has capacity and the sequence has room, and the new capability authorizes
  exactly the requests the grant covers.
\<close>

theorem issue_root_effective:
  assumes "reachable s" "validate_envelope s g = Ok ()"
    "fcard (st_issued s) < MAX_CAPABILITIES_PER_SESSION"
    "st_next s = Some n" "unat n + MAX_CAPABILITIES_PER_SESSION \<le> 2 ^ 64"
  shows "\<exists>i t. issue_root g s = (Ok i, t) \<and> i |\<notin>| st_issued s \<and>
    (\<forall>r. authorizes t (g_subject g) i r \<longleftrightarrow>
       TimeWindow_contains (g_validity g) (cr_time r) \<and>
       authority_matches (g_authority g) (cr_authority r))"
proof -
  from issue_succeeds [OF assms(4,5,3)] obtain i where "fst (issue g None s) = Ok i" by blast
  with assms(2) obtain t where t: "issue_root g s = (Ok i, t)"
    by (auto simp: issue_root_def prod_eq_iff)
  from issue_root_Ok [OF t] obtain nxt where i: "i |\<notin>| st_issued s" "t = issued_state g None i nxt s"
    by blast
  have "wf_keys s" using reachable_wf [OF assms(1)] by (simp add: wf_state_def)
  with i assms(2) have "authorizes t (g_subject g) i r \<longleftrightarrow>
      TimeWindow_contains (g_validity g) (cr_time r) \<and> authority_matches (g_authority g) (cr_authority r)" for r
    using issued_root_active [of s i g] by (auto simp: issued_authorizes)
  with t i show ?thesis by blast
qed

theorem issue_root_effective_witness:
  "\<exists>i t. issue_root (ex_grant ex_b) ex_state = (Ok i, t) \<and> authorizes t ex_b i ex_request"
proof -
  have "validate_envelope ex_state (ex_grant ex_b) = Ok ()"
    "fcard (st_issued ex_state) < MAX_CAPABILITIES_PER_SESSION" "st_next ex_state = Some 2"
    "unat (2 :: u64) + MAX_CAPABILITIES_PER_SESSION \<le> 2 ^ 64"
    by (simp_all add: ex_state_eq state_eval ex_defs path_eval)
  note effective = issue_root_effective [OF ex_state_reachable this]
  have "g_subject (ex_grant ex_b) = ex_b"
    "TimeWindow_contains (g_validity (ex_grant ex_b)) (cr_time ex_request)"
    "authority_matches (g_authority (ex_grant ex_b)) (cr_authority ex_request)"
    by (simp_all add: ex_defs path_eval TimeWindow_contains_def)
  with effective show ?thesis by metis
qed

text \<open>
  C10. Deriving attenuates: a successful \<open>derive\<close> records a fresh child of the named parent, which
  the caller holds, is active and delegable; the child is weaker than the parent and inside the
  depth limit, and it authorizes exactly the requests its grant covers while the parent chain is
  active.
\<close>

theorem derive_attenuates:
  assumes "reachable s" "derive x p g now s = (Ok i, t)"
  shows "i |\<notin>| st_issued s \<and> p |\<in>| held_of s x \<and> is_effectively_active s p now \<and>
    delegation_depth s p < MAX_DELEGATION_DEPTH \<and>
    (\<exists>c d. fmlookup (st_capabilities t) i = Some c \<and> cm_parent (c_metadata c) = Some p \<and>
       fmlookup (st_capabilities s) p = Some d \<and> cm_delegable (c_metadata d) \<and> weaker_than c d) \<and>
    (\<forall>r. authorizes t (g_subject g) i r \<longleftrightarrow>
       TimeWindow_contains (g_validity g) (cr_time r) \<and>
       authority_matches (g_authority g) (cr_authority r) \<and> is_effectively_active s p (cr_time r))"
proof -
  note ok = derive_Ok [OF assms(2)]
  from ok(8) obtain nxt where t: "t = issued_state g (Some p) i nxt s" by blast
  from ok(2) obtain d where d: "fmlookup (st_capabilities s) p = Some d" "cm_delegable (c_metadata d)"
    "weaker_than (granted (st_issuer s) g (Some p) i) d"
    by (auto simp: weaker_than_def)
  have wf: "wf_keys s" "wf_depth s" using reachable_wf [OF assms(1)] by (simp_all add: wf_state_def)
  then obtain xs where xs: "lineage (st_capabilities s) p xs" using d(1) by (auto simp: wf_depth_def)
  have "authorizes t (g_subject g) i r \<longleftrightarrow> TimeWindow_contains (g_validity g) (cr_time r) \<and>
      authority_matches (g_authority g) (cr_authority r) \<and> is_effectively_active s p (cr_time r)" for r
    using issued_child_active [OF wf(1) ok(7) xs] by (auto simp: t issued_authorizes [OF ok(6)])
  with ok d t show ?thesis by simp
qed

theorem derive_attenuates_witness:
  "authorizes (snd (derive ex_b ex_child (ex_grant ex_a) (MonotonicTime 5) ex_state)) ex_a (CapId ''s:2'') ex_request"
proof -
  have "derive ex_b ex_child (ex_grant ex_a) (MonotonicTime 5) ex_state =
      (Ok (CapId ''s:2''), snd (derive ex_b ex_child (ex_grant ex_a) (MonotonicTime 5) ex_state))"
    by (simp add: ex_state_eq state_eval ex_defs path_eval ex_cap_def)
  from derive_attenuates [OF ex_state_reachable this]
  have "authorizes (snd (derive ex_b ex_child (ex_grant ex_a) (MonotonicTime 5) ex_state)) ex_a (CapId ''s:2'') r \<longleftrightarrow>
      TimeWindow_contains ex_window (cr_time r) \<and> authority_matches ex_body (cr_authority r) \<and>
      is_effectively_active ex_state ex_child (cr_time r)" for r
    by (simp add: ex_grant_def)
  then show ?thesis by (simp add: ex_state_eq state_eval ex_defs path_eval ex_cap_def)
qed

section \<open>Delegation decisions\<close>

text \<open>
  C11. \<open>weaker_than\<close> is reflexive and transitive, and never adds authority: every request that a
  capability weaker than \<open>p\<close> matches is matched by \<open>p\<close>, for file, HTTP and GitHub authorities.
\<close>

theorem delegation_sound:
  "weaker_than a a \<and>
   (weaker_than a b \<longrightarrow> weaker_than b c \<longrightarrow> weaker_than a c) \<and>
   (weaker_than a b \<longrightarrow> capability_matches a r \<longrightarrow> capability_matches b r)"
  using cap_family.family_refl cap_family.family_trans cap_family.family_sound by blast

theorem delegation_sound_witness:
  "capability_matches (ex_cap ex_root ex_a None) ex_request"
proof -
  have "weaker_than (ex_cap ex_child ex_b (Some ex_root)) (ex_cap ex_root ex_a None)"
    "capability_matches (ex_cap ex_child ex_b (Some ex_root)) ex_request"
    by (simp_all add: weaker_than_def ex_cap_def ex_defs path_eval state_eval)
  then show ?thesis using delegation_sound by blast
qed

text \<open>
  C12. The structural rule for file authorities is exact: for a child with some effect, a valid
  path and room below its prefix, \<open>file_body_below\<close> holds exactly when every request on a valid
  path that the child permits is permitted by the parent.
\<close>

theorem file_delegation_exact:
  assumes "wf_effects (fa_effects c)" "FileEffects_contains (fa_effects c) e" "pattern_roomy (fa_path c)"
  shows "file_body_below c p \<longleftrightarrow>
    (\<forall>r. wf_path (fr_path r) \<longrightarrow> file_matches c r \<longrightarrow> file_matches p r)"
proof
  assume incl: "\<forall>r. wf_path (fr_path r) \<longrightarrow> file_matches c r \<longrightarrow> file_matches p r"
  let ?req = "\<lambda>f q. \<lparr>fr_repository = fa_repository c, fr_effect = f, fr_path = q\<rparr>"
  have step: "fa_repository c = fa_repository p \<and> FileEffects_contains (fa_effects p) f \<and>
      path_matches (fa_path p) q"
    if "wf_path q" "FileEffects_contains (fa_effects c) f" "path_matches (fa_path c) q" for f q
    using incl [rule_format, of "?req f q"] that by (simp add: file_matches_def)
  note self = pattern_roomy_self [OF assms(3)]
  have "FileEffects_is_subset_of (fa_effects c) (fa_effects p)"
    unfolding FileEffects_subset_iff [OF assms(1)] using step self by blast
  moreover have "path_below (fa_path c) (fa_path p)"
    unfolding path_below_exact [OF assms(3)] using step assms(2) by blast
  ultimately show "file_body_below c p"
    using step [of _ e] self assms(2) by (auto simp: file_body_below_def)
qed (auto dest: file_family.family_sound)

theorem file_delegation_exact_witness:
  "\<not> (\<forall>r. wf_path (fr_path r) \<longrightarrow> file_matches ex_authority r \<longrightarrow>
      file_matches (ex_authority\<lparr>fa_path := PathExact ex_src\<rparr>) r)"
proof -
  have "wf_effects (fa_effects ex_authority)" "FileEffects_contains (fa_effects ex_authority) ReadData"
    "pattern_roomy (fa_path ex_authority)"
    by (simp_all add: ex_authority_def wf_effects_only ex_src_def wf_path_def path_encoding_def
        path_limits segment_ok_def)
  from file_delegation_exact [OF this, of "ex_authority\<lparr>fa_path := PathExact ex_src\<rparr>"]
  show ?thesis by (simp add: file_body_below_def ex_authority_def)
qed

section \<open>Canonical names\<close>

text \<open>
  C13. \<open>CanonicalPath::new\<close> accepts a segment list exactly when every segment is non-empty, not
  \<open>.\<close> or \<open>..\<close> and free of \<open>/\<close>, NUL and \<open>*\<close>, there are at most 64 of them, and the path written
  with separators has at most 4096 bytes; the path it returns has exactly those segments.
\<close>

theorem canonical_path_exact:
  "CanonicalPath_new ss = Ok p \<longleftrightarrow>
     cp_segments p = ss \<and> list_all segment_ok ss \<and> length ss \<le> 64 \<and>
     length (join_with (CHR ''/'') ss) \<le> 4096"
  by (auto simp: CanonicalPath_new_Ok wf_path_def path_encoding_def path_limits)

text \<open>
  C14. Rebasing is exact and reversible: for valid paths, \<open>rebase\<close> returns \<open>q\<close> exactly when \<open>p\<close>
  lies at or below the source and replacing the source by the destination gives the valid path
  \<open>q\<close>; rebasing \<open>q\<close> back gives \<open>p\<close>.
\<close>

theorem rebase_exact:
  assumes "wf_path p" "wf_path src" "wf_path dst"
  shows "(CanonicalPath_rebase p src dst = Some q \<longleftrightarrow>
     wf_path q \<and> (\<exists>suf. cp_segments p = cp_segments src @ suf \<and> cp_segments q = cp_segments dst @ suf)) \<and>
    (CanonicalPath_rebase p src dst = Some q \<longrightarrow> CanonicalPath_rebase q dst src = Some p)"
  using CanonicalPath_rebase_Some [OF assms(1,3)] CanonicalPath_rebase_back [OF assms] by blast

theorem rebase_exact_witness:
  "CanonicalPath_rebase \<lparr>cp_segments = [''lib'', ''a'']\<rparr> \<lparr>cp_segments = [''lib'']\<rparr> ex_src =
     Some \<lparr>cp_segments = [''src'', ''a'']\<rparr>"
proof -
  have wf: "wf_path \<lparr>cp_segments = [''src'', ''a'']\<rparr>" "wf_path ex_src"
    "wf_path \<lparr>cp_segments = [''lib'']\<rparr>"
    by (simp_all add: wf_path_def path_encoding_def path_limits segment_ok_def ex_src_def)
  have "CanonicalPath_rebase \<lparr>cp_segments = [''src'', ''a'']\<rparr> ex_src \<lparr>cp_segments = [''lib'']\<rparr> =
      Some \<lparr>cp_segments = [''lib'', ''a'']\<rparr>"
    by (simp add: CanonicalPath_rebase_def strip_prefix_def ex_src_def path_limits
        CanonicalPath_encoded_len_def)
  with rebase_exact [OF wf] show ?thesis by blast
qed

text \<open>
  C15. Host canonicalisation is idempotent and excludes address literals: a host that
  \<open>CanonicalHost::new\<close> returns is accepted again unchanged, has at most 253 bytes in non-empty
  labels of at most 63 bytes, has no upper-case letter and no trailing dot, and is not the dotted
  form of any IPv4 address.
\<close>

theorem host_canonical:
  assumes "CanonicalHost_new s = Ok h"
  shows "CanonicalHost_new (host_str h) = Ok h \<and> length (host_str h) \<le> 253 \<and>
    list_all (\<lambda>l. l \<noteq> [] \<and> length l \<le> 63) (split_on (CHR ''.'') (host_str h)) \<and>
    list_all (\<lambda>c. \<not> is_ascii_upper c) (host_str h) \<and> last (host_str h) \<noteq> CHR ''.'' \<and>
    (\<forall>a b c d. a < 256 \<and> b < 256 \<and> c < 256 \<and> d < 256 \<longrightarrow> host_str h \<noteq> show_ipv4 a b c d)"
proof -
  from assms have wf: "wf_host h" by (simp add: CanonicalHost_new_Ok)
  then have "list_all (\<lambda>l. l \<noteq> [] \<and> length l \<le> 63) (split_on (CHR ''.'') (host_str h))"
    by (auto simp: wf_host_def list_all_iff label_ok_def)
  with wf assms show ?thesis
    using CanonicalHost_new_idem [OF wf] wf_host_last [OF wf] show_ipv4_not_host [OF _ _ _ _ assms]
    by (auto simp: wf_host_def)
qed

theorem host_canonical_witness: "CanonicalHost_new ''x.test'' = Ok (CanonicalHost ''x.test'')"
  using host_canonical [OF ex_host_new] by simp

text \<open>
  URL paths have one spelling: \<open>CanonicalUrlPath::new\<close> accepts a string exactly when it is the
  printed form of a path of at most 64 valid segments and at most 4096 bytes, and returns that
  path, so parsing and printing are inverse to each other.
\<close>

theorem url_path_roundtrip:
  "CanonicalUrlPath_new s = Ok p \<longleftrightarrow>
     s = CanonicalUrlPath_display p \<and> list_all url_segment_ok (up_segments p) \<and>
     length (up_segments p) \<le> 64 \<and> length s \<le> 4096"
  by (auto simp: CanonicalUrlPath_new_Ok wf_url_path_def MAX_CANONICAL_URL_PATH_SEGMENTS_def
      MAX_CANONICAL_URL_PATH_BYTES_def)

text \<open>
  Branch names have one spelling: \<open>BranchName::new\<close> accepts a string exactly when it is the
  printed form of a well-formed branch (no empty, dotted, \<open>.lock\<close> or control-character segment,
  no \<open>refs/\<close> prefix, \<open>..\<close>, reflog syntax or leading dash), and returns that branch.
\<close>

theorem branch_roundtrip:
  "BranchName_new s = Ok b \<longleftrightarrow>
     s = BranchName_display b \<and> bn_segments b \<noteq> [] \<and> branch_value_ok s \<and>
     list_all (\<lambda>w. branch_segment_ok w \<and> CHR ''/'' \<notin> set w) (bn_segments b)"
  by (auto simp: BranchName_new_Ok wf_branch_def)

section \<open>Policy digests\<close>

text \<open>
  C16. The canonical policy encoding is injective: if two root policies over well-formed effect,
  method and operation sets have the same digest, then they agree on the validity window, the
  authority and the delegation flag, or their two different encodings collide under SHA-256.
\<close>

theorem policy_digest_binds:
  assumes "for_root sha256 w a d = Some h" "for_root sha256 w' a' d' = Some h"
    "wf_body_bits a" "wf_body_bits a'"
  shows "(w = w' \<and> a = a' \<and> d = d') \<or>
    (\<exists>c c'. root_policy w a d = Some c \<and> root_policy w' a' d' = Some c' \<and> c \<noteq> c' \<and>
       sha256 (policy_bytes c) = sha256 (policy_bytes c'))"
proof -
  from assms(1,2) obtain c c' where c: "root_policy w a d = Some c" "root_policy w' a' d' = Some c'"
    "sha256 (policy_bytes c) = sha256 (policy_bytes c')"
    by (auto simp: for_root_def)
  show ?thesis
  proof (cases "c = c'")
    case True
    with c root_policy_inject [of w a d c w' a' d'] assms(3,4) show ?thesis by simp
  qed (use c in blast)
qed

theorem policy_digest_binds_witness:
  "for_root id ex_window ex_body True \<noteq> for_root id ex_window ex_body False"
proof
  assume eq: "for_root id ex_window ex_body True = for_root id ex_window ex_body False"
  have fits: "fits_body ex_body" "wf_body_bits ex_body"
    by (simp_all add: ex_defs fits_str_def fits_tagged_def fits_segments_def wf_effects_only)
  then obtain h where h: "for_root id ex_window ex_body False = Some h"
    by (auto simp: for_root_def root_policy_Some)
  with eq have "for_root id ex_window ex_body True = Some h" by simp
  from policy_digest_binds [OF this h fits(2) fits(2)] show False
    by (auto simp: CanonicalPolicy.expand)
qed

text \<open>
  A textual digest has one spelling: \<open>from_hex\<close> returns \<open>d\<close> exactly on the string \<open>to_hex d\<close> of a
  32-byte digest, so upper-case, shorter, longer and non-hexadecimal spellings are rejected.
\<close>

theorem digest_hex_roundtrip:
  "from_hex s = Ok d \<longleftrightarrow> length (digest_bytes d) = 32 \<and> s = to_hex d"
  by (rule from_hex_iff)

end
