(* ===== verification/Wire.thy ===== *)
theory Wire
  imports Interfaces
begin

text \<open>
  Byte-level building blocks of the durable journal and of the egress wire format: little- and
  big-endian integers, UTF-8 validation as in \<open>str::from_utf8\<close>, and readers that consume a byte slice.
\<close>

section \<open>Machine integers as bytes\<close>

definition le_bytes :: "nat \<Rightarrow> nat \<Rightarrow> bytes" where
  "le_bytes k v = rev (be_bytes k v)"

definition le_value :: "bytes \<Rightarrow> nat" where
  "le_value bs = be_value (rev bs)"

lemma length_le_bytes [simp]: "length (le_bytes k v) = k"
  by (simp add: le_bytes_def)

lemma le_value_le_bytes [simp]: "v < 256 ^ k \<Longrightarrow> le_value (le_bytes k v) = v"
  by (simp add: le_value_def le_bytes_def)

lemma le_bytes_le_value [simp]: "length bs = k \<Longrightarrow> le_bytes k (le_value bs) = bs"
  by (simp add: le_value_def le_bytes_def)

lemma le_value_less: "length bs = k \<Longrightarrow> le_value bs < 256 ^ k"
  using be_value_less [of "rev bs"] by (simp add: le_value_def)

lemma unat_less_256: "LENGTH('w) = 8 * k \<Longrightarrow> unat v < 256 ^ k" for v :: "'w::len word"
proof -
  assume "LENGTH('w) = 8 * k"
  moreover have "unat v < 2 ^ LENGTH('w)" by (rule unsigned_less)
  ultimately show ?thesis by (simp add: power_mult)
qed

lemma unat_bounds [simp]:
  "unat (v16 :: u16) < 256 ^ 2" "unat (v32 :: u32) < 256 ^ 4" "unat (v64 :: u64) < 256 ^ 8"
  by (rule unat_less_256; simp)+

lemma u64_less: "unat c < 2 ^ 64" for c :: u64
  using unat_bounds(3) [of c] by simp

definition to_le_bytes :: "'w::len word \<Rightarrow> bytes" where
  "to_le_bytes v = le_bytes (LENGTH('w) div 8) (unat v)"

definition from_le_bytes :: "bytes \<Rightarrow> 'w::len word" where
  "from_le_bytes bs = word_of_nat (le_value bs)"

lemma length_to_le_bytes [simp]: "length (to_le_bytes (v :: 'w::len word)) = LENGTH('w) div 8"
  by (simp add: to_le_bytes_def)

lemma from_to_le_bytes [simp]: "8 dvd LENGTH('w) \<Longrightarrow> from_le_bytes (to_le_bytes v) = v" for v :: "'w::len word"
  using unat_less_256 [of "LENGTH('w) div 8" v] by (simp add: from_le_bytes_def to_le_bytes_def)

lemma to_from_le_bytes [simp]:
  assumes "8 * length bs = LENGTH('w)"
  shows "to_le_bytes (from_le_bytes bs :: 'w::len word) = bs"
proof -
  have "le_value bs < 2 ^ LENGTH('w)"
    using le_value_less [of bs "length bs"] by (simp add: assms [symmetric] power_mult)
  moreover have "LENGTH('w) div 8 = length bs"
    using assms by simp
  ultimately show ?thesis
    by (simp add: to_le_bytes_def from_le_bytes_def unat_of_nat)
qed

lemma from_le_bytes_inject:
  "8 * length bs = LENGTH('w) \<Longrightarrow> from_le_bytes bs = (v :: 'w::len word) \<longleftrightarrow> bs = to_le_bytes v"
proof (rule iffI)
  assume len: "8 * length bs = LENGTH('w)"
  show "bs = to_le_bytes v" if "from_le_bytes bs = v"
    using to_from_le_bytes [OF len] that by simp
  show "from_le_bytes bs = v" if "bs = to_le_bytes v"
    unfolding that by (rule from_to_le_bytes) (metis len dvd_triv_left)
qed

definition to_be_bytes :: "'w::len word \<Rightarrow> bytes" where
  "to_be_bytes v = be_bytes (LENGTH('w) div 8) (unat v)"

definition from_be_bytes :: "bytes \<Rightarrow> 'w::len word" where
  "from_be_bytes bs = word_of_nat (be_value bs)"

lemma be_as_le: "to_be_bytes v = rev (to_le_bytes v)" "from_be_bytes bs = from_le_bytes (rev bs)"
  by (simp_all add: to_be_bytes_def to_le_bytes_def from_be_bytes_def from_le_bytes_def le_bytes_def le_value_def)

lemma length_to_be_bytes [simp]: "length (to_be_bytes (v :: 'w::len word)) = LENGTH('w) div 8"
  by (simp add: to_be_bytes_def)

lemma from_to_be_bytes [simp]: "8 dvd LENGTH('w) \<Longrightarrow> from_be_bytes (to_be_bytes v) = v" for v :: "'w::len word"
  by (simp add: be_as_le)

lemma from_be_bytes_inject:
  "8 * length bs = LENGTH('w) \<Longrightarrow> from_be_bytes bs = (v :: 'w::len word) \<longleftrightarrow> bs = to_be_bytes v"
  using from_le_bytes_inject [of "rev bs" v] by (simp add: be_as_le rev_swap)

lemma unat_from_be_bytes: "8 * length bs = LENGTH('w) \<Longrightarrow> unat (from_be_bytes bs :: 'w::len word) = be_value bs"
proof -
  assume "8 * length bs = LENGTH('w)"
  moreover have "be_value bs < 2 ^ (8 * length bs)"
    using be_value_less [of bs] by (simp add: power_mult)
  ultimately show ?thesis by (simp add: from_be_bytes_def unat_of_nat)
qed

text \<open>\<open>try_from\<close> into a machine integer.\<close>

definition narrow :: "nat \<Rightarrow> 'w::len word option" where
  "narrow n = (if n < 2 ^ LENGTH('w) then Some (word_of_nat n) else None)"

lemma narrow_Some: "narrow n = Some (v :: 'w::len word) \<longleftrightarrow> n = unat v"
  using unsigned_less [of v] by (auto simp: narrow_def unat_of_nat)

lemma narrow_unat [simp]: "narrow (unat v) = Some (v :: 'w::len word)"
  by (simp add: narrow_Some)

lemma narrow_fits:
  assumes "n < 2 ^ LENGTH('w)"
  obtains v :: "'w::len word" where "narrow n = Some v" "unat v = n"
  using assms that [of "word_of_nat n"] by (simp add: narrow_def unat_of_nat)

section \<open>UTF-8\<close>

abbreviation cont :: "u8 \<Rightarrow> bool" where
  "cont b \<equiv> 0x80 \<le> b \<and> b \<le> 0xBF"

fun utf8_valid :: "bytes \<Rightarrow> bool" where
  "utf8_valid [] \<longleftrightarrow> True"
| "utf8_valid (a # bs) \<longleftrightarrow>
     (if a < 0x80 then utf8_valid bs
      else if 0xC2 \<le> a \<and> a \<le> 0xDF then
        (case bs of b # rest \<Rightarrow> cont b \<and> utf8_valid rest | _ \<Rightarrow> False)
      else if 0xE0 \<le> a \<and> a \<le> 0xEF then
        (case bs of
           b # c # rest \<Rightarrow>
             (if a = 0xE0 then 0xA0 \<le> b \<and> b \<le> 0xBF else if a = 0xED then 0x80 \<le> b \<and> b \<le> 0x9F else cont b) \<and>
             cont c \<and> utf8_valid rest
         | _ \<Rightarrow> False)
      else if 0xF0 \<le> a \<and> a \<le> 0xF4 then
        (case bs of
           b # c # d # rest \<Rightarrow>
             (if a = 0xF0 then 0x90 \<le> b \<and> b \<le> 0xBF else if a = 0xF4 then 0x80 \<le> b \<and> b \<le> 0x8F else cont b) \<and>
             cont c \<and> cont d \<and> utf8_valid rest
         | _ \<Rightarrow> False)
      else False)"

text \<open>A Rust \<open>String\<close> always holds valid UTF-8.\<close>

definition wf_str :: "string \<Rightarrow> bool" where
  "wf_str s \<longleftrightarrow> utf8_valid (as_bytes s)"

lemma ascii_utf8: "list_all (\<lambda>b. b < 0x80) bs \<Longrightarrow> utf8_valid bs"
  by (induction bs) auto

lemma is_ascii_wf_str: "is_ascii s \<Longrightarrow> wf_str s"
proof -
  assume "is_ascii s"
  then have "list_all (\<lambda>b. b < 0x80) (as_bytes s)"
    by (auto simp: is_ascii_def as_bytes_def list_all_iff word_less_nat_alt)
  then show ?thesis by (simp add: wf_str_def ascii_utf8)
qed

definition from_utf8 :: "'e \<Rightarrow> bytes \<Rightarrow> ('e, string) result" where
  "from_utf8 e bs = (if utf8_valid bs then Ok (of_bytes bs) else Err e)"

lemma from_utf8_as_bytes [simp]: "wf_str s \<Longrightarrow> from_utf8 e (as_bytes s) = Ok s"
  by (simp add: from_utf8_def wf_str_def)

section \<open>Readers\<close>

text \<open>\<open>bytes.get(offset..offset + n)\<close> on the bytes that remain, with the rest.\<close>

definition take_bytes :: "'e \<Rightarrow> nat \<Rightarrow> bytes \<Rightarrow> ('e, bytes \<times> bytes) result" where
  "take_bytes e n bs = (if n \<le> length bs then Ok (take n bs, drop n bs) else Err e)"

lemma take_bytes_append [simp]: "length bs = n \<Longrightarrow> take_bytes e n (bs @ r) = Ok (bs, r)"
  by (simp add: take_bytes_def)

lemma take_bytes_Ok:
  "take_bytes e n bs = Ok (xs, r) \<longleftrightarrow> bs = xs @ r \<and> length xs = n"
  by (auto simp: take_bytes_def)

end
