(* ===== verification/Error_Display.thy ===== *)
theory Error_Display
  imports Capability
begin

text \<open>
  The \<open>Display\<close> texts of the validation errors of \<open>path.rs\<close>, \<open>http.rs\<close> and \<open>github.rs\<close>, which
  other components embed in their own errors.
\<close>

fun InvalidPathSegmentReason_display :: "InvalidPathSegmentReason \<Rightarrow> string" where
  "InvalidPathSegmentReason_display PathEmpty = ''must not be empty''"
| "InvalidPathSegmentReason_display PathCurrentDirectory = ''must not be `.`''"
| "InvalidPathSegmentReason_display PathParentDirectory = ''must not be `..`''"
| "InvalidPathSegmentReason_display PathContainsSeparator = ''must not contain `/`''"
| "InvalidPathSegmentReason_display PathContainsNul = ''must not contain NUL''"
| "InvalidPathSegmentReason_display PathContainsWildcard = ''must not contain `*`''"
| "InvalidPathSegmentReason_display PathTooManySegments =
     ''the canonical path must not exceed 64 segments''"
| "InvalidPathSegmentReason_display PathEncodedPathTooLong =
     ''the canonical path must not exceed 4096 encoded bytes''"

definition InvalidPathSegment_display :: "InvalidPathSegment \<Rightarrow> string" where
  "InvalidPathSegment_display e =
     ''invalid repository path segment at index '' @ show_nat (ips_index e) @ '': segment '' @
     InvalidPathSegmentReason_display (ips_reason e)"

fun InvalidCanonicalHostReason_display :: "InvalidCanonicalHostReason \<Rightarrow> string" where
  "InvalidCanonicalHostReason_display HostEmpty = ''must contain at least one DNS label''"
| "InvalidCanonicalHostReason_display HostNonAscii =
     ''must contain only ASCII; use an ASCII A-label for IDNs''"
| "InvalidCanonicalHostReason_display HostTooLong =
     ''must be at most 253 bytes after terminal-dot normalization''"
| "InvalidCanonicalHostReason_display HostEmptyLabel = ''must not contain an empty DNS label''"
| "InvalidCanonicalHostReason_display HostLabelTooLong = ''must be at most 63 bytes''"
| "InvalidCanonicalHostReason_display HostLabelEdgeHyphen = ''must not start or end with `-`''"
| "InvalidCanonicalHostReason_display HostInvalidLabelCharacter =
     ''must contain only ASCII letters, digits, or `-`''"
| "InvalidCanonicalHostReason_display HostIpAddressLiteral =
     ''must be a DNS name, not an IP address literal''"

definition InvalidCanonicalHost_display :: "InvalidCanonicalHost \<Rightarrow> string" where
  "InvalidCanonicalHost_display e = (case ich_label_index e of
     Some i \<Rightarrow> ''invalid canonical host label at index '' @ show_nat i @ '': label '' @
       InvalidCanonicalHostReason_display (ich_reason e)
   | None \<Rightarrow> ''invalid canonical host: host '' @ InvalidCanonicalHostReason_display (ich_reason e))"

fun InvalidCanonicalUrlPathReason_display :: "InvalidCanonicalUrlPathReason \<Rightarrow> string" where
  "InvalidCanonicalUrlPathReason_display UrlMissingLeadingSlash = ''must start with `/`''"
| "InvalidCanonicalUrlPathReason_display UrlTrailingSlash =
     ''must not end with `/` unless it is the root path''"
| "InvalidCanonicalUrlPathReason_display UrlNonAscii = ''must contain only ASCII''"
| "InvalidCanonicalUrlPathReason_display UrlEmptySegment = ''must not be empty''"
| "InvalidCanonicalUrlPathReason_display UrlCurrentDirectory = ''must not be `.`''"
| "InvalidCanonicalUrlPathReason_display UrlParentDirectory = ''must not be `..`''"
| "InvalidCanonicalUrlPathReason_display UrlContainsBackslash =
     ''must not contain `'' @ [CHR 0x5C] @ ''`''"
| "InvalidCanonicalUrlPathReason_display UrlContainsPercentEncoding =
     ''must not contain `%` or percent encoding''"
| "InvalidCanonicalUrlPathReason_display UrlContainsQueryDelimiter = ''must not contain `?`''"
| "InvalidCanonicalUrlPathReason_display UrlContainsFragmentDelimiter = ''must not contain `#`''"
| "InvalidCanonicalUrlPathReason_display UrlContainsControlCharacter =
     ''must not contain an ASCII control character''"
| "InvalidCanonicalUrlPathReason_display UrlContainsInvalidCharacter =
     ''must contain only RFC 3986 path characters without percent encoding''"
| "InvalidCanonicalUrlPathReason_display UrlTooManySegments =
     ''the canonical URL path must not exceed 64 segments''"
| "InvalidCanonicalUrlPathReason_display UrlEncodedPathTooLong =
     ''the canonical URL path must not exceed 4096 encoded bytes''"

definition InvalidCanonicalUrlPath_display :: "InvalidCanonicalUrlPath \<Rightarrow> string" where
  "InvalidCanonicalUrlPath_display e = (case icu_segment_index e of
     Some i \<Rightarrow> ''invalid canonical URL path segment at index '' @ show_nat i @ '': segment '' @
       InvalidCanonicalUrlPathReason_display (icu_reason e)
   | None \<Rightarrow> ''invalid canonical URL path: path '' @
       InvalidCanonicalUrlPathReason_display (icu_reason e))"

fun InvalidBranchName_display :: "InvalidBranchName \<Rightarrow> string" where
  "InvalidBranchName_display BranchEmpty = ''branch name must not be empty''"
| "InvalidBranchName_display LeadingOrTrailingSeparator =
     ''branch name must not start or end with `/`''"
| "InvalidBranchName_display FullyQualifiedReference =
     ''branch name must not use the `refs/` namespace''"
| "InvalidBranchName_display LeadingDash = ''branch name must not begin with `-`''"
| "InvalidBranchName_display ReservedAt = ''branch name must not be `@`''"
| "InvalidBranchName_display TrailingDot = ''branch name must not end with `.`''"
| "InvalidBranchName_display DoubleDot = ''branch name must not contain `..`''"
| "InvalidBranchName_display ReflogSyntax =
     ''branch name must not contain `@'' @ [CHR 0x7B] @ ''`''"
| "InvalidBranchName_display (EmptySegment i) =
     ''branch segment at index '' @ show_nat i @ '' must not be empty''"
| "InvalidBranchName_display (SegmentLeadingDot i) =
     ''branch segment at index '' @ show_nat i @ '' must not begin with `.`''"
| "InvalidBranchName_display (SegmentTrailingDot i) =
     ''branch segment at index '' @ show_nat i @ '' must not end with `.`''"
| "InvalidBranchName_display (SegmentLockSuffix i) =
     ''branch segment at index '' @ show_nat i @ '' must not end with `.lock`''"
| "InvalidBranchName_display (ForbiddenCharacter i) =
     ''branch segment at index '' @ show_nat i @
     '' contains a forbidden Git reference character''"

end
