(* ===== verification/Attempt_Payload.thy ===== *)
theory Attempt_Payload
  imports Wire Error_Display Capability_State
begin

text \<open>
  The payload grammar of the durable audit journal (\<open>durable_audit.rs\<close>): attempt metadata,
  terminal outcomes and reconciliation verdicts, each with its encoder and decoder.
  \<open>PayloadWriter\<close> is the byte buffer it wraps; \<open>PayloadReader\<close> is the slice that remains.
\<close>

section \<open>Data\<close>

datatype AttemptId = AttemptId (attempt_u64: u64)

datatype AttemptOutcome = Started | Denied | FailedBeforeCommit | Committed | CommitUnknown

record CommitReceipt =
  rc_attempt_id :: AttemptId
  rc_token :: bytes

record CommitUnknownEvidence =
  ev_attempt_id :: AttemptId
  ev_token :: bytes

datatype ReconciledCommit = ReconciledCommitted CommitReceipt | ReconciledNotCommitted

record DurableAttemptMetadata =
  am_state_instance :: u64
  am_caller :: SubjectId
  am_capability_id :: CapId
  am_authorization_epoch :: AuthorizationEpoch
  am_requests :: CapabilityRequestSet

text \<open>\<open>io::ErrorKind\<close> is named by its \<open>Debug\<close> text; it only ever comes from the operating system.\<close>

datatype DurableAuditError =
    Io string string
  | Locked
  | Symlink
  | NotRegularFile
  | PathIdentityChanged
  | WrongOwner u32 u32
  | UnsafePermissions u32
  | UnsafeParentDirectory
  | LockPoisoned
  | JournalUnavailable
  | JournalFull u64 u64
  | CapacityExceeded u64 u64 u64
  | InvalidCapacity u64 u64
  | InvalidMagic
  | UnsupportedVersion u16
  | TruncatedRecord
  | ChecksumMismatch u64
  | SequenceMismatch u64 u64
  | ReplayDetected AttemptId
  | InvalidRecord string
  | RecordTooLarge nat
  | SequenceExhausted

definition MAX_RECORD_PAYLOAD :: nat where
  "MAX_RECORD_PAYLOAD = 8 * 1024 * 1024"

definition ATTEMPT_PAYLOAD_VERSION :: u8 where
  "ATTEMPT_PAYLOAD_VERSION = 2"

definition RECONCILE_PAYLOAD_VERSION :: u8 where
  "RECONCILE_PAYLOAD_VERSION = 1"

definition RECONCILED_COMMITTED :: u8 where
  "RECONCILED_COMMITTED = 1"

definition RECONCILED_NOT_COMMITTED :: u8 where
  "RECONCILED_NOT_COMMITTED = 2"

definition MAX_COMMIT_UNKNOWN_EVIDENCE_BYTES :: nat where
  "MAX_COMMIT_UNKNOWN_EVIDENCE_BYTES = 64 * 1024"

definition MAX_COMMIT_RECEIPT_BYTES :: nat where
  "MAX_COMMIT_RECEIPT_BYTES = 64 * 1024"

lemmas payload_consts = MAX_RECORD_PAYLOAD_def ATTEMPT_PAYLOAD_VERSION_def
  RECONCILE_PAYLOAD_VERSION_def RECONCILED_COMMITTED_def RECONCILED_NOT_COMMITTED_def
  MAX_COMMIT_UNKNOWN_EVIDENCE_BYTES_def MAX_COMMIT_RECEIPT_BYTES_def

definition CommitReceipt_new :: "AttemptId \<Rightarrow> bytes \<Rightarrow> CommitReceipt" where
  "CommitReceipt_new a t = \<lparr>rc_attempt_id = a, rc_token = t\<rparr>"

definition kernel_success :: "AttemptId \<Rightarrow> CommitReceipt" where
  "kernel_success a = CommitReceipt_new a (as_bytes ''kernel-executor-returned-success'')"

section \<open>Writing and reading\<close>

definition PayloadWriter_byte :: "u8 \<Rightarrow> bytes \<Rightarrow> bytes" where
  "PayloadWriter_byte v w = w @ [v]"

definition PayloadWriter_u32 :: "u32 \<Rightarrow> bytes \<Rightarrow> bytes" where
  "PayloadWriter_u32 v w = w @ to_le_bytes v"

definition PayloadWriter_u64 :: "u64 \<Rightarrow> bytes \<Rightarrow> bytes" where
  "PayloadWriter_u64 v w = w @ to_le_bytes v"

definition PayloadWriter_string :: "string \<Rightarrow> bytes \<Rightarrow> (DurableAuditError, bytes) result" where
  "PayloadWriter_string s w =
     and_then (ok_or (RecordTooLarge (length (as_bytes s))) (narrow (length (as_bytes s)))) (\<lambda>len.
     let w = PayloadWriter_u32 len w @ as_bytes s in
     if length w > MAX_RECORD_PAYLOAD then Err (RecordTooLarge (length w)) else Ok w)"

definition PayloadWriter_bytes :: "bytes \<Rightarrow> bytes \<Rightarrow> bytes" where
  "PayloadWriter_bytes v w = w @ v"

definition invalid_payload :: "string \<Rightarrow> DurableAuditError" where
  "invalid_payload m = InvalidRecord m"

definition PayloadReader_take :: "nat \<Rightarrow> bytes \<Rightarrow> (DurableAuditError, bytes \<times> bytes) result" where
  "PayloadReader_take n bs = take_bytes (invalid_payload ''attempt payload ended early'') n bs"

definition PayloadReader_byte :: "bytes \<Rightarrow> (DurableAuditError, u8 \<times> bytes) result" where
  "PayloadReader_byte bs = and_then (PayloadReader_take 1 bs) (\<lambda>(x, bs). Ok (hd x, bs))"

definition PayloadReader_u32 :: "bytes \<Rightarrow> (DurableAuditError, u32 \<times> bytes) result" where
  "PayloadReader_u32 bs = and_then (PayloadReader_take 4 bs) (\<lambda>(x, bs). Ok (from_le_bytes x, bs))"

definition PayloadReader_u64 :: "bytes \<Rightarrow> (DurableAuditError, u64 \<times> bytes) result" where
  "PayloadReader_u64 bs = and_then (PayloadReader_take 8 bs) (\<lambda>(x, bs). Ok (from_le_bytes x, bs))"

definition PayloadReader_string :: "bytes \<Rightarrow> (DurableAuditError, string \<times> bytes) result" where
  "PayloadReader_string bs =
     and_then (PayloadReader_u32 bs) (\<lambda>(len, bs).
     and_then (PayloadReader_take (unat len) bs) (\<lambda>(x, bs).
     and_then (from_utf8 (invalid_payload ''attempt payload string is not UTF-8'') x) (\<lambda>s.
     Ok (s, bs))))"

definition PayloadReader_segments :: "bytes \<Rightarrow> (DurableAuditError, string list \<times> bytes) result" where
  "PayloadReader_segments bs =
     and_then (PayloadReader_u32 bs) (\<lambda>(count, bs). get_many PayloadReader_string (unat count) bs)"

text \<open>The count and the strings of a segment list, as every encoder writes them.\<close>

definition write_segments :: "string list \<Rightarrow> bytes \<Rightarrow> (DurableAuditError, bytes) result" where
  "write_segments ss w =
     and_then (ok_or (RecordTooLarge (length ss)) (narrow (length ss))) (\<lambda>n.
     put_all PayloadWriter_string ss (PayloadWriter_u32 n w))"

section \<open>Requests and attempts\<close>

fun encode_authority_request :: "AuthorityRequest \<Rightarrow> bytes \<Rightarrow> (DurableAuditError, bytes) result" where
  "encode_authority_request (FileReq r) w =
     and_then (PayloadWriter_string (repo_str (fr_repository r)) (PayloadWriter_byte 1 w)) (\<lambda>w.
     write_segments (cp_segments (fr_path r)) (PayloadWriter_byte (FileEffect_tag (fr_effect r)) w))"
| "encode_authority_request (HttpFetchReq r) w =
     and_then (PayloadWriter_string (host_str (hr_host r))
       (PayloadWriter_byte (word_of_nat (HttpFetchMethod_tag (hr_method r))) (PayloadWriter_byte 2 w))) (\<lambda>w.
     and_then (write_segments (up_segments (hr_path r)) w) (\<lambda>w.
     Ok (PayloadWriter_u64 (hr_max_response_bytes r) w)))"
| "encode_authority_request (GitHubReq r) w =
     and_then (PayloadWriter_string (installation_str (gr_installation r)) (PayloadWriter_byte 3 w)) (\<lambda>w.
     and_then (PayloadWriter_string (repo_str (gr_repository r)) w) (\<lambda>w.
     and_then (write_segments (bn_segments (gr_base r))
       (PayloadWriter_byte (word_of_nat (GitHubOperation_tag (gr_operation r))) w)) (\<lambda>w.
     write_segments (bn_segments (gr_head r)) w)))"

definition decode_file_effect :: "u8 \<Rightarrow> (DurableAuditError, FileEffect) result" where
  "decode_file_effect t =
     ok_or (invalid_payload (''attempt payload holds unknown file effect '' @ show_nat (unat t)))
       (FileEffect_from_tag t)"

definition decode_http_method :: "u8 \<Rightarrow> (DurableAuditError, HttpFetchMethod) result" where
  "decode_http_method t =
     (if t = 0 then Ok Get else if t = 1 then Ok Head
      else Err (invalid_payload (''attempt payload holds unknown HTTP method '' @ show_nat (unat t))))"

definition decode_github_operation :: "u8 \<Rightarrow> (DurableAuditError, GitHubOperation) result" where
  "decode_github_operation t =
     (if t = 0 then Ok PublishBranch else if t = 1 then Ok CreatePullRequest
      else Err (invalid_payload (''attempt payload holds unknown GitHub operation '' @ show_nat (unat t))))"

definition decode_url_path :: "string list \<Rightarrow> (DurableAuditError, CanonicalUrlPath) result" where
  "decode_url_path ss =
     (if ss = [] then Ok CanonicalUrlPath_root
      else map_err (\<lambda>e. invalid_payload (''attempt payload URL path: '' @ InvalidCanonicalUrlPath_display e))
        (CanonicalUrlPath_new (''/'' @ join_with (CHR ''/'') ss)))"

definition decode_branch :: "string list \<Rightarrow> (DurableAuditError, BranchName) result" where
  "decode_branch ss =
     map_err (\<lambda>e. invalid_payload (''attempt payload branch: '' @ InvalidBranchName_display e))
       (BranchName_new (join_with (CHR ''/'') ss))"

definition decode_file_request :: "bytes \<Rightarrow> (DurableAuditError, AuthorityRequest \<times> bytes) result" where
  "decode_file_request bs =
     and_then (PayloadReader_string bs) (\<lambda>(repository, bs).
     and_then (PayloadReader_byte bs) (\<lambda>(t, bs).
     and_then (decode_file_effect t) (\<lambda>effect.
     and_then (PayloadReader_segments bs) (\<lambda>(ss, bs).
     and_then (map_err (\<lambda>e. invalid_payload (''attempt payload path: '' @ InvalidPathSegment_display e))
       (CanonicalPath_new ss)) (\<lambda>path.
     Ok (FileReq \<lparr>fr_repository = RepoId repository, fr_effect = effect, fr_path = path\<rparr>, bs))))))"

definition decode_http_request :: "bytes \<Rightarrow> (DurableAuditError, AuthorityRequest \<times> bytes) result" where
  "decode_http_request bs =
     and_then (PayloadReader_byte bs) (\<lambda>(t, bs).
     and_then (decode_http_method t) (\<lambda>method.
     and_then (PayloadReader_string bs) (\<lambda>(h, bs).
     and_then (map_err (\<lambda>e. invalid_payload (''attempt payload host: '' @ InvalidCanonicalHost_display e))
       (CanonicalHost_new h)) (\<lambda>host.
     and_then (PayloadReader_segments bs) (\<lambda>(ss, bs).
     and_then (decode_url_path ss) (\<lambda>path.
     and_then (PayloadReader_u64 bs) (\<lambda>(limit, bs).
     Ok (HttpFetchReq \<lparr>hr_method = method, hr_host = host, hr_path = path,
           hr_max_response_bytes = limit\<rparr>, bs))))))))"

definition decode_github_request :: "bytes \<Rightarrow> (DurableAuditError, AuthorityRequest \<times> bytes) result" where
  "decode_github_request bs =
     and_then (PayloadReader_string bs) (\<lambda>(installation, bs).
     and_then (PayloadReader_string bs) (\<lambda>(repository, bs).
     and_then (PayloadReader_byte bs) (\<lambda>(t, bs).
     and_then (decode_github_operation t) (\<lambda>operation.
     and_then (PayloadReader_segments bs) (\<lambda>(base_segments, bs).
     and_then (decode_branch base_segments) (\<lambda>base.
     and_then (PayloadReader_segments bs) (\<lambda>(head_segments, bs).
     and_then (decode_branch head_segments) (\<lambda>head.
     Ok (GitHubReq \<lparr>gr_installation = InstallationId installation, gr_repository = RepoId repository,
           gr_operation = operation, gr_base = base, gr_head = head\<rparr>, bs)))))))))"

definition decode_authority_request :: "bytes \<Rightarrow> (DurableAuditError, AuthorityRequest \<times> bytes) result" where
  "decode_authority_request bs =
     and_then (PayloadReader_byte bs) (\<lambda>(t, bs).
     if t = 1 then decode_file_request bs
     else if t = 2 then decode_http_request bs
     else if t = 3 then decode_github_request bs
     else Err (invalid_payload (''attempt payload holds unknown authority tag '' @ show_nat (unat t))))"

text \<open>One iteration of the request loops of \<open>encode_attempt_payload\<close> and \<open>decode_attempt_payload\<close>.\<close>

definition encode_request :: "CapabilityRequest \<Rightarrow> bytes \<Rightarrow> (DurableAuditError, bytes) result" where
  "encode_request r w = encode_authority_request (cr_authority r) (PayloadWriter_u64 (ticks (cr_time r)) w)"

definition decode_request :: "bytes \<Rightarrow> (DurableAuditError, CapabilityRequest \<times> bytes) result" where
  "decode_request bs =
     and_then (PayloadReader_u64 bs) (\<lambda>(time, bs).
     and_then (decode_authority_request bs) (\<lambda>(authority, bs).
     Ok (\<lparr>cr_time = MonotonicTime time, cr_authority = authority\<rparr>, bs)))"

definition encode_attempt_payload ::
    "u64 \<Rightarrow> SubjectId \<Rightarrow> CapId \<Rightarrow> CapabilityRequestSet \<Rightarrow> AuthorizationEpoch \<Rightarrow>
     (DurableAuditError, bytes) result" where
  "encode_attempt_payload state_instance caller capability_id requests epoch =
     (if \<not> rs_complete requests then
        Err (InvalidRecord (''effect request set exceeds the '' @ show_nat MAX_REQUESTS_PER_EFFECT @
          ''-request limit''))
      else
        let w = PayloadWriter_u64 state_instance (PayloadWriter_byte ATTEMPT_PAYLOAD_VERSION []);
            rs = CapabilityRequestSet_iter requests in
        and_then (PayloadWriter_string (subject_str caller) w) (\<lambda>w.
        and_then (PayloadWriter_string (cap_str capability_id) w) (\<lambda>w.
        and_then (ok_or (RecordTooLarge (length rs)) (narrow (length rs))) (\<lambda>n.
        and_then (put_all encode_request rs
          (PayloadWriter_u32 n (PayloadWriter_u64 (epoch_u64 epoch) w))) (\<lambda>payload.
        if length payload > MAX_RECORD_PAYLOAD then Err (RecordTooLarge (length payload))
        else Ok payload)))))"

definition decode_attempt_payload :: "bytes \<Rightarrow> (DurableAuditError, DurableAttemptMetadata) result" where
  "decode_attempt_payload payload =
     and_then (PayloadReader_byte payload) (\<lambda>(version, bs).
     and_then (if version = 1 then Ok (0, bs) else if version = 2 then PayloadReader_u64 bs
       else Err (invalid_payload (''unsupported attempt payload version '' @ show_nat (unat version)))) (\<lambda>(state_instance, bs).
     and_then (PayloadReader_string bs) (\<lambda>(caller, bs).
     and_then (PayloadReader_string bs) (\<lambda>(capability_id, bs).
     and_then (PayloadReader_u64 bs) (\<lambda>(epoch, bs).
     and_then (PayloadReader_u32 bs) (\<lambda>(count, bs).
     if count = 0 then Err (invalid_payload ''attempt payload authorized no request'')
     else if unat count > MAX_REQUESTS_PER_EFFECT then
       Err (InvalidRecord (''attempt payload exceeds the '' @ show_nat MAX_REQUESTS_PER_EFFECT @ ''-request limit''))
     else
       and_then (get_many decode_request (unat count) bs) (\<lambda>(requests, bs).
       if bs \<noteq> [] then Err (invalid_payload ''attempt payload has trailing bytes'')
       else (case requests of
         [] \<Rightarrow> Err (invalid_payload ''attempt payload authorized no request'')
       | first # rest \<Rightarrow>
           Ok \<lparr>am_state_instance = state_instance, am_caller = SubjectId caller,
               am_capability_id = CapId capability_id,
               am_authorization_epoch = AuthorizationEpoch epoch,
               am_requests = CapabilityRequestSet_new first rest\<rparr>))))))))"

section \<open>Terminal outcomes\<close>

fun outcome_code :: "AttemptOutcome \<Rightarrow> u8" where
  "outcome_code Started = 0"
| "outcome_code Denied = 1"
| "outcome_code FailedBeforeCommit = 2"
| "outcome_code Committed = 3"
| "outcome_code CommitUnknown = 4"

definition decode_outcome :: "u8 \<Rightarrow> (DurableAuditError, AttemptOutcome) result" where
  "decode_outcome c =
     (if c = 1 then Ok Denied
      else if c = 2 then Ok FailedBeforeCommit
      else if c = 3 then Ok Committed
      else if c = 4 then Ok CommitUnknown
      else Err (InvalidRecord ''unknown terminal outcome''))"

definition validate_commit_unknown_token :: "bytes \<Rightarrow> (DurableAuditError, unit) result" where
  "validate_commit_unknown_token t =
     (if t = [] then Err (InvalidRecord ''CommitUnknown evidence cannot be empty'')
      else if length t > MAX_COMMIT_UNKNOWN_EVIDENCE_BYTES then Err (RecordTooLarge (length t))
      else Ok ())"

definition CommitUnknownEvidence_new ::
    "AttemptId \<Rightarrow> bytes \<Rightarrow> (DurableAuditError, CommitUnknownEvidence) result" where
  "CommitUnknownEvidence_new a t =
     and_then (validate_commit_unknown_token t) (\<lambda>_. Ok \<lparr>ev_attempt_id = a, ev_token = t\<rparr>)"

definition validate_receipt :: "AttemptId \<Rightarrow> CommitReceipt option \<Rightarrow> (DurableAuditError, unit) result" where
  "validate_receipt a receipt = (case receipt of
     None \<Rightarrow> Ok ()
   | Some r \<Rightarrow>
       if rc_attempt_id r \<noteq> a then Err (InvalidRecord ''commit receipt belongs to another attempt'')
       else if rc_token r = [] then Err (InvalidRecord ''commit receipt token cannot be empty'')
       else if length (rc_token r) > MAX_COMMIT_RECEIPT_BYTES then Err (RecordTooLarge (length (rc_token r)))
       else Ok ())"

definition validate_evidence ::
    "AttemptId \<Rightarrow> CommitUnknownEvidence option \<Rightarrow> (DurableAuditError, unit) result" where
  "validate_evidence a evidence = (case evidence of
     None \<Rightarrow> Ok ()
   | Some e \<Rightarrow>
       if ev_attempt_id e \<noteq> a then
         Err (InvalidRecord ''commit-unknown evidence belongs to another attempt'')
       else validate_commit_unknown_token (ev_token e))"

definition validate_finish ::
    "AttemptOutcome \<Rightarrow> CommitReceipt option \<Rightarrow> CommitUnknownEvidence option \<Rightarrow> AttemptId \<Rightarrow>
     (DurableAuditError, unit) result" where
  "validate_finish outcome receipt evidence a =
     and_then (validate_receipt a receipt) (\<lambda>_.
     and_then (validate_evidence a evidence) (\<lambda>_.
     case outcome of
       Started \<Rightarrow> Err (InvalidRecord ''Started is not a terminal outcome'')
     | Committed \<Rightarrow>
         if receipt \<noteq> None \<and> evidence = None then Ok ()
         else Err (InvalidRecord ''Committed requires only a commit receipt'')
     | CommitUnknown \<Rightarrow>
         if receipt = None \<and> evidence \<noteq> None then Ok ()
         else Err (InvalidRecord ''CommitUnknown requires only bounded ambiguity evidence'')
     | _ \<Rightarrow>
         if receipt = None \<and> evidence = None then Ok ()
         else Err (InvalidRecord ''Denied and FailedBeforeCommit cannot carry terminal evidence'')))"

definition encode_finish_payload ::
    "AttemptId \<Rightarrow> AttemptOutcome \<Rightarrow> CommitReceipt option \<Rightarrow> CommitUnknownEvidence option \<Rightarrow>
     (DurableAuditError, bytes) result" where
  "encode_finish_payload a outcome receipt evidence =
     and_then (validate_finish outcome receipt evidence a) (\<lambda>_.
     let payload = [outcome_code outcome];
         token = (case receipt of Some r \<Rightarrow> Some (rc_token r) | None \<Rightarrow> map_option ev_token evidence) in
     case token of
       None \<Rightarrow> Ok payload
     | Some t \<Rightarrow>
         and_then (ok_or (RecordTooLarge (length t)) (narrow (length t))) (\<lambda>n :: u32.
         Ok (payload @ to_le_bytes n @ t)))"

definition decode_finish_payload ::
    "bytes \<Rightarrow> AttemptId \<Rightarrow>
     (DurableAuditError, AttemptOutcome \<times> CommitReceipt option \<times> CommitUnknownEvidence option) result" where
  "decode_finish_payload payload a = (case payload of
     [] \<Rightarrow> Err (InvalidRecord ''empty finish payload'')
   | code # rest \<Rightarrow>
       and_then (decode_outcome code) (\<lambda>outcome.
       if outcome = Committed \<or> outcome = CommitUnknown then
         if length rest < 4 then Err TruncatedRecord
         else
           let token_length = unat (from_le_bytes (take 4 rest) :: u32);
               token_limit = (if outcome = Committed then MAX_COMMIT_RECEIPT_BYTES
                              else MAX_COMMIT_UNKNOWN_EVIDENCE_BYTES) in
           if token_length = 0 then
             Err (InvalidRecord (if outcome = Committed then ''commit receipt token cannot be empty''
               else ''CommitUnknown evidence cannot be empty''))
           else if token_length > token_limit then Err (RecordTooLarge token_length)
           else if length rest \<noteq> 4 + token_length then
             Err (InvalidRecord ''terminal evidence length does not match finish payload'')
           else if outcome = Committed then
             Ok (outcome, Some (CommitReceipt_new a (drop 4 rest)), None)
           else
             and_then (CommitUnknownEvidence_new a (drop 4 rest)) (\<lambda>e. Ok (outcome, None, Some e))
       else if rest \<noteq> [] then Err (InvalidRecord ''non-committed finish payload has trailing bytes'')
       else Ok (outcome, None, None)))"

section \<open>Reconciliation verdicts\<close>

definition encode_reconcile_payload :: "ReconciledCommit \<Rightarrow> (DurableAuditError, bytes) result" where
  "encode_reconcile_payload verdict =
     and_then
       (case verdict of
          ReconciledCommitted r \<Rightarrow>
            let w = PayloadWriter_u64 (attempt_u64 (rc_attempt_id r))
                      (PayloadWriter_byte RECONCILED_COMMITTED (PayloadWriter_byte RECONCILE_PAYLOAD_VERSION []));
                token = rc_token r in
            and_then (ok_or (RecordTooLarge (length token)) (narrow (length token))) (\<lambda>n.
            Ok (PayloadWriter_bytes token (PayloadWriter_u32 n w)))
        | ReconciledNotCommitted \<Rightarrow>
            Ok (PayloadWriter_byte RECONCILED_NOT_COMMITTED (PayloadWriter_byte RECONCILE_PAYLOAD_VERSION []))) (\<lambda>payload.
     if length payload > MAX_RECORD_PAYLOAD then Err (RecordTooLarge (length payload)) else Ok payload)"

definition decode_reconcile_payload :: "bytes \<Rightarrow> AttemptId \<Rightarrow> (DurableAuditError, ReconciledCommit) result" where
  "decode_reconcile_payload payload a =
     and_then (PayloadReader_byte payload) (\<lambda>(version, bs).
     if version \<noteq> RECONCILE_PAYLOAD_VERSION then
       Err (invalid_payload (''unsupported reconciliation payload version '' @ show_nat (unat version)))
     else
       and_then (PayloadReader_byte bs) (\<lambda>(t, bs).
       and_then
         (if t = RECONCILED_COMMITTED then
            and_then (PayloadReader_u64 bs) (\<lambda>(recorded, bs).
            if AttemptId recorded \<noteq> a then
              Err (invalid_payload ''reconciled receipt belongs to another attempt'')
            else
              and_then (PayloadReader_u32 bs) (\<lambda>(n, bs).
              and_then (PayloadReader_take (unat n) bs) (\<lambda>(token, bs).
              if token = [] then Err (invalid_payload ''reconciled receipt token is empty'')
              else Ok (ReconciledCommitted (CommitReceipt_new a token), bs))))
          else if t = RECONCILED_NOT_COMMITTED then Ok (ReconciledNotCommitted, bs)
          else Err (invalid_payload (''unknown reconciliation verdict '' @ show_nat (unat t)))) (\<lambda>(verdict, bs).
       if bs \<noteq> [] then Err (invalid_payload ''reconciliation payload has trailing bytes'')
       else Ok verdict)))"

end
