(* ===== verification/Durable_Audit.thy ===== *)
theory Durable_Audit
  imports Attempt_Payload
begin

text \<open>
  The write-ahead log of authorization attempts (\<open>DurableAuditLog\<close> of \<open>durable_audit.rs\<close>).
  The file is its byte contents, which only this writer changes while it holds the exclusive lock.
  What the operating system reports during an append (directory, lock and identity checks before
  and after, a write or sync failure with the number of bytes that reached the file) is the
  argument \<open>io\<close> of each operation.
\<close>

section \<open>State\<close>

instantiation AttemptId :: linorder
begin

definition less_eq_AttemptId :: "AttemptId \<Rightarrow> AttemptId \<Rightarrow> bool" where
  "less_eq_AttemptId s t \<longleftrightarrow> attempt_u64 s \<le> attempt_u64 t"

definition less_AttemptId :: "AttemptId \<Rightarrow> AttemptId \<Rightarrow> bool" where
  "less_AttemptId s t \<longleftrightarrow> attempt_u64 s < attempt_u64 t"

instance
  by standard (auto simp: less_eq_AttemptId_def less_AttemptId_def intro: AttemptId.expand)

end

record DurableAttemptState =
  da_attempt_id :: AttemptId
  da_start_sequence :: u64
  da_payload :: bytes
  da_outcome :: AttemptOutcome
  da_finish_sequence :: "u64 option"
  da_receipt :: "CommitReceipt option"
  da_commit_unknown_evidence :: "CommitUnknownEvidence option"
  da_reconciliation :: "ReconciledCommit option"

type_synonym attempts = "(AttemptId, DurableAttemptState) fmap"

record DurableState =
  ds_file :: bytes
  ds_next_sequence :: "u64 option"
  ds_attempts :: attempts
  ds_unusable :: bool
  ds_length :: u64
  ds_capacity :: u64

text \<open>What the operating system reports around one append.\<close>

record AppendIo =
  io_before :: "DurableAuditError option"
  io_write :: "(DurableAuditError \<times> nat) option"
  io_after :: "DurableAuditError option"

definition io_ok :: AppendIo where
  "io_ok = \<lparr>io_before = None, io_write = None, io_after = None\<rparr>"

definition MAGIC :: bytes where
  "MAGIC = as_bytes ''AUTHWAL1''"

definition VERSION :: u16 where
  "VERSION = 1"

definition START_KIND :: u8 where
  "START_KIND = 1"

definition FINISH_KIND :: u8 where
  "FINISH_KIND = 2"

definition RECONCILE_KIND :: u8 where
  "RECONCILE_KIND = 3"

definition HEADER_LEN :: nat where
  "HEADER_LEN = 8 + 2 + 1 + 1 + 8 + 8 + 4"

definition CHECKSUM_LEN :: nat where
  "CHECKSUM_LEN = 8"

definition MAX_JOURNAL_BYTES :: u64 where
  "MAX_JOURNAL_BYTES = 128 * 1024 * 1024"

lemmas kind_defs = START_KIND_def FINISH_KIND_def RECONCILE_KIND_def

lemmas frame_consts = MAGIC_def VERSION_def HEADER_LEN_def CHECKSUM_LEN_def

definition checksum :: "bytes \<Rightarrow> u64" where
  "checksum bs = fold (\<lambda>b h. (h XOR ucast b) * 0x100000001b3) bs 0xcbf29ce484222325"

definition validate_capacity :: "u64 \<Rightarrow> (DurableAuditError, unit) result" where
  "validate_capacity c = (if c > MAX_JOURNAL_BYTES then Err (InvalidCapacity c MAX_JOURNAL_BYTES) else Ok ())"

definition capacity_exceeded :: "u64 \<Rightarrow> u64 \<Rightarrow> DurableAuditError" where
  "capacity_exceeded current capacity = CapacityExceeded current current capacity"

definition file_len :: "bytes \<Rightarrow> u64" where
  "file_len bs = word_of_nat (length bs)"

section \<open>Appending\<close>

definition validate_append_target ::
    "DurableAuditError option \<Rightarrow> DurableState \<Rightarrow> u64 \<Rightarrow> (DurableAuditError, unit) result" where
  "validate_append_target probe s expected = (case probe of
     Some e \<Rightarrow> Err e
   | None \<Rightarrow>
       let actual = file_len (ds_file s) in
       if actual > ds_capacity s then Err (capacity_exceeded actual (ds_capacity s))
       else if actual \<noteq> expected then
         Err (InvalidRecord (''journal length changed outside the exclusive writer: expected '' @
           show_nat (unat expected) @ '', got '' @ show_nat (unat actual)))
       else Ok ())"

definition frame_body :: "u64 \<Rightarrow> u8 \<Rightarrow> AttemptId \<Rightarrow> u32 \<Rightarrow> bytes \<Rightarrow> bytes" where
  "frame_body sequence kind a payload_length payload =
     MAGIC @ to_le_bytes VERSION @ [kind, 0] @ to_le_bytes sequence @ to_le_bytes (attempt_u64 a) @
     to_le_bytes payload_length @ payload"

definition frame_bytes :: "u64 \<Rightarrow> u8 \<Rightarrow> AttemptId \<Rightarrow> u32 \<Rightarrow> bytes \<Rightarrow> bytes" where
  "frame_bytes sequence kind a payload_length payload =
     (let body = frame_body sequence kind a payload_length payload in body @ to_le_bytes (checksum body))"

definition append_frame ::
    "AppendIo \<Rightarrow> u64 \<Rightarrow> u8 \<Rightarrow> AttemptId \<Rightarrow> bytes \<Rightarrow> DurableState \<Rightarrow>
     (DurableAuditError, unit) result \<times> DurableState" where
  "append_frame io sequence kind a payload s =
     (case validate_append_target (io_before io) s (ds_length s) of
       Err e \<Rightarrow> (Err e, s\<lparr>ds_unusable := True\<rparr>)
     | Ok _ \<Rightarrow>
         if length payload > MAX_RECORD_PAYLOAD then (Err (RecordTooLarge (length payload)), s)
         else (case narrow (length payload) of
           None \<Rightarrow> (Err (RecordTooLarge (length payload)), s)
         | Some payload_length \<Rightarrow>
             let frame = frame_bytes sequence kind a payload_length payload in
             (case narrow (length frame) of
               None \<Rightarrow> (Err (RecordTooLarge (length frame)), s)
             | Some frame_length \<Rightarrow>
                 (case checked_add (ds_length s) frame_length of
                   None \<Rightarrow> (Err (CapacityExceeded (ds_length s) (- 1) (ds_capacity s)), s)
                 | Some new_length \<Rightarrow>
                     if new_length > ds_capacity s then
                       (Err (CapacityExceeded (ds_length s) new_length (ds_capacity s)), s)
                     else (case io_write io of
                       Some (e, n) \<Rightarrow>
                         (Err e, s\<lparr>ds_file := ds_file s @ take n frame, ds_unusable := True\<rparr>)
                     | None \<Rightarrow>
                         let s = s\<lparr>ds_file := ds_file s @ frame\<rparr> in
                         (case validate_append_target (io_after io) s new_length of
                           Err e \<Rightarrow> (Err e, s\<lparr>ds_unusable := True\<rparr>)
                         | Ok _ \<Rightarrow> (Ok (), s\<lparr>ds_length := new_length\<rparr>)))))))"

definition next_sequence :: "DurableState \<Rightarrow> (DurableAuditError, u64) result" where
  "next_sequence s = ok_or SequenceExhausted (ds_next_sequence s)"

text \<open>Appending the frame of the next sequence number, then updating the attempts.\<close>

definition append_and_record ::
    "AppendIo \<Rightarrow> u8 \<Rightarrow> AttemptId \<Rightarrow> bytes \<Rightarrow> (u64 \<Rightarrow> attempts \<Rightarrow> attempts) \<Rightarrow> DurableState \<Rightarrow>
     (DurableAuditError, unit) result \<times> DurableState" where
  "append_and_record io kind a payload update s = (case next_sequence s of
     Err e \<Rightarrow> (Err e, s)
   | Ok sequence \<Rightarrow>
       (case append_frame io sequence kind a payload s of
         (Err e, s) \<Rightarrow> (Err e, s)
       | (Ok _, s) \<Rightarrow>
           (Ok (), s\<lparr>ds_attempts := update sequence (ds_attempts s),
                     ds_next_sequence := checked_add sequence 1\<rparr>)))"

definition started_attempt :: "AttemptId \<Rightarrow> bytes \<Rightarrow> u64 \<Rightarrow> DurableAttemptState" where
  "started_attempt a payload sequence =
     \<lparr>da_attempt_id = a, da_start_sequence = sequence, da_payload = payload, da_outcome = Started,
      da_finish_sequence = None, da_receipt = None, da_commit_unknown_evidence = None,
      da_reconciliation = None\<rparr>"

definition finished_attempt ::
    "AttemptOutcome \<Rightarrow> CommitReceipt option \<Rightarrow> CommitUnknownEvidence option \<Rightarrow> u64 \<Rightarrow>
     DurableAttemptState \<Rightarrow> DurableAttemptState" where
  "finished_attempt outcome receipt evidence sequence x =
     x\<lparr>da_outcome := outcome, da_finish_sequence := Some sequence, da_receipt := receipt,
       da_commit_unknown_evidence := evidence\<rparr>"

definition begin_attempt ::
    "AppendIo \<Rightarrow> u64 \<Rightarrow> AttemptId \<Rightarrow> SubjectId \<Rightarrow> CapId \<Rightarrow> CapabilityRequestSet \<Rightarrow> AuthorizationEpoch \<Rightarrow>
     DurableState \<Rightarrow> (DurableAuditError, unit) result \<times> DurableState" where
  "begin_attempt io state_instance a caller capability_id requests epoch s =
     (case encode_attempt_payload state_instance caller capability_id requests epoch of
       Err e \<Rightarrow> (Err e, s)
     | Ok payload \<Rightarrow>
         if ds_unusable s then (Err JournalUnavailable, s)
         else if fmlookup (ds_attempts s) a \<noteq> None then (Err (ReplayDetected a), s)
         else append_and_record io START_KIND a payload
                (\<lambda>sequence m. fmupd a (started_attempt a payload sequence) m) s)"

definition finish_attempt ::
    "AppendIo \<Rightarrow> AttemptId \<Rightarrow> AttemptOutcome \<Rightarrow> CommitReceipt option \<Rightarrow> CommitUnknownEvidence option \<Rightarrow>
     DurableState \<Rightarrow> (DurableAuditError, unit) result \<times> DurableState" where
  "finish_attempt io a outcome receipt evidence s =
     (case encode_finish_payload a outcome receipt evidence of
       Err e \<Rightarrow> (Err e, s)
     | Ok payload \<Rightarrow>
         if ds_unusable s then (Err JournalUnavailable, s)
         else (case fmlookup (ds_attempts s) a of
           None \<Rightarrow> (Err (ReplayDetected a), s)
         | Some x \<Rightarrow>
             if da_outcome x \<noteq> Started then (Err (ReplayDetected a), s)
             else append_and_record io FINISH_KIND a payload
                    (\<lambda>sequence m. fmupd a (finished_attempt outcome receipt evidence sequence x) m) s))"

definition reconcile_attempt ::
    "AppendIo \<Rightarrow> AttemptId \<Rightarrow> ReconciledCommit \<Rightarrow> DurableState \<Rightarrow>
     (DurableAuditError, unit) result \<times> DurableState" where
  "reconcile_attempt io a verdict s =
     (if (case verdict of ReconciledCommitted r \<Rightarrow> rc_attempt_id r \<noteq> a | ReconciledNotCommitted \<Rightarrow> False) then
        (Err (InvalidRecord ''reconciled receipt belongs to another attempt''), s)
      else (case encode_reconcile_payload verdict of
        Err e \<Rightarrow> (Err e, s)
      | Ok payload \<Rightarrow>
          if ds_unusable s then (Err JournalUnavailable, s)
          else (case fmlookup (ds_attempts s) a of
            None \<Rightarrow> (Err (ReplayDetected a), s)
          | Some x \<Rightarrow>
              if da_outcome x \<noteq> CommitUnknown then
                (Err (InvalidRecord ''only an unknown commit can be reconciled''), s)
              else if da_reconciliation x \<noteq> None then (Err (ReplayDetected a), s)
              else append_and_record io RECONCILE_KIND a payload
                     (\<lambda>_ m. fmupd a (x\<lparr>da_reconciliation := Some verdict\<rparr>) m) s)))"

section \<open>Parsing\<close>

definition read_byte :: "bytes \<Rightarrow> (DurableAuditError, u8 \<times> bytes) result" where
  "read_byte bs = and_then (take_bytes TruncatedRecord 1 bs) (\<lambda>(x, bs). Ok (hd x, bs))"

definition read_u16 :: "bytes \<Rightarrow> (DurableAuditError, u16 \<times> bytes) result" where
  "read_u16 bs = and_then (take_bytes TruncatedRecord 2 bs) (\<lambda>(x, bs). Ok (from_le_bytes x, bs))"

definition read_u32 :: "bytes \<Rightarrow> (DurableAuditError, u32 \<times> bytes) result" where
  "read_u32 bs = and_then (take_bytes TruncatedRecord 4 bs) (\<lambda>(x, bs). Ok (from_le_bytes x, bs))"

definition read_u64 :: "bytes \<Rightarrow> (DurableAuditError, u64 \<times> bytes) result" where
  "read_u64 bs = and_then (take_bytes TruncatedRecord 8 bs) (\<lambda>(x, bs). Ok (from_le_bytes x, bs))"

text \<open>The first part of the loop body of \<open>parse_journal\<close>: one frame off the remaining bytes.\<close>

definition parse_frame ::
    "u64 \<Rightarrow> bytes \<Rightarrow> (DurableAuditError, (u8 \<times> AttemptId \<times> bytes) \<times> bytes) result" where
  "parse_frame expected frame =
     (if length frame < HEADER_LEN + CHECKSUM_LEN then Err TruncatedRecord
      else if take (length MAGIC) frame \<noteq> MAGIC then Err InvalidMagic
      else
        and_then (read_u16 (drop (length MAGIC) frame)) (\<lambda>(version, bs).
        if version \<noteq> VERSION then Err (UnsupportedVersion version) else
        and_then (read_byte bs) (\<lambda>(kind, bs).
        and_then (read_byte bs) (\<lambda>(reserved, bs).
        if reserved \<noteq> 0 then Err (InvalidRecord ''reserved frame bits are non-zero'') else
        and_then (read_u64 bs) (\<lambda>(sequence, bs).
        if sequence \<noteq> expected then Err (SequenceMismatch expected sequence) else
        and_then (read_u64 bs) (\<lambda>(a, bs).
        and_then (read_u32 bs) (\<lambda>(n, bs).
        let payload_length = unat n in
        if payload_length > MAX_RECORD_PAYLOAD then Err (RecordTooLarge payload_length)
        else if length frame < HEADER_LEN + payload_length + CHECKSUM_LEN then Err TruncatedRecord
        else
          and_then (read_u64 (drop payload_length bs)) (\<lambda>(stored_checksum, rest).
          if checksum (take (HEADER_LEN + payload_length) frame) \<noteq> stored_checksum then
            Err (ChecksumMismatch sequence)
          else Ok ((kind, AttemptId a, take payload_length bs), rest)))))))))"

definition apply_reconcile_frame ::
    "attempts \<Rightarrow> AttemptId \<Rightarrow> bytes \<Rightarrow> (DurableAuditError, attempts) result" where
  "apply_reconcile_frame m a payload =
     and_then (decode_reconcile_payload payload a) (\<lambda>verdict.
     case fmlookup m a of
       None \<Rightarrow> Err (ReplayDetected a)
     | Some x \<Rightarrow>
         if da_outcome x \<noteq> CommitUnknown then
           Err (InvalidRecord ''only an unknown commit can be reconciled'')
         else if da_reconciliation x \<noteq> None then Err (ReplayDetected a)
         else Ok (fmupd a (x\<lparr>da_reconciliation := Some verdict\<rparr>) m))"

text \<open>The second part: the transition that the frame records.\<close>

definition apply_frame ::
    "u64 \<Rightarrow> u8 \<times> AttemptId \<times> bytes \<Rightarrow> attempts \<Rightarrow> (DurableAuditError, attempts) result" where
  "apply_frame sequence = (\<lambda>(kind, a, payload) m.
     if kind = START_KIND then
       if fmlookup m a \<noteq> None then Err (ReplayDetected a)
       else Ok (fmupd a (started_attempt a payload sequence) m)
     else if kind = FINISH_KIND then
       and_then (decode_finish_payload payload a) (\<lambda>(outcome, receipt, evidence).
       case fmlookup m a of
         None \<Rightarrow> Err (ReplayDetected a)
       | Some x \<Rightarrow>
           if da_outcome x \<noteq> Started then Err (ReplayDetected a)
           else Ok (fmupd a (finished_attempt outcome receipt evidence sequence x) m))
     else if kind = RECONCILE_KIND then apply_reconcile_frame m a payload
     else Err (InvalidRecord ''unknown journal record kind''))"

lemma take_bytes_length: "take_bytes e n bs = Ok (x, r) \<Longrightarrow> length r \<le> length bs"
  by (auto simp: take_bytes_Ok)

lemma read_length:
  "read_byte bs = Ok (b, r) \<Longrightarrow> length r \<le> length bs"
  "read_u16 bs = Ok (w16, r) \<Longrightarrow> length r \<le> length bs"
  "read_u32 bs = Ok (w32, r) \<Longrightarrow> length r \<le> length bs"
  "read_u64 bs = Ok (w64, r) \<Longrightarrow> length r \<le> length bs"
  by (auto simp: read_byte_def read_u16_def read_u32_def read_u64_def and_then_Ok take_bytes_Ok)

lemma parse_frame_length: "parse_frame e bs = Ok (f, r) \<Longrightarrow> length r < length bs"
  by (auto simp: parse_frame_def and_then_Ok Let_def frame_consts split: if_splits
      dest!: read_length)

function parse_loop :: "u64 \<Rightarrow> attempts \<Rightarrow> bytes \<Rightarrow> (DurableAuditError, u64 option \<times> attempts) result" where
  "parse_loop expected m bs =
     (if bs = [] then Ok (Some expected, m)
      else
        and_then (parse_frame expected bs) (\<lambda>(f, rest).
        and_then (apply_frame expected f m) (\<lambda>m.
        and_then (ok_or SequenceExhausted (checked_add expected 1)) (\<lambda>expected.
        parse_loop expected m rest))))"
  by auto
termination
  by (relation "measure (\<lambda>(_, _, bs). length bs)") (auto dest: parse_frame_length)

declare parse_loop.simps [simp del]

definition parse_journal ::
    "bytes \<Rightarrow> u64 \<Rightarrow> (DurableAuditError, u64 option \<times> attempts) result" where
  "parse_journal bs maximum_length =
     (if file_len bs > maximum_length then Err (capacity_exceeded (file_len bs) maximum_length)
      else parse_loop 0 fmempty bs)"

section \<open>Opening\<close>

text \<open>\<open>probe\<close> is what the path, lock and identity checks report.\<close>

definition create_with_max_bytes ::
    "DurableAuditError option \<Rightarrow> u64 \<Rightarrow> (DurableAuditError, DurableState) result" where
  "create_with_max_bytes probe max_bytes =
     and_then (validate_capacity max_bytes) (\<lambda>_.
     case probe of
       Some e \<Rightarrow> Err e
     | None \<Rightarrow>
         Ok \<lparr>ds_file = [], ds_next_sequence = Some 0, ds_attempts = fmempty, ds_unusable = False,
             ds_length = 0, ds_capacity = max_bytes\<rparr>)"

definition open_with_max_bytes ::
    "DurableAuditError option \<Rightarrow> bytes \<Rightarrow> u64 \<Rightarrow> (DurableAuditError, DurableState) result" where
  "open_with_max_bytes probe file max_bytes =
     and_then (validate_capacity max_bytes) (\<lambda>_.
     case probe of
       Some e \<Rightarrow> Err e
     | None \<Rightarrow>
         if file_len file > max_bytes then Err (capacity_exceeded (file_len file) max_bytes)
         else
           and_then (parse_journal file max_bytes) (\<lambda>(next, m).
           Ok \<lparr>ds_file = file, ds_next_sequence = next, ds_attempts = m, ds_unusable = False,
               ds_length = file_len file, ds_capacity = max_bytes\<rparr>))"

section \<open>Reading\<close>

definition log_next_attempt_sequence :: "attempts \<Rightarrow> u64 option" where
  "log_next_attempt_sequence m =
     (if m = fmempty then Some 0 else checked_add (attempt_u64 (fMax (fmdom m))) 1)"

definition DurableAuditLog_next_attempt_sequence :: "DurableState \<Rightarrow> (DurableAuditError, u64 option) result" where
  "DurableAuditLog_next_attempt_sequence s =
     (if ds_unusable s then Err JournalUnavailable else Ok (log_next_attempt_sequence (ds_attempts s)))"

definition DurableAuditLog_attempts :: "DurableState \<Rightarrow> (DurableAuditError, DurableAttemptState list) result" where
  "DurableAuditLog_attempts s =
     (if ds_unusable s then Err JournalUnavailable
      else Ok (map (\<lambda>a. the (fmlookup (ds_attempts s) a)) (sorted_list_of_fset (fmdom (ds_attempts s)))))"

end
