(* ===== verification/Audit_Trail.thy ===== *)
theory Audit_Trail
  imports Durable_Audit
begin

text \<open>
  The audit trail of a session (\<open>audit.rs\<close>): attempt journals in memory, mirrored by an optional
  durable log. An \<open>AttemptGuard\<close> is the position of its journal in the trail; the atomic outcome
  byte of a journal is its numeric code.
\<close>

section \<open>Data\<close>

definition AttemptOutcome_code :: "AttemptOutcome \<Rightarrow> u8" where
  "AttemptOutcome_code x = (case x of
     Started \<Rightarrow> 0 | Denied \<Rightarrow> 1 | FailedBeforeCommit \<Rightarrow> 2 | Committed \<Rightarrow> 3 | CommitUnknown \<Rightarrow> 4)"

definition AttemptOutcome_from_code :: "u8 \<Rightarrow> AttemptOutcome" where
  "AttemptOutcome_from_code c =
     (if c = 1 then Denied else if c = 2 then FailedBeforeCommit
      else if c = 3 then Committed else if c = 4 then CommitUnknown else Started)"

record AttemptRecord =
  ar_id :: AttemptId
  ar_caller :: SubjectId
  ar_capability_id :: CapId
  ar_request :: CapabilityRequest
  ar_additional_requests :: "CapabilityRequest list"
  ar_authorization_epoch :: AuthorizationEpoch
  ar_outcome :: AttemptOutcome

record EffectRecord =
  er_attempt_id :: AttemptId
  er_caller :: SubjectId
  er_capability_id :: CapId
  er_request :: CapabilityRequest
  er_additional_requests :: "CapabilityRequest list"
  er_authorization_epoch :: AuthorizationEpoch

datatype AuditError =
    AuditLockPoisoned
  | AttemptIdExhausted
  | Durable DurableAuditError
  | StateRecoveryRequired "AttemptId list"

record AttemptJournal =
  aj_id :: AttemptId
  aj_caller :: SubjectId
  aj_capability_id :: CapId
  aj_request :: CapabilityRequest
  aj_additional_requests :: "CapabilityRequest list"
  aj_authorization_epoch :: AuthorizationEpoch
  aj_outcome :: u8

record AuditTrail =
  at_next_attempt_sequence :: "u64 option"
  at_attempts :: "AttemptJournal list"
  at_backend :: "DurableState option"
  at_state_instance :: u64

record AuditRecovery =
  rv_state_instance :: u64
  rv_inherited_attempts :: nat
  rv_reconciled :: "AttemptId list"

definition AttemptJournal_snapshot :: "AttemptJournal \<Rightarrow> AttemptRecord" where
  "AttemptJournal_snapshot j =
     \<lparr>ar_id = aj_id j, ar_caller = aj_caller j, ar_capability_id = aj_capability_id j,
      ar_request = aj_request j, ar_additional_requests = aj_additional_requests j,
      ar_authorization_epoch = aj_authorization_epoch j,
      ar_outcome = AttemptOutcome_from_code (aj_outcome j)\<rparr>"

definition AttemptJournal_effect_snapshot :: "AttemptJournal \<Rightarrow> EffectRecord option" where
  "AttemptJournal_effect_snapshot j =
     (if aj_outcome j = AttemptOutcome_code Committed then
        Some \<lparr>er_attempt_id = aj_id j, er_caller = aj_caller j, er_capability_id = aj_capability_id j,
          er_request = aj_request j, er_additional_requests = aj_additional_requests j,
          er_authorization_epoch = aj_authorization_epoch j\<rparr>
      else None)"

definition AttemptJournal_finish :: "AttemptOutcome \<Rightarrow> AttemptJournal \<Rightarrow> AttemptJournal" where
  "AttemptJournal_finish x j = j\<lparr>aj_outcome := AttemptOutcome_code x\<rparr>"

section \<open>The trail\<close>

definition AuditTrail_new :: AuditTrail where
  "AuditTrail_new =
     \<lparr>at_next_attempt_sequence = Some 0, at_attempts = [], at_backend = None, at_state_instance = 0\<rparr>"

definition new_with_backend :: "DurableState \<Rightarrow> (AuditError, AuditTrail) result" where
  "new_with_backend b =
     and_then (map_err Durable (DurableAuditLog_attempts b)) (\<lambda>recovered.
     let ids = sort (map da_attempt_id recovered) in
     if ids \<noteq> [] then Err (StateRecoveryRequired ids)
     else
       and_then (map_err Durable (DurableAuditLog_next_attempt_sequence b)) (\<lambda>next.
       Ok \<lparr>at_next_attempt_sequence = next, at_attempts = [], at_backend = Some b, at_state_instance = 0\<rparr>))"

definition start_request_set ::
    "AppendIo \<Rightarrow> SubjectId \<Rightarrow> CapId \<Rightarrow> CapabilityRequestSet \<Rightarrow> AuthorizationEpoch \<Rightarrow> AuditTrail \<Rightarrow>
     (AuditError, nat) result \<times> AuditTrail" where
  "start_request_set io caller capability_id requests epoch t =
     (case at_next_attempt_sequence t of
       None \<Rightarrow> (Err AttemptIdExhausted, t)
     | Some sequence \<Rightarrow>
         let started = (case at_backend t of
               None \<Rightarrow> (Ok (), None)
             | Some b \<Rightarrow>
                 let (r, b') = begin_attempt io (at_state_instance t) (AttemptId sequence) caller
                       capability_id requests epoch b in (r, Some b')) in
         case started of
           (Err e, backend) \<Rightarrow>
             (Err (Durable e), t\<lparr>at_backend := backend, at_next_attempt_sequence := Some sequence\<rparr>)
         | (Ok _, backend) \<Rightarrow>
             (Ok (length (at_attempts t)),
              t\<lparr>at_next_attempt_sequence := checked_add sequence 1,
                at_attempts := at_attempts t @
                  [\<lparr>aj_id = AttemptId sequence, aj_caller = caller, aj_capability_id = capability_id,
                    aj_request = rs_first requests, aj_additional_requests = rs_additional requests,
                    aj_authorization_epoch = epoch, aj_outcome = AttemptOutcome_code Started\<rparr>],
                at_backend := backend\<rparr>))"

definition AttemptGuard_finish ::
    "AppendIo \<Rightarrow> AttemptOutcome \<Rightarrow> CommitReceipt option \<Rightarrow> CommitUnknownEvidence option \<Rightarrow> nat \<Rightarrow> AuditTrail \<Rightarrow>
     (AuditError, unit) result \<times> AuditTrail" where
  "AttemptGuard_finish io outcome receipt evidence g t =
     (let j = at_attempts t ! g;
          finished = (case at_backend t of
            None \<Rightarrow> (Ok (), None)
          | Some b \<Rightarrow>
              let (r, b') = finish_attempt io (aj_id j) outcome receipt evidence b in (r, Some b')) in
      case finished of
        (Err e, backend) \<Rightarrow> (Err (Durable e), t\<lparr>at_backend := backend\<rparr>)
      | (Ok _, backend) \<Rightarrow>
          (Ok (), t\<lparr>at_backend := backend,
             at_attempts := (at_attempts t)[g := AttemptJournal_finish outcome j]\<rparr>))"

definition AttemptGuard_deny :: "AppendIo \<Rightarrow> nat \<Rightarrow> AuditTrail \<Rightarrow> (AuditError, unit) result \<times> AuditTrail" where
  "AttemptGuard_deny io g t = AttemptGuard_finish io Denied None None g t"

definition AttemptGuard_fail_before_commit ::
    "AppendIo \<Rightarrow> nat \<Rightarrow> AuditTrail \<Rightarrow> (AuditError, unit) result \<times> AuditTrail" where
  "AttemptGuard_fail_before_commit io g t = AttemptGuard_finish io FailedBeforeCommit None None g t"

definition AttemptGuard_commit_with_receipt ::
    "AppendIo \<Rightarrow> CommitReceipt \<Rightarrow> nat \<Rightarrow> AuditTrail \<Rightarrow> (AuditError, unit) result \<times> AuditTrail" where
  "AttemptGuard_commit_with_receipt io receipt g t = AttemptGuard_finish io Committed (Some receipt) None g t"

definition AttemptGuard_commit_unknown ::
    "AppendIo \<Rightarrow> bytes \<Rightarrow> nat \<Rightarrow> AuditTrail \<Rightarrow> (AuditError, unit) result \<times> AuditTrail" where
  "AttemptGuard_commit_unknown io evidence g t =
     (case CommitUnknownEvidence_new (aj_id (at_attempts t ! g)) evidence of
       Err e \<Rightarrow> (Err (Durable e), t)
     | Ok ev \<Rightarrow> AttemptGuard_finish io CommitUnknown None (Some ev) g t)"

definition AuditTrail_attempts :: "AuditTrail \<Rightarrow> AttemptRecord list" where
  "AuditTrail_attempts t = map AttemptJournal_snapshot (at_attempts t)"

definition AuditTrail_effects :: "AuditTrail \<Rightarrow> EffectRecord list" where
  "AuditTrail_effects t = List.map_filter AttemptJournal_effect_snapshot (at_attempts t)"

section \<open>Recovery\<close>

definition RECOVERED_ATTEMPT_EVIDENCE :: bytes where
  "RECOVERED_ATTEMPT_EVIDENCE =
     as_bytes ''authority-core recovery closed an attempt left started by an unclean shutdown''"

text \<open>\<open>io a\<close> is what the operating system reports when the attempt \<open>a\<close> is closed.\<close>

fun recover_loop ::
    "(AttemptId \<Rightarrow> AppendIo) \<Rightarrow> DurableAttemptState list \<Rightarrow> DurableState \<Rightarrow>
     (AuditError, AttemptId list) result \<times> DurableState" where
  "recover_loop io [] b = (Ok [], b)"
| "recover_loop io (x # xs) b =
     (if da_outcome x \<noteq> Started then recover_loop io xs b
      else (case CommitUnknownEvidence_new (da_attempt_id x) RECOVERED_ATTEMPT_EVIDENCE of
        Err e \<Rightarrow> (Err (Durable e), b)
      | Ok ev \<Rightarrow>
          (case finish_attempt (io (da_attempt_id x)) (da_attempt_id x) CommitUnknown None (Some ev) b of
            (Err e, b) \<Rightarrow> (Err (Durable e), b)
          | (Ok _, b) \<Rightarrow>
              (case recover_loop io xs b of
                (Err e, b) \<Rightarrow> (Err e, b)
              | (Ok ids, b) \<Rightarrow> (Ok (da_attempt_id x # ids), b)))))"

definition recover_with_backend ::
    "(AttemptId \<Rightarrow> AppendIo) \<Rightarrow> DurableState \<Rightarrow> (AuditError, AuditTrail \<times> AuditRecovery) result \<times> DurableState" where
  "recover_with_backend io b =
     (case DurableAuditLog_attempts b of
       Err e \<Rightarrow> (Err (Durable e), b)
     | Ok inherited \<Rightarrow>
         (case and_then (map_err Durable (DurableAuditLog_next_attempt_sequence b)) (ok_or AttemptIdExhausted) of
           Err e \<Rightarrow> (Err e, b)
         | Ok state_instance \<Rightarrow>
             (case recover_loop io inherited b of
               (Err e, b) \<Rightarrow> (Err e, b)
             | (Ok reconciled, b) \<Rightarrow>
                 (case DurableAuditLog_next_attempt_sequence b of
                   Err e \<Rightarrow> (Err (Durable e), b)
                 | Ok next \<Rightarrow>
                     (Ok (\<lparr>at_next_attempt_sequence = next, at_attempts = [], at_backend = Some b,
                           at_state_instance = state_instance\<rparr>,
                          \<lparr>rv_state_instance = state_instance, rv_inherited_attempts = length inherited,
                           rv_reconciled = reconciled\<rparr>), b)))))"

section \<open>Reconciliation\<close>

record ReconciliationSummary =
  su_committed :: "AttemptId list"
  su_not_committed :: "AttemptId list"
  su_still_unknown :: "AttemptId list"

datatype 'p ReconciliationError = ReconcileDurable DurableAuditError | ReconcileProvider AttemptId 'p

text \<open>\<open>resolve\<close> is the provider callback, with its own state.\<close>

fun reconcile_loop ::
    "(AttemptId \<Rightarrow> AppendIo) \<Rightarrow>
     ('r \<Rightarrow> DurableAttemptState \<Rightarrow> DurableAttemptMetadata \<Rightarrow> ('p, ReconciledCommit option) result \<times> 'r) \<Rightarrow>
     DurableAttemptState list \<Rightarrow> ReconciliationSummary \<Rightarrow> 'r \<Rightarrow> DurableState \<Rightarrow>
     ('p ReconciliationError, ReconciliationSummary) result \<times> DurableState" where
  "reconcile_loop io resolve [] summary r b = (Ok summary, b)"
| "reconcile_loop io resolve (x # xs) summary r b =
     (if da_outcome x \<noteq> CommitUnknown \<or> da_reconciliation x \<noteq> None then reconcile_loop io resolve xs summary r b
      else (case decode_attempt_payload (da_payload x) of
        Err e \<Rightarrow> (Err (ReconcileDurable e), b)
      | Ok metadata \<Rightarrow>
          (case resolve r x metadata of
            (Err e, r) \<Rightarrow> (Err (ReconcileProvider (da_attempt_id x) e), b)
          | (Ok None, r) \<Rightarrow>
              reconcile_loop io resolve xs
                (summary\<lparr>su_still_unknown := su_still_unknown summary @ [da_attempt_id x]\<rparr>) r b
          | (Ok (Some verdict), r) \<Rightarrow>
              (case reconcile_attempt (io (da_attempt_id x)) (da_attempt_id x) verdict b of
                (Err e, b) \<Rightarrow> (Err (ReconcileDurable e), b)
              | (Ok _, b) \<Rightarrow>
                  reconcile_loop io resolve xs
                    (case verdict of
                       ReconciledCommitted _ \<Rightarrow>
                         summary\<lparr>su_committed := su_committed summary @ [da_attempt_id x]\<rparr>
                     | ReconciledNotCommitted \<Rightarrow>
                         summary\<lparr>su_not_committed := su_not_committed summary @ [da_attempt_id x]\<rparr>) r b))))"

definition reconcile_unknown_commits ::
    "(AttemptId \<Rightarrow> AppendIo) \<Rightarrow>
     ('r \<Rightarrow> DurableAttemptState \<Rightarrow> DurableAttemptMetadata \<Rightarrow> ('p, ReconciledCommit option) result \<times> 'r) \<Rightarrow>
     'r \<Rightarrow> DurableState \<Rightarrow> ('p ReconciliationError, ReconciliationSummary) result \<times> DurableState" where
  "reconcile_unknown_commits io resolve r b =
     (case DurableAuditLog_attempts b of
       Err e \<Rightarrow> (Err (ReconcileDurable e), b)
     | Ok attempts \<Rightarrow>
         reconcile_loop io resolve attempts
           \<lparr>su_committed = [], su_not_committed = [], su_still_unknown = []\<rparr> r b)"

end
