(* ===== verification/Kernel.thy ===== *)
theory Kernel
  imports Audit_Trail
begin

text \<open>
  The capability kernel (\<open>kernel.rs\<close>): the capability state behind a read-write lock, the audit
  trail, and the revocation observers. The effect executor is a parameter that maps the world to its
  classified result and the new world; \<open>discard\<close> is the callback of an observer. Operations that
  take the write lock run alone; the critical sections are total, so the lock is never poisoned.
\<close>

section \<open>Data\<close>

record RevocationObserverError =
  ro_observer :: string
  ro_reason :: string

datatype CapabilityKernelError =
    KernelLockPoisoned
  | StateTransition CapabilityStateError
  | RevocationNotPropagated RevocationObserverError

datatype ('t, 'e) EffectExecution =
    ExecFailedBeforeCommit 'e
  | ExecCommitted 't "bytes option"
  | ExecCommitUnknown bytes

datatype 'e EffectCommitError =
    EffectLockPoisoned
  | EffectNotAuthorized
  | EffectFailed 'e
  | EffectAudit AuditError
  | CommittedButAudit AttemptId CommitReceipt AuditError
  | EffectCommitUnknown AttemptId bytes
  | CommitUnknownAndAudit AttemptId bytes AuditError

datatype 'e CapabilityInspectionError =
    InspectLockPoisoned | InspectNotActive | Inspection 'e

record 'o CapabilityKernel =
  k_state :: CapabilityState
  k_audit :: AuditTrail
  k_observers :: "'o list"

definition CapabilityKernel_new :: "CapabilityState \<Rightarrow> 'o CapabilityKernel" where
  "CapabilityKernel_new s = \<lparr>k_state = s, k_audit = AuditTrail_new, k_observers = []\<rparr>"

definition try_new_with_durable_audit ::
    "CapabilityState \<Rightarrow> DurableState \<Rightarrow> (AuditError, 'o CapabilityKernel) result" where
  "try_new_with_durable_audit s b =
     and_then (new_with_backend b) (\<lambda>t. Ok \<lparr>k_state = s, k_audit = t, k_observers = []\<rparr>)"

definition try_recover_with_durable_audit ::
    "(AttemptId \<Rightarrow> AppendIo) \<Rightarrow> CapabilityState \<Rightarrow> DurableState \<Rightarrow>
     (AuditError, 'o CapabilityKernel \<times> AuditRecovery) result \<times> DurableState" where
  "try_recover_with_durable_audit io s b =
     (case recover_with_backend io b of
       (Err e, b) \<Rightarrow> (Err e, b)
     | (Ok (t, recovery), b) \<Rightarrow> (Ok (\<lparr>k_state = s, k_audit = t, k_observers = []\<rparr>, recovery), b))"

section \<open>State transitions\<close>

definition with_state_mut ::
    "'a transition \<Rightarrow> 'o CapabilityKernel \<Rightarrow> (CapabilityKernelError, 'a) result \<times> 'o CapabilityKernel" where
  "with_state_mut f k =
     (let (r, s) = f (k_state k) in (map_err StateTransition r, k\<lparr>k_state := s\<rparr>))"

definition register_revocation_observer ::
    "'o \<Rightarrow> 'o CapabilityKernel \<Rightarrow> (CapabilityKernelError, unit) result \<times> 'o CapabilityKernel" where
  "register_revocation_observer ob k = (Ok (), k\<lparr>k_observers := k_observers k @ [ob]\<rparr>)"

text \<open>Every observer is told, whatever the earlier ones answered; the first failure is reported.\<close>

fun propagate_loop ::
    "('o \<Rightarrow> (RevocationObserverError, unit) result \<times> 'o) \<Rightarrow> 'o list \<Rightarrow> RevocationObserverError option \<Rightarrow>
     RevocationObserverError option \<times> 'o list" where
  "propagate_loop discard [] first = (first, [])"
| "propagate_loop discard (ob # obs) first =
     (let (r, ob') = discard ob;
          first = (case r of Err e \<Rightarrow> (if first = None then Some e else first) | Ok _ \<Rightarrow> first);
          (first, obs') = propagate_loop discard obs first
      in (first, ob' # obs'))"

definition propagate_revocation ::
    "('o \<Rightarrow> (RevocationObserverError, unit) result \<times> 'o) \<Rightarrow> 'o CapabilityKernel \<Rightarrow>
     (CapabilityKernelError, unit) result \<times> 'o CapabilityKernel" where
  "propagate_revocation discard k =
     (let (first, obs) = propagate_loop discard (k_observers k) None in
      (case first of None \<Rightarrow> Ok () | Some e \<Rightarrow> Err (RevocationNotPropagated e), k\<lparr>k_observers := obs\<rparr>))"

definition kernel_register_subject ::
    "Subject \<Rightarrow> 'o CapabilityKernel \<Rightarrow> (CapabilityKernelError, unit) result \<times> 'o CapabilityKernel" where
  "kernel_register_subject x k = with_state_mut (register_subject x) k"

definition kernel_issue_root ::
    "CapabilityGrant \<Rightarrow> 'o CapabilityKernel \<Rightarrow> (CapabilityKernelError, CapId) result \<times> 'o CapabilityKernel" where
  "kernel_issue_root g k = with_state_mut (issue_root g) k"

definition kernel_issue_root_with_id ::
    "CapId \<Rightarrow> CapabilityGrant \<Rightarrow> 'o CapabilityKernel \<Rightarrow>
     (CapabilityKernelError, CapId) result \<times> 'o CapabilityKernel" where
  "kernel_issue_root_with_id i g k = with_state_mut (issue_root_with_id i g) k"

definition kernel_derive ::
    "SubjectId \<Rightarrow> CapId \<Rightarrow> CapabilityGrant \<Rightarrow> MonotonicTime \<Rightarrow> 'o CapabilityKernel \<Rightarrow>
     (CapabilityKernelError, CapId) result \<times> 'o CapabilityKernel" where
  "kernel_derive caller parent g now k = with_state_mut (derive caller parent g now) k"

definition kernel_revoke_held_by ::
    "('o \<Rightarrow> (RevocationObserverError, unit) result \<times> 'o) \<Rightarrow> SubjectId \<Rightarrow> CapId \<Rightarrow> 'o CapabilityKernel \<Rightarrow>
     (CapabilityKernelError, RevocationStatus) result \<times> 'o CapabilityKernel" where
  "kernel_revoke_held_by discard caller i k =
     (case with_state_mut (revoke_held_by caller i) k of
       (Err e, k) \<Rightarrow> (Err e, k)
     | (Ok status, k) \<Rightarrow>
         if status = NewlyRevoked then
           (case propagate_revocation discard k of
             (Err e, k) \<Rightarrow> (Err e, k)
           | (Ok _, k) \<Rightarrow> (Ok status, k))
         else (Ok status, k))"

definition kernel_begin_subject_close ::
    "('o \<Rightarrow> (RevocationObserverError, unit) result \<times> 'o) \<Rightarrow> SubjectId \<Rightarrow> 'o CapabilityKernel \<Rightarrow>
     (CapabilityKernelError, SubjectCloseStatus) result \<times> 'o CapabilityKernel" where
  "kernel_begin_subject_close discard x k =
     (case with_state_mut (begin_subject_close x) k of
       (Err e, k) \<Rightarrow> (Err e, k)
     | (Ok status, k) \<Rightarrow>
         if status = CloseStarted then
           (case propagate_revocation discard k of
             (Err e, k) \<Rightarrow> (Err e, k)
           | (Ok _, k) \<Rightarrow> (Ok status, k))
         else (Ok status, k))"

definition kernel_finish_subject_close ::
    "SubjectId \<Rightarrow> 'o CapabilityKernel \<Rightarrow>
     (CapabilityKernelError, SubjectFinishStatus) result \<times> 'o CapabilityKernel" where
  "kernel_finish_subject_close x k = with_state_mut (finish_subject_close x) k"

definition kernel_register_open_handle ::
    "OpenHandle \<Rightarrow> 'o CapabilityKernel \<Rightarrow> (CapabilityKernelError, unit) result \<times> 'o CapabilityKernel" where
  "kernel_register_open_handle h k = with_state_mut (register_open_handle h) k"

definition kernel_close_handle ::
    "SubjectId \<Rightarrow> HandleId \<Rightarrow> 'o CapabilityKernel \<Rightarrow>
     (CapabilityKernelError, HandleCloseStatus) result \<times> 'o CapabilityKernel" where
  "kernel_close_handle caller h k = with_state_mut (close_handle caller h) k"

definition with_active_capability ::
    "SubjectId \<Rightarrow> CapId \<Rightarrow> MonotonicTime \<Rightarrow> (Capability \<Rightarrow> ('e, 't) result) \<Rightarrow> 'o CapabilityKernel \<Rightarrow>
     ('e CapabilityInspectionError, 't) result" where
  "with_active_capability caller i now inspect k =
     and_then (ok_or InspectNotActive (active_capability (k_state k) caller i now)) (\<lambda>c.
     map_err Inspection (inspect c))"

section \<open>Effects\<close>

definition validate_commit_unknown_evidence :: "bytes \<Rightarrow> (AuditError, unit) result" where
  "validate_commit_unknown_evidence ev =
     (if ev = [] then Err (Durable (InvalidRecord ''CommitUnknown evidence cannot be empty''))
      else if length ev > MAX_COMMIT_UNKNOWN_EVIDENCE_BYTES then Err (Durable (RecordTooLarge (length ev)))
      else Ok ())"

definition deny_attempt ::
    "AppendIo \<Rightarrow> nat \<Rightarrow> 'o CapabilityKernel \<Rightarrow> ('e EffectCommitError, 'a) result \<times> 'o CapabilityKernel" where
  "deny_attempt io g k =
     (let (r, t) = AttemptGuard_deny io g (k_audit k) in
      (case r of Ok _ \<Rightarrow> Err EffectNotAuthorized | Err e \<Rightarrow> Err (EffectAudit e), k\<lparr>k_audit := t\<rparr>))"

text \<open>
  \<open>authorize_all_and_commit_inner\<close> up to the call of the executor: the attempt is started, the
  requests are checked, and the capability is handed over while the read guard is held.
\<close>

definition admit_effect ::
    "AppendIo \<Rightarrow> AppendIo \<Rightarrow> SubjectId \<Rightarrow> CapId \<Rightarrow> CapabilityRequestSet \<Rightarrow> 'o CapabilityKernel \<Rightarrow>
     ('e EffectCommitError, nat \<times> Capability) result \<times> 'o CapabilityKernel" where
  "admit_effect io1 io2 caller i requests k =
     (if \<not> rs_complete requests then (Err EffectNotAuthorized, k)
      else
        (case start_request_set io1 caller i requests (st_epoch (k_state k)) (k_audit k) of
          (Err e, t) \<Rightarrow> (Err (EffectAudit e), k\<lparr>k_audit := t\<rparr>)
        | (Ok g, t) \<Rightarrow>
            let k = k\<lparr>k_audit := t\<rparr> in
            if \<not> list_all (authorizes (k_state k) caller i) (CapabilityRequestSet_iter requests) then
              deny_attempt io2 g k
            else
              (case fmlookup (st_capabilities (k_state k)) i of
                None \<Rightarrow> deny_attempt io2 g k
              | Some c \<Rightarrow> (Ok (g, c), k))))"

text \<open>The rest of it: the terminal audit record of what the executor reported.\<close>

definition settle_effect ::
    "AppendIo \<Rightarrow> nat \<Rightarrow> ('t, 'e) EffectExecution \<Rightarrow> 'o CapabilityKernel \<Rightarrow>
     ('e EffectCommitError, 't) result \<times> 'o CapabilityKernel" where
  "settle_effect io g x k =
     (let attempt_id = aj_id (at_attempts (k_audit k) ! g) in
      case x of
        ExecCommitted v token \<Rightarrow>
          let receipt = (case token of None \<Rightarrow> kernel_success attempt_id
                                     | Some tk \<Rightarrow> CommitReceipt_new attempt_id tk);
              (r, t) = AttemptGuard_commit_with_receipt io receipt g (k_audit k) in
          (case r of Ok _ \<Rightarrow> Ok v | Err e \<Rightarrow> Err (CommittedButAudit attempt_id receipt e),
           k\<lparr>k_audit := t\<rparr>)
      | ExecFailedBeforeCommit e \<Rightarrow>
          let (r, t) = AttemptGuard_fail_before_commit io g (k_audit k) in
          (case r of Ok _ \<Rightarrow> Err (EffectFailed e) | Err e \<Rightarrow> Err (EffectAudit e), k\<lparr>k_audit := t\<rparr>)
      | ExecCommitUnknown ev \<Rightarrow>
          (case validate_commit_unknown_evidence ev of
            Err e \<Rightarrow> (Err (CommitUnknownAndAudit attempt_id ev e), k)
          | Ok _ \<Rightarrow>
              let (r, t) = AttemptGuard_commit_unknown io ev g (k_audit k) in
              (case r of Ok _ \<Rightarrow> Err (EffectCommitUnknown attempt_id ev)
                       | Err e \<Rightarrow> Err (CommitUnknownAndAudit attempt_id ev e),
               k\<lparr>k_audit := t\<rparr>)))"

definition authorize_all_and_commit_inner ::
    "AppendIo \<Rightarrow> AppendIo \<Rightarrow> SubjectId \<Rightarrow> CapId \<Rightarrow> CapabilityRequestSet \<Rightarrow>
     (Capability \<Rightarrow> 'w \<Rightarrow> ('t, 'e) EffectExecution \<times> 'w) \<Rightarrow> 'o CapabilityKernel \<Rightarrow> 'w \<Rightarrow>
     ('e EffectCommitError, 't) result \<times> 'o CapabilityKernel \<times> 'w" where
  "authorize_all_and_commit_inner io1 io2 caller i requests execute k w =
     (case admit_effect io1 io2 caller i requests k of
       (Err e, k) \<Rightarrow> (Err e, k, w)
     | (Ok (g, c), k) \<Rightarrow>
         let (x, w) = execute c w; (r, k) = settle_effect io2 g x k in (r, k, w))"

definition authorize_and_execute_classified ::
    "AppendIo \<Rightarrow> AppendIo \<Rightarrow> SubjectId \<Rightarrow> CapId \<Rightarrow> CapabilityRequest \<Rightarrow>
     (Capability \<Rightarrow> 'w \<Rightarrow> ('t, 'e) EffectExecution \<times> 'w) \<Rightarrow> 'o CapabilityKernel \<Rightarrow> 'w \<Rightarrow>
     ('e EffectCommitError, 't) result \<times> 'o CapabilityKernel \<times> 'w" where
  "authorize_and_execute_classified io1 io2 caller i request execute k w =
     authorize_all_and_commit_inner io1 io2 caller i (CapabilityRequestSet_one request) execute k w"

end
