(* ===== verification/Payload_Codec.thy ===== *)
theory Payload_Codec
  imports Attempt_Payload
begin

text \<open>
  The payload encoders and decoders are inverse to each other. Each writer and reader pair is an
  instance of the \<open>codec\<close> interface, from the strings up to a whole request.
\<close>

section \<open>Readers on written bytes\<close>

lemma reader_byte [simp]: "PayloadReader_byte (x # r) = Ok (x, r)"
  by (simp add: PayloadReader_byte_def PayloadReader_take_def take_bytes_def)

lemma reader_u32 [simp]: "PayloadReader_u32 (to_le_bytes v @ r) = Ok (v, r)"
  by (simp add: PayloadReader_u32_def PayloadReader_take_def)

lemma reader_u64 [simp]: "PayloadReader_u64 (to_le_bytes v @ r) = Ok (v, r)"
  by (simp add: PayloadReader_u64_def PayloadReader_take_def)

lemma reader_take [simp]: "length bs = n \<Longrightarrow> PayloadReader_take n (bs @ r) = Ok (bs, r)"
  by (simp add: PayloadReader_take_def)

lemmas writer_defs = PayloadWriter_byte_def PayloadWriter_u32_def PayloadWriter_u64_def
  PayloadWriter_bytes_def

section \<open>Strings and segment lists\<close>

lemma writer_string_Ok:
  "PayloadWriter_string s w = Ok w' \<Longrightarrow>
     (\<exists>n :: u32. unat n = length s \<and> w' = w @ to_le_bytes n @ as_bytes s \<and> length w' \<le> MAX_RECORD_PAYLOAD)"
  by (auto simp: PayloadWriter_string_def and_then_Ok narrow_Some Let_def writer_defs split: if_splits)

interpretation str_codec: codec PayloadWriter_string PayloadReader_string wf_str
proof
  fix s w w' assume "wf_str s" "PayloadWriter_string s w = Ok w'"
  then obtain n :: u32 where n: "unat n = length s" "w' = w @ to_le_bytes n @ as_bytes s"
    using writer_string_Ok by blast
  show "\<exists>b. w' = w @ b \<and> (\<forall>r. PayloadReader_string (b @ r) = Ok (s, r))"
    by (intro exI [of _ "to_le_bytes n @ as_bytes s"])
      (simp add: n PayloadReader_string_def \<open>wf_str s\<close>)
qed

interpretation segments_codec: codec write_segments PayloadReader_segments "list_all wf_str"
proof
  fix ss w w' assume ok: "list_all wf_str ss" and put: "write_segments ss w = Ok w'"
  obtain n :: u32 where n: "unat n = length ss"
      "put_all PayloadWriter_string ss (w @ to_le_bytes n) = Ok w'"
    using put by (auto simp: write_segments_def and_then_Ok narrow_Some writer_defs)
  obtain b where b: "w' = (w @ to_le_bytes n) @ b"
      "\<And>r. get_many PayloadReader_string (length ss) (b @ r) = Ok (ss, r)"
    using str_codec.put_all_get_many [OF ok n(2)] by blast
  show "\<exists>b. w' = w @ b \<and> (\<forall>r. PayloadReader_segments (b @ r) = Ok (ss, r))"
    by (intro exI [of _ "to_le_bytes n @ b"]) (simp add: b n(1) PayloadReader_segments_def)
qed

section \<open>Requests\<close>

text \<open>The validated parts of a request, and the UTF-8 validity of its free strings.\<close>

fun wf_authority_request :: "AuthorityRequest \<Rightarrow> bool" where
  "wf_authority_request (FileReq q) \<longleftrightarrow>
     wf_str (repo_str (fr_repository q)) \<and> wf_path (fr_path q) \<and> list_all wf_str (cp_segments (fr_path q))"
| "wf_authority_request (HttpFetchReq q) \<longleftrightarrow> wf_host (hr_host q) \<and> wf_url_path (hr_path q)"
| "wf_authority_request (GitHubReq q) \<longleftrightarrow>
     wf_str (installation_str (gr_installation q)) \<and> wf_str (repo_str (gr_repository q)) \<and>
     wf_branch (gr_base q) \<and> list_all wf_str (bn_segments (gr_base q)) \<and>
     wf_branch (gr_head q) \<and> list_all wf_str (bn_segments (gr_head q))"

definition wf_request :: "CapabilityRequest \<Rightarrow> bool" where
  "wf_request q \<longleftrightarrow> wf_authority_request (cr_authority q)"

lemma wf_host_str: "wf_host h \<Longrightarrow> wf_str (host_str h)"
  by (simp add: is_ascii_wf_str wf_host_ascii)

lemma url_segment_wf_str: "url_segment_ok s \<Longrightarrow> wf_str s"
  by (rule is_ascii_wf_str)
    (auto simp: url_segment_ok_def is_ascii_def list_all_iff dest: url_char_facts(1))

lemma decode_file_effect_tag [simp]: "decode_file_effect (FileEffect_tag e) = Ok e"
  by (simp add: decode_file_effect_def)

lemma decode_http_method_tag [simp]: "decode_http_method (word_of_nat (HttpFetchMethod_tag m)) = Ok m"
  by (cases m) (simp_all add: decode_http_method_def)

lemma decode_github_operation_tag [simp]:
  "decode_github_operation (word_of_nat (GitHubOperation_tag m)) = Ok m"
  by (cases m) (simp_all add: decode_github_operation_def)

lemma decode_url_path_segments [simp]: "wf_url_path p \<Longrightarrow> decode_url_path (up_segments p) = Ok p"
proof (cases "up_segments p = []")
  case True
  then show ?thesis
    by (auto simp: decode_url_path_def CanonicalUrlPath_root_def intro: url_path_eqI)
next
  case False
  assume "wf_url_path p"
  moreover have "CanonicalUrlPath_display p = ''/'' @ join_with (CHR ''/'') (up_segments p)"
    using False by (simp add: display_join)
  ultimately show ?thesis
    using False CanonicalUrlPath_new_Ok [of "CanonicalUrlPath_display p" p] by (simp add: decode_url_path_def)
qed

lemma decode_branch_segments [simp]: "wf_branch b \<Longrightarrow> decode_branch (bn_segments b) = Ok b"
  using BranchName_new_complete [of b] by (simp add: decode_branch_def BranchName_display_def)

lemma file_request_codec:
  assumes "wf_authority_request (FileReq q)" "encode_authority_request (FileReq q) w = Ok w'"
  shows "\<exists>b. w' = w @ b \<and> (\<forall>r. decode_authority_request (b @ r) = Ok (FileReq q, r))"
proof -
  obtain v where v: "PayloadWriter_string (repo_str (fr_repository q)) (w @ [1]) = Ok v"
      "write_segments (cp_segments (fr_path q)) (v @ [FileEffect_tag (fr_effect q)]) = Ok w'"
    using assms(2) by (auto simp: and_then_Ok writer_defs)
  obtain b where b: "v = (w @ [1]) @ b"
      "\<And>r. PayloadReader_string (b @ r) = Ok (repo_str (fr_repository q), r)"
    using str_codec.put_get [OF _ v(1)] assms(1) by auto
  obtain c where c: "w' = (v @ [FileEffect_tag (fr_effect q)]) @ c"
      "\<And>r. PayloadReader_segments (c @ r) = Ok (cp_segments (fr_path q), r)"
    using segments_codec.put_get [OF _ v(2)] assms(1) by auto
  have "CanonicalPath_new (cp_segments (fr_path q)) = Ok (fr_path q)"
    using assms(1) by (simp add: CanonicalPath_new_Ok)
  then show ?thesis
    by (intro exI [of _ "1 # b @ FileEffect_tag (fr_effect q) # c"])
      (simp add: b c decode_authority_request_def decode_file_request_def)
qed

lemma http_request_codec:
  assumes "wf_authority_request (HttpFetchReq q)" "encode_authority_request (HttpFetchReq q) w = Ok w'"
  shows "\<exists>b. w' = w @ b \<and> (\<forall>r. decode_authority_request (b @ r) = Ok (HttpFetchReq q, r))"
proof -
  define m :: u8 where "m = word_of_nat (HttpFetchMethod_tag (hr_method q))"
  obtain u v where v: "PayloadWriter_string (host_str (hr_host q)) (w @ [2, m]) = Ok u"
      "write_segments (up_segments (hr_path q)) u = Ok v" "w' = v @ to_le_bytes (hr_max_response_bytes q)"
    using assms(2) by (auto simp: and_then_Ok writer_defs m_def)
  obtain b where b: "u = (w @ [2, m]) @ b"
      "\<And>r. PayloadReader_string (b @ r) = Ok (host_str (hr_host q), r)"
    using str_codec.put_get [OF _ v(1)] assms(1) by (auto simp: wf_host_str)
  have "list_all wf_str (up_segments (hr_path q))"
    using assms(1) by (auto simp: wf_url_path_def list_all_iff intro: url_segment_wf_str)
  then obtain c where c: "v = u @ c"
      "\<And>r. PayloadReader_segments (c @ r) = Ok (up_segments (hr_path q), r)"
    using segments_codec.put_get [OF _ v(2)] by auto
  have "CanonicalHost_new (host_str (hr_host q)) = Ok (hr_host q)"
    using assms(1) by (simp add: CanonicalHost_new_idem)
  then show ?thesis
    using assms(1)
    by (intro exI [of _ "2 # m # b @ c @ to_le_bytes (hr_max_response_bytes q)"])
      (simp add: b c v(3) m_def decode_authority_request_def decode_http_request_def)
qed

lemma github_request_codec:
  assumes "wf_authority_request (GitHubReq q)" "encode_authority_request (GitHubReq q) w = Ok w'"
  shows "\<exists>b. w' = w @ b \<and> (\<forall>r. decode_authority_request (b @ r) = Ok (GitHubReq q, r))"
proof -
  define m :: u8 where "m = word_of_nat (GitHubOperation_tag (gr_operation q))"
  obtain t u v where v: "PayloadWriter_string (installation_str (gr_installation q)) (w @ [3]) = Ok t"
      "PayloadWriter_string (repo_str (gr_repository q)) t = Ok u"
      "write_segments (bn_segments (gr_base q)) (u @ [m]) = Ok v"
      "write_segments (bn_segments (gr_head q)) v = Ok w'"
    using assms(2) by (auto simp: and_then_Ok writer_defs m_def)
  obtain b where b: "t = (w @ [3]) @ b"
      "\<And>r. PayloadReader_string (b @ r) = Ok (installation_str (gr_installation q), r)"
    using str_codec.put_get [OF _ v(1)] assms(1) by auto
  obtain c where c: "u = t @ c"
      "\<And>r. PayloadReader_string (c @ r) = Ok (repo_str (gr_repository q), r)"
    using str_codec.put_get [OF _ v(2)] assms(1) by auto
  obtain d where d: "v = (u @ [m]) @ d"
      "\<And>r. PayloadReader_segments (d @ r) = Ok (bn_segments (gr_base q), r)"
    using segments_codec.put_get [OF _ v(3)] assms(1) by auto
  obtain e where e: "w' = v @ e"
      "\<And>r. PayloadReader_segments (e @ r) = Ok (bn_segments (gr_head q), r)"
    using segments_codec.put_get [OF _ v(4)] assms(1) by auto
  show ?thesis
    using assms(1)
    by (intro exI [of _ "3 # b @ c @ m # d @ e"])
      (simp add: b c d e m_def decode_authority_request_def decode_github_request_def)
qed

interpretation authority_codec: codec encode_authority_request decode_authority_request wf_authority_request
proof
  show "\<exists>b. w' = w @ b \<and> (\<forall>r. decode_authority_request (b @ r) = Ok (q, r))"
    if "wf_authority_request q" "encode_authority_request q w = Ok w'" for q w w'
    using that by (cases q) (simp_all only: file_request_codec http_request_codec github_request_codec)
qed

interpretation request_codec: codec encode_request decode_request wf_request
proof
  fix q w w' assume ok: "wf_request q" and put: "encode_request q w = Ok w'"
  obtain b where b: "w' = (w @ to_le_bytes (ticks (cr_time q))) @ b"
      "\<And>r. decode_authority_request (b @ r) = Ok (cr_authority q, r)"
    using authority_codec.put_get [of "cr_authority q" "w @ to_le_bytes (ticks (cr_time q))" w'] ok put
    by (auto simp: wf_request_def encode_request_def writer_defs)
  show "\<exists>b. w' = w @ b \<and> (\<forall>r. decode_request (b @ r) = Ok (q, r))"
    by (intro exI [of _ "to_le_bytes (ticks (cr_time q)) @ b"]) (simp add: b decode_request_def)
qed

section \<open>Attempt metadata\<close>

lemma rebuild_request_set:
  assumes "rs_complete s" "wf_request_set s"
  shows "CapabilityRequestSet_new (rs_first s) (rs_additional s) = s"
  using assms
  by (simp add: CapabilityRequestSet_new_def wf_request_set_def CapabilityRequestSet_len_def)

lemma decode_encode_attempt:
  assumes enc: "encode_attempt_payload inst caller cap reqs epoch = Ok p"
    and str: "wf_str (subject_str caller)" "wf_str (cap_str cap)"
    and set: "wf_request_set reqs" "list_all wf_request (CapabilityRequestSet_iter reqs)"
  shows "decode_attempt_payload p = Ok \<lparr>am_state_instance = inst, am_caller = caller, am_capability_id = cap,
      am_authorization_epoch = epoch, am_requests = reqs\<rparr>"
proof -
  let ?rs = "CapabilityRequestSet_iter reqs"
  obtain u v and n :: u32 where v: "rs_complete reqs" "unat n = length ?rs"
      "PayloadWriter_string (subject_str caller) (2 # to_le_bytes inst) = Ok u"
      "PayloadWriter_string (cap_str cap) u = Ok v"
      "put_all encode_request ?rs ((v @ to_le_bytes (epoch_u64 epoch)) @ to_le_bytes n) = Ok p"
    using enc by (auto simp: encode_attempt_payload_def and_then_Ok narrow_Some Let_def writer_defs
        ATTEMPT_PAYLOAD_VERSION_def split: if_splits)
  obtain b where b: "u = (2 # to_le_bytes inst) @ b"
      "\<And>r. PayloadReader_string (b @ r) = Ok (subject_str caller, r)"
    using str_codec.put_get [OF str(1) v(3)] by blast
  obtain c where c: "v = u @ c" "\<And>r. PayloadReader_string (c @ r) = Ok (cap_str cap, r)"
    using str_codec.put_get [OF str(2) v(4)] by blast
  obtain d where d: "p = ((v @ to_le_bytes (epoch_u64 epoch)) @ to_le_bytes n) @ d"
      "\<And>r. get_many decode_request (length ?rs) (d @ r) = Ok (?rs, r)"
    using request_codec.put_all_get_many [OF set(2) v(5)] by blast
  have rs: "?rs = rs_first reqs # rs_additional reqs"
    by (simp add: CapabilityRequestSet_iter_def)
  have n: "n \<noteq> 0" "\<not> MAX_REQUESTS_PER_EFFECT < unat n"
    using v(2) set(1) unfolding rs by (auto simp: wf_request_set_def CapabilityRequestSet_len_def)
  have many: "get_many decode_request (unat n) d = Ok (rs_first reqs # rs_additional reqs, [])"
    using d(2) [of "[]"] v(2) rs by simp
  show ?thesis
    using n rebuild_request_set [OF v(1) set(1)]
    by (simp add: decode_attempt_payload_def b c d(1) many)
qed

section \<open>Terminal outcomes\<close>

lemma decode_outcome_code: "x \<noteq> Started \<Longrightarrow> decode_outcome (outcome_code x) = Ok x"
  by (cases x) (simp_all add: decode_outcome_def)

lemma decode_outcome_Ok: "decode_outcome c = Ok x \<longleftrightarrow> x \<noteq> Started \<and> c = outcome_code x"
  by (cases x) (auto simp: decode_outcome_def split: if_splits)

lemma token_bounds [simp]:
  "length t \<le> MAX_COMMIT_RECEIPT_BYTES \<Longrightarrow> narrow (length t) = Some (word_of_nat (length t) :: u32)"
  "length t \<le> MAX_COMMIT_UNKNOWN_EVIDENCE_BYTES \<Longrightarrow> narrow (length t) = Some (word_of_nat (length t) :: u32)"
  by (simp_all add: narrow_def MAX_COMMIT_RECEIPT_BYTES_def MAX_COMMIT_UNKNOWN_EVIDENCE_BYTES_def)

text \<open>The shape of a finish payload, on which encoder and decoder agree.\<close>

inductive finish_shape ::
    "AttemptId \<Rightarrow> AttemptOutcome \<Rightarrow> CommitReceipt option \<Rightarrow> CommitUnknownEvidence option \<Rightarrow> bytes \<Rightarrow> bool" where
  bare: "x = Denied \<or> x = FailedBeforeCommit \<Longrightarrow> finish_shape a x None None [outcome_code x]"
| receipt: "t \<noteq> [] \<Longrightarrow> length t \<le> MAX_COMMIT_RECEIPT_BYTES \<Longrightarrow>
    finish_shape a Committed (Some \<lparr>rc_attempt_id = a, rc_token = t\<rparr>) None
      (outcome_code Committed # to_le_bytes (word_of_nat (length t) :: u32) @ t)"
| evidence: "t \<noteq> [] \<Longrightarrow> length t \<le> MAX_COMMIT_UNKNOWN_EVIDENCE_BYTES \<Longrightarrow>
    finish_shape a CommitUnknown None (Some \<lparr>ev_attempt_id = a, ev_token = t\<rparr>)
      (outcome_code CommitUnknown # to_le_bytes (word_of_nat (length t) :: u32) @ t)"

inductive_simps finish_shape_simps: "finish_shape a x r e p"

lemma length_u32: "length t \<le> 64 * 1024 \<Longrightarrow> unat (word_of_nat (length t) :: u32) = length t"
  by (simp add: unat_of_nat)

lemma validate_receipt_Ok:
  "validate_receipt a r = Ok u \<longleftrightarrow>
     (\<forall>t. r = Some t \<longrightarrow> rc_attempt_id t = a \<and> rc_token t \<noteq> [] \<and> length (rc_token t) \<le> MAX_COMMIT_RECEIPT_BYTES)"
  by (auto simp: validate_receipt_def split: option.splits)

lemma validate_evidence_Ok:
  "validate_evidence a e = Ok u \<longleftrightarrow>
     (\<forall>t. e = Some t \<longrightarrow> ev_attempt_id t = a \<and> ev_token t \<noteq> [] \<and>
        length (ev_token t) \<le> MAX_COMMIT_UNKNOWN_EVIDENCE_BYTES)"
  by (auto simp: validate_evidence_def validate_commit_unknown_token_def split: option.splits)

lemma validate_finish_Ok:
  "validate_finish x r e a = Ok u \<longleftrightarrow>
     validate_receipt a r = Ok () \<and> validate_evidence a e = Ok () \<and> x \<noteq> Started \<and>
     (r \<noteq> None \<longleftrightarrow> x = Committed) \<and> (e \<noteq> None \<longleftrightarrow> x = CommitUnknown)"
  by (cases x) (auto simp: validate_finish_def and_then_Ok)

lemma encode_finish_shape: "encode_finish_payload a x r e = Ok p \<longleftrightarrow> finish_shape a x r e p"
proof -
  have rc: "c = \<lparr>rc_attempt_id = rc_attempt_id c, rc_token = rc_token c\<rparr>" for c :: CommitReceipt by simp
  have ev: "c = \<lparr>ev_attempt_id = ev_attempt_id c, ev_token = ev_token c\<rparr>" for c :: CommitUnknownEvidence by simp
  have *: "encode_finish_payload a x r e = Ok p \<longleftrightarrow> validate_finish x r e a = Ok () \<and>
      p = outcome_code x # (case r of
        Some c \<Rightarrow> to_le_bytes (word_of_nat (length (rc_token c)) :: u32) @ rc_token c
      | None \<Rightarrow> (case e of
          Some c \<Rightarrow> to_le_bytes (word_of_nat (length (ev_token c)) :: u32) @ ev_token c
        | None \<Rightarrow> []))"
    by (cases r; cases e)
      (auto simp: encode_finish_payload_def and_then_Ok Let_def validate_finish_Ok
        validate_receipt_Ok validate_evidence_Ok)
  show ?thesis
    unfolding * by (cases x; cases r; cases e)
      (use rc ev in \<open>auto simp: finish_shape_simps validate_finish_Ok validate_receipt_Ok validate_evidence_Ok\<close>)
qed

lemma decode_finish_complete: "finish_shape a x r e p \<Longrightarrow> decode_finish_payload p a = Ok (x, r, e)"
  by (induction rule: finish_shape.induct)
    (auto simp: decode_finish_payload_def decode_outcome_def MAX_COMMIT_RECEIPT_BYTES_def
      MAX_COMMIT_UNKNOWN_EVIDENCE_BYTES_def length_u32 CommitReceipt_new_def
      CommitUnknownEvidence_new_def validate_commit_unknown_token_def)

lemma split_token:
  assumes "\<not> length rest < 4" "length rest = 4 + unat (from_le_bytes (take 4 rest) :: u32)"
  shows "rest = to_le_bytes (word_of_nat (length (drop 4 rest)) :: u32) @ drop 4 rest"
proof -
  have "word_of_nat (length (drop 4 rest)) = (from_le_bytes (take 4 rest) :: u32)"
    using assms(2) by simp
  then show ?thesis
    using assms(1) append_take_drop_id [of 4 rest] by simp
qed

lemma decode_finish_sound:
  assumes "decode_finish_payload p a = Ok (x, r, e)"
  shows "finish_shape a x r e p"
proof -
  obtain rest where p: "p = outcome_code x # rest" "x \<noteq> Started"
    using assms by (auto simp: decode_finish_payload_def and_then_Ok decode_outcome_Ok Let_def
        split: list.splits if_splits)
  show ?thesis
  proof (cases "x = Committed \<or> x = CommitUnknown")
    case True
    let ?t = "drop 4 rest"
    have len: "\<not> length rest < 4" "length rest = 4 + unat (from_le_bytes (take 4 rest) :: u32)"
      and t: "?t \<noteq> []" "length ?t \<le> 64 * 1024"
        "r = (if x = Committed then Some \<lparr>rc_attempt_id = a, rc_token = ?t\<rparr> else None)"
        "e = (if x = Committed then None else Some \<lparr>ev_attempt_id = a, ev_token = ?t\<rparr>)"
      using assms True
      by (auto simp: p decode_finish_payload_def decode_outcome_code Let_def and_then_Ok
          CommitUnknownEvidence_new_def CommitReceipt_new_def MAX_COMMIT_RECEIPT_BYTES_def
          MAX_COMMIT_UNKNOWN_EVIDENCE_BYTES_def split: if_splits)
    have "p = outcome_code x # to_le_bytes (word_of_nat (length ?t) :: u32) @ ?t"
      using split_token [OF len] p(1) by simp
    then show ?thesis
      using True t finish_shape.receipt [of ?t a] finish_shape.evidence [of ?t a]
      by (auto simp: MAX_COMMIT_RECEIPT_BYTES_def MAX_COMMIT_UNKNOWN_EVIDENCE_BYTES_def)
  next
    case False
    then have "x = Denied \<or> x = FailedBeforeCommit" using p by (cases x) auto
    moreover have "rest = []" "r = None" "e = None"
      using assms False by (auto simp: p decode_finish_payload_def decode_outcome_code split: if_splits)
    ultimately show ?thesis using p(1) by (auto intro: finish_shape.bare)
  qed
qed

lemma decode_finish_shape: "decode_finish_payload p a = Ok (x, r, e) \<longleftrightarrow> finish_shape a x r e p"
  using decode_finish_sound decode_finish_complete by blast

section \<open>Reconciliation verdicts\<close>

lemma reader_byte_Ok: "PayloadReader_byte bs = Ok (x, r) \<longleftrightarrow> bs = x # r"
  by (cases bs) (auto simp: PayloadReader_byte_def PayloadReader_take_def take_bytes_def)

lemma reader_u32_Ok: "PayloadReader_u32 bs = Ok (v, r) \<longleftrightarrow> bs = to_le_bytes v @ r"
  by (auto simp: PayloadReader_u32_def PayloadReader_take_def and_then_Ok take_bytes_Ok)

lemma reader_u64_Ok: "PayloadReader_u64 bs = Ok (v, r) \<longleftrightarrow> bs = to_le_bytes v @ r"
  by (auto simp: PayloadReader_u64_def PayloadReader_take_def and_then_Ok take_bytes_Ok)

lemma reader_take_Ok: "PayloadReader_take n bs = Ok (x, r) \<longleftrightarrow> bs = x @ r \<and> length x = n"
  by (simp add: PayloadReader_take_def take_bytes_Ok)

inductive reconcile_shape :: "AttemptId \<Rightarrow> ReconciledCommit \<Rightarrow> bytes \<Rightarrow> bool" where
  not_committed: "reconcile_shape a ReconciledNotCommitted [1, 2]"
| committed: "unat n = length t \<Longrightarrow> t \<noteq> [] \<Longrightarrow>
    reconcile_shape a (ReconciledCommitted \<lparr>rc_attempt_id = a, rc_token = t\<rparr>)
      (1 # 1 # to_le_bytes (attempt_u64 a) @ to_le_bytes (n :: u32) @ t)"

lemma decode_reconcile_shape: "decode_reconcile_payload p a = Ok v \<longleftrightarrow> reconcile_shape a v p"
proof
  show "reconcile_shape a v p" if "decode_reconcile_payload p a = Ok v"
    using that
    by (auto simp: decode_reconcile_payload_def and_then_Ok payload_consts reader_byte_Ok reader_u64_Ok
        reader_u32_Ok reader_take_Ok CommitReceipt_new_def split: if_splits
        intro: reconcile_shape.intros reconcile_shape.committed [where a = "AttemptId x" for x, simplified, OF sym])
  show "decode_reconcile_payload p a = Ok v" if "reconcile_shape a v p"
    using that
    by (induction rule: reconcile_shape.induct)
      (simp_all add: decode_reconcile_payload_def payload_consts CommitReceipt_new_def
        reader_take [of _ _ "[]", simplified])
qed

text \<open>The verdicts whose frame can be read back.\<close>

fun readable_verdict :: "AttemptId \<Rightarrow> ReconciledCommit \<Rightarrow> bool" where
  "readable_verdict a (ReconciledCommitted r) \<longleftrightarrow> rc_attempt_id r = a \<and> rc_token r \<noteq> []"
| "readable_verdict a ReconciledNotCommitted \<longleftrightarrow> True"

lemma encode_reconcile_shape:
  assumes "encode_reconcile_payload v = Ok p" "readable_verdict a v"
  shows "reconcile_shape a v p"
proof (cases v)
  case (ReconciledCommitted c)
  obtain n :: u32 where n: "unat n = length (rc_token c)"
      "p = 1 # 1 # to_le_bytes (attempt_u64 a) @ to_le_bytes n @ rc_token c"
    using assms by (auto simp: ReconciledCommitted encode_reconcile_payload_def and_then_Ok Let_def
        narrow_Some writer_defs payload_consts split: if_splits)
  moreover have "c = \<lparr>rc_attempt_id = a, rc_token = rc_token c\<rparr>"
    using assms(2) ReconciledCommitted by simp
  ultimately show ?thesis
    using reconcile_shape.committed [of n "rc_token c" a] assms(2) ReconciledCommitted by simp
next
  case ReconciledNotCommitted
  then show ?thesis
    using assms(1) by (auto simp: encode_reconcile_payload_def writer_defs payload_consts
        intro: reconcile_shape.not_committed)
qed

lemma reconcile_shape_encode:
  assumes "reconcile_shape a v p" "length p \<le> MAX_RECORD_PAYLOAD"
  shows "encode_reconcile_payload v = Ok p"
  using assms
proof (induction rule: reconcile_shape.induct)
  case (committed n t a)
  then have "narrow (length t) = Some n" by (simp add: narrow_Some)
  then show ?case
    using committed by (simp add: encode_reconcile_payload_def Let_def writer_defs payload_consts)
qed (simp add: encode_reconcile_payload_def writer_defs payload_consts)

text \<open>A receipt with an empty token is written but cannot be read.\<close>

lemma empty_token_unreadable:
  "encode_reconcile_payload (ReconciledCommitted \<lparr>rc_attempt_id = a, rc_token = []\<rparr>) =
     Ok (1 # 1 # to_le_bytes (attempt_u64 a) @ to_le_bytes (0 :: u32))"
  "decode_reconcile_payload (1 # 1 # to_le_bytes (attempt_u64 a) @ to_le_bytes (0 :: u32)) a =
     Err (InvalidRecord ''reconciled receipt token is empty'')"
  using narrow_unat [of "0 :: u32"] reader_u32 [of 0 "[]"]
  by (simp_all add: encode_reconcile_payload_def decode_reconcile_payload_def writer_defs payload_consts
      Let_def invalid_payload_def PayloadReader_take_def take_bytes_def)

end
