(* ===== verification/Durable_Log.thy ===== *)
theory Durable_Log
  imports Durable_Audit Payload_Codec
begin

text \<open>
  The journal as a log: a frame is read back exactly as it was written, a torn frame is always
  recognised, the bytes of a usable log parse to its attempts in memory, and histories only grow.
\<close>

section \<open>Frames\<close>

lemma read_byte_Ok: "read_byte bs = Ok (x, r) \<longleftrightarrow> bs = x # r"
  by (cases bs) (auto simp: read_byte_def take_bytes_def)

lemma read_u16_Ok: "read_u16 bs = Ok (v, r) \<longleftrightarrow> bs = to_le_bytes v @ r"
  by (auto simp: read_u16_def and_then_Ok take_bytes_Ok)

lemma read_u32_Ok: "read_u32 bs = Ok (v, r) \<longleftrightarrow> bs = to_le_bytes v @ r"
  by (auto simp: read_u32_def and_then_Ok take_bytes_Ok)

lemma read_u64_Ok: "read_u64 bs = Ok (v, r) \<longleftrightarrow> bs = to_le_bytes v @ r"
  by (auto simp: read_u64_def and_then_Ok take_bytes_Ok)

lemmas read_Ok = read_byte_Ok read_u16_Ok read_u32_Ok read_u64_Ok

lemma read_written [simp]:
  "read_byte (x # r) = Ok (x, r)" "read_u16 (to_le_bytes v16 @ r) = Ok (v16, r)"
  "read_u32 (to_le_bytes v32 @ r) = Ok (v32, r)" "read_u64 (to_le_bytes v64 @ r) = Ok (v64, r)"
  by (simp_all add: read_Ok)

definition frame_header :: "u64 \<Rightarrow> u8 \<Rightarrow> AttemptId \<Rightarrow> u32 \<Rightarrow> bytes" where
  "frame_header e k a n = frame_body e k a n []"

lemma frame_body_header: "frame_body e k a n p = frame_header e k a n @ p"
  by (simp add: frame_header_def frame_body_def)

lemma length_frame_header [simp]: "length (frame_header e k a n) = HEADER_LEN"
  by (simp add: frame_header_def frame_body_def frame_consts)

lemma frame_bytes_split:
  "frame_bytes e k a n p = frame_header e k a n @ p @ to_le_bytes (checksum (frame_body e k a n p))"
  by (simp add: frame_bytes_def Let_def frame_body_header)

lemma length_frame_bytes [simp]: "length (frame_bytes e k a n p) = HEADER_LEN + length p + CHECKSUM_LEN"
  by (simp add: frame_bytes_split CHECKSUM_LEN_def)

text \<open>Parsing once the header has been recognised.\<close>

lemma parse_after_header:
  assumes "CHECKSUM_LEN \<le> length rest"
  shows "parse_frame e (frame_header e k a n @ rest) =
    (if unat n > MAX_RECORD_PAYLOAD then Err (RecordTooLarge (unat n))
     else if length rest < unat n + CHECKSUM_LEN then Err TruncatedRecord
     else and_then (read_u64 (drop (unat n) rest)) (\<lambda>(stored, r).
       if checksum (frame_header e k a n @ take (unat n) rest) \<noteq> stored then Err (ChecksumMismatch e)
       else Ok ((k, a, take (unat n) rest), r)))"
proof -
  let ?f = "frame_header e k a n @ rest"
  have f: "?f = MAGIC @ to_le_bytes VERSION @ [k, 0] @ to_le_bytes e @ to_le_bytes (attempt_u64 a) @
      to_le_bytes n @ rest"
    by (simp add: frame_header_def frame_body_def)
  have len: "length ?f = HEADER_LEN + length rest" by simp
  have cut: "take (HEADER_LEN + m) ?f = frame_header e k a n @ take m rest" for m by simp
  show ?thesis
    unfolding parse_frame_def len cut using assms
    by (simp add: f Let_def) (simp only: AttemptId.collapse simp_thms)
qed

lemma parse_frame_complete:
  assumes "unat n = length p" "length p \<le> MAX_RECORD_PAYLOAD"
  shows "parse_frame e (frame_bytes e k a n p @ r) = Ok ((k, a, p), r)"
  using assms by (simp add: frame_bytes_split parse_after_header CHECKSUM_LEN_def frame_body_header)

lemma parse_frame_header:
  assumes "parse_frame e bs = Ok ((k, a, p), r)"
  obtains n rest where "bs = frame_header e k a n @ rest" "CHECKSUM_LEN \<le> length rest"
proof -
  have len: "HEADER_LEN + CHECKSUM_LEN \<le> length bs" and magic: "take (length MAGIC) bs = MAGIC"
    using assms by (auto simp: parse_frame_def split: if_splits)
  obtain n rest where "drop (length MAGIC) bs = to_le_bytes VERSION @ k # 0 # to_le_bytes e @
      to_le_bytes (attempt_u64 a) @ to_le_bytes (n :: u32) @ rest"
    using assms by (auto simp: parse_frame_def and_then_Ok Let_def read_Ok split: if_splits)
  then have "bs = frame_header e k a n @ rest"
    using append_take_drop_id [of "length MAGIC" bs] magic by (auto simp: frame_header_def frame_body_def)
  then show thesis
    using len that by simp
qed

lemma parse_frame_sound:
  assumes "parse_frame e bs = Ok ((k, a, p), r)"
  obtains n where "unat n = length p" "length p \<le> MAX_RECORD_PAYLOAD" "bs = frame_bytes e k a n p @ r"
proof -
  obtain n rest where bs: "bs = frame_header e k a n @ rest" "CHECKSUM_LEN \<le> length rest"
    using parse_frame_header [OF assms] .
  note ok = assms [unfolded bs(1) parse_after_header [OF bs(2)]]
  have n: "\<not> MAX_RECORD_PAYLOAD < unat n" "\<not> length rest < unat n + CHECKSUM_LEN"
    using ok by (simp_all split: if_splits)
  have p: "p = take (unat n) rest"
      "drop (unat n) rest = to_le_bytes (checksum (frame_header e k a n @ take (unat n) rest)) @ r"
    using ok by (simp_all add: n and_then_Ok read_Ok split: if_splits)
  have "rest = p @ to_le_bytes (checksum (frame_header e k a n @ p)) @ r"
    using append_take_drop_id [of "unat n" rest] unfolding p by simp
  moreover have "length p = unat n"
    using n by (simp add: p(1))
  ultimately show thesis
    using that [of n] n by (simp add: bs(1) frame_bytes_split frame_body_header)
qed

text \<open>A frame that was cut anywhere is reported as truncated.\<close>

lemma parse_frame_torn:
  assumes "unat n = length p" "length p \<le> MAX_RECORD_PAYLOAD" "j < length (frame_bytes e k a n p)"
  shows "parse_frame e (take j (frame_bytes e k a n p)) = Err TruncatedRecord"
proof (cases "j < HEADER_LEN + CHECKSUM_LEN")
  case True
  then show ?thesis by (simp add: parse_frame_def)
next
  case False
  let ?rest = "take (j - HEADER_LEN) (p @ to_le_bytes (checksum (frame_body e k a n p)))"
  have "take j (frame_bytes e k a n p) = frame_header e k a n @ ?rest"
    using False by (simp add: frame_bytes_split)
  moreover have "CHECKSUM_LEN \<le> length ?rest" "length ?rest < unat n + CHECKSUM_LEN"
    using False assms by (auto simp: CHECKSUM_LEN_def)
  ultimately show ?thesis
    using assms by (simp add: parse_after_header)
qed

section \<open>The parse loop\<close>

lemma parse_frame_append:
  assumes "parse_frame e bs = Ok (f, r)"
  shows "parse_frame e (bs @ x) = Ok (f, r @ x)"
proof -
  obtain k a p where f: "f = (k, a, p)" by (cases f)
  obtain n where "unat n = length p" "length p \<le> MAX_RECORD_PAYLOAD" "bs = frame_bytes e k a n p @ r"
    using parse_frame_sound [OF assms [unfolded f]] .
  then show ?thesis
    by (simp add: f parse_frame_complete)
qed

lemma parse_loop_Nil [simp]: "parse_loop e m [] = Ok (Some e, m)"
  by (simp add: parse_loop.simps)

lemma parse_loop_step:
  "bs \<noteq> [] \<Longrightarrow> parse_loop e m bs = Ok y \<longleftrightarrow>
     (\<exists>f r m' e'. parse_frame e bs = Ok (f, r) \<and> apply_frame e f m = Ok m' \<and>
        checked_add e 1 = Some e' \<and> parse_loop e' m' r = Ok y)"
  by (subst parse_loop.simps) (auto simp: and_then_Ok)

lemma parse_loop_append:
  "parse_loop e m bs = Ok (Some e', m') \<Longrightarrow> parse_loop e m (bs @ x) = parse_loop e' m' x"
proof (induction e m bs rule: parse_loop.induct)
  case (1 e m bs)
  show ?case
  proof (cases "bs = []")
    case False
    obtain f r m1 e1 where r: "parse_frame e bs = Ok (f, r)" "apply_frame e f m = Ok m1"
        "checked_add e 1 = Some e1" "parse_loop e1 m1 r = Ok (Some e', m')"
      using "1.prems" by (auto simp: parse_loop_step [OF False])
    have "parse_loop e m (bs @ x) = parse_loop e1 m1 (r @ x)"
      using False r by (simp add: parse_loop.simps [of e m "bs @ x"] parse_frame_append)
    then show ?thesis
      using "1.IH" [OF False r(1) refl r(2), of e1] r by simp
  qed (use "1.prems" in simp)
qed

lemma parse_loop_next:
  "parse_loop e m bs = Ok (nx, m') \<Longrightarrow>
     \<exists>e'. nx = Some e' \<and> unat e \<le> unat e' \<and> 40 * (unat e' - unat e) \<le> length bs"
proof (induction e m bs rule: parse_loop.induct)
  case (1 e m bs)
  show ?case
  proof (cases "bs = []")
    case False
    obtain f r m1 e1 where r: "parse_frame e bs = Ok (f, r)" "apply_frame e f m = Ok m1"
        "checked_add e 1 = Some e1" "parse_loop e1 m1 r = Ok (nx, m')"
      using "1.prems" by (auto simp: parse_loop_step [OF False])
    obtain k a p where f: "f = (k, a, p)" by (cases f)
    obtain n where "bs = frame_bytes e k a n p @ r"
      using parse_frame_sound [OF r(1) [unfolded f]] .
    then have "40 + length r \<le> length bs"
      by (simp add: HEADER_LEN_def CHECKSUM_LEN_def)
    moreover have "unat e1 = unat e + 1"
      using r(3) by (simp add: checked_add_Some_iff)
    moreover obtain e' where "nx = Some e'" "unat e1 \<le> unat e'" "40 * (unat e' - unat e1) \<le> length r"
      using "1.IH" [OF False r(1) refl r(2), of e1] r by auto
    ultimately show ?thesis by auto
  qed (use "1.prems" in auto)
qed

section \<open>Changes of the log\<close>

text \<open>
  Every operation of the log is one of three changes: the log is left alone or only marked unusable,
  a prefix of one frame reaches the file and the log is unusable, or one whole frame is appended and
  the attempts take the transition that the frame records.
\<close>

inductive log_change :: "DurableState \<Rightarrow> DurableState \<Rightarrow> bool" where
  same: "log_change s (s\<lparr>ds_unusable := ds_unusable s \<or> u\<rparr>)"
| torn: "\<not> ds_unusable s \<Longrightarrow> ds_next_sequence s = Some e \<Longrightarrow>
    apply_frame e (k, a, p) (ds_attempts s) = Ok m \<Longrightarrow> unat n = length p \<Longrightarrow> length p \<le> MAX_RECORD_PAYLOAD \<Longrightarrow>
    unat (ds_length s) + length (frame_bytes e k a n p) \<le> unat (ds_capacity s) \<Longrightarrow>
    log_change s (s\<lparr>ds_file := ds_file s @ take j (frame_bytes e k a n p), ds_unusable := True\<rparr>)"
| whole: "\<not> ds_unusable s \<Longrightarrow> ds_next_sequence s = Some e \<Longrightarrow>
    apply_frame e (k, a, p) (ds_attempts s) = Ok m \<Longrightarrow> unat n = length p \<Longrightarrow> length p \<le> MAX_RECORD_PAYLOAD \<Longrightarrow>
    unat (ds_length s) + length (frame_bytes e k a n p) \<le> unat (ds_capacity s) \<Longrightarrow>
    unat l = unat (ds_length s) + length (frame_bytes e k a n p) \<Longrightarrow>
    log_change s (s\<lparr>ds_file := ds_file s @ frame_bytes e k a n p, ds_length := l,
      ds_attempts := m, ds_next_sequence := checked_add e 1\<rparr>)"

lemma same_refl: "log_change s s"
  using log_change.same [of s False] by simp

lemma same_mark: "log_change s (s\<lparr>ds_unusable := True\<rparr>)"
  using log_change.same [of s True] by simp

lemma append_change:
  assumes "\<not> ds_unusable s"
    and "\<And>e. ds_next_sequence s = Some e \<Longrightarrow> apply_frame e (k, a, p) (ds_attempts s) = Ok (upd e (ds_attempts s))"
  shows "log_change s (snd (append_and_record io k a p upd s))"
proof (cases "ds_next_sequence s")
  case None
  then show ?thesis by (simp add: append_and_record_def next_sequence_def same_refl)
next
  case (Some e)
  note defs = append_and_record_def next_sequence_def append_frame_def Some
  show ?thesis
  proof (cases "validate_append_target (io_before io) s (ds_length s)")
    case (Inl err)
    then show ?thesis by (simp add: defs same_mark)
  next
    case before: (Inr u)
    show ?thesis
    proof (cases "length p \<le> MAX_RECORD_PAYLOAD \<and> (\<exists>n :: u32. narrow (length p) = Some n)")
      case False
      then show ?thesis
        using before by (auto simp: defs same_refl split: option.split)
    next
      case True
      then obtain n :: u32 where n: "narrow (length p) = Some n" "length p \<le> MAX_RECORD_PAYLOAD" by blast
      then have len: "unat n = length p" by (simp add: narrow_Some)
      let ?f = "frame_bytes e k a n p"
      show ?thesis
      proof (cases "\<exists>fl l. narrow (length ?f) = Some fl \<and> checked_add (ds_length s) fl = Some l \<and> l \<le> ds_capacity s")
        case False
        then show ?thesis
          using before n by (auto simp: defs Let_def same_refl not_le split: option.split)
      next
        case True
        then obtain fl l where l: "narrow (length ?f) = Some fl" "checked_add (ds_length s) fl = Some l"
            "l \<le> ds_capacity s" by blast
        have ul: "unat l = unat (ds_length s) + length ?f"
          using l(1,2) by (simp add: narrow_Some checked_add_Some_iff)
        then have cap: "unat (ds_length s) + length ?f \<le> unat (ds_capacity s)"
          using l(3) by (simp add: word_le_nat_alt)
        note torn = log_change.torn [OF assms(1) Some assms(2) [OF Some] len n(2) cap]
        note whole = log_change.whole [OF assms(1) Some assms(2) [OF Some] len n(2) cap ul]
        show ?thesis
          using before n l torn whole torn [of "length ?f"]
          by (auto simp: defs Let_def split: option.split sum.split)
      qed
    qed
  qed
qed

lemma begin_attempt_change: "log_change s (snd (begin_attempt io inst a caller cap reqs epoch s))"
proof (cases "encode_attempt_payload inst caller cap reqs epoch")
  case (Inr p)
  have "log_change s (snd (append_and_record io START_KIND a p
      (\<lambda>sequence m. fmupd a (started_attempt a p sequence) m) s))"
    if "\<not> ds_unusable s" "fmlookup (ds_attempts s) a = None"
    using that by (intro append_change) (simp_all add: apply_frame_def)
  then show ?thesis
    by (simp add: begin_attempt_def Inr same_refl)
qed (simp add: begin_attempt_def same_refl)

lemma finish_attempt_change: "log_change s (snd (finish_attempt io a x r ev s))"
proof (cases "encode_finish_payload a x r ev")
  case (Inr p)
  then have dec: "decode_finish_payload p a = Ok (x, r, ev)"
    by (simp add: encode_finish_shape decode_finish_shape)
  have "log_change s (snd (append_and_record io FINISH_KIND a p
      (\<lambda>sequence m. fmupd a (finished_attempt x r ev sequence y) m) s))"
    if "\<not> ds_unusable s" "fmlookup (ds_attempts s) a = Some y" "da_outcome y = Started" for y
    using that dec by (intro append_change) (simp_all add: apply_frame_def kind_defs)
  then show ?thesis
    by (simp add: finish_attempt_def Inr same_refl split: option.split)
qed (simp add: finish_attempt_def same_refl)

lemma reconcile_attempt_change:
  assumes "readable_verdict a v"
  shows "log_change s (snd (reconcile_attempt io a v s))"
proof (cases "encode_reconcile_payload v")
  case (Inr p)
  then have dec: "decode_reconcile_payload p a = Ok v"
    using assms by (simp add: encode_reconcile_shape decode_reconcile_shape)
  have "log_change s (snd (append_and_record io RECONCILE_KIND a p
      (\<lambda>_ m. fmupd a (y\<lparr>da_reconciliation := Some v\<rparr>) m) s))"
    if "\<not> ds_unusable s" "fmlookup (ds_attempts s) a = Some y" "da_outcome y = CommitUnknown"
      "da_reconciliation y = None" for y
    using that dec by (intro append_change) (simp_all add: apply_frame_def apply_reconcile_frame_def kind_defs)
  then show ?thesis
    by (simp add: reconcile_attempt_def Inr same_refl split: option.split ReconciledCommit.split)
qed (simp add: reconcile_attempt_def same_refl split: ReconciledCommit.split)

section \<open>The invariant\<close>

text \<open>
  The bytes of the file are a journal that parses to the attempts in memory, followed, in an
  unusable log only, by a prefix of one frame that would have been accepted next.
\<close>

definition torn_tail :: "u64 \<Rightarrow> attempts \<Rightarrow> bytes \<Rightarrow> bool" where
  "torn_tail e m t \<longleftrightarrow> (\<exists>k a n p m' j. t = take j (frame_bytes e k a n p) \<and> unat n = length p \<and>
     length p \<le> MAX_RECORD_PAYLOAD \<and> apply_frame e (k, a, p) m = Ok m')"

definition log_inv :: "DurableState \<Rightarrow> bool" where
  "log_inv s \<longleftrightarrow> ds_capacity s \<le> MAX_JOURNAL_BYTES \<and> length (ds_file s) \<le> unat (ds_capacity s) \<and>
     (\<exists>e good tail. ds_file s = good @ tail \<and> ds_next_sequence s = Some e \<and>
        parse_loop 0 fmempty good = Ok (Some e, ds_attempts s) \<and> (tail = [] \<or> torn_tail e (ds_attempts s) tail) \<and>
        (\<not> ds_unusable s \<longrightarrow> tail = [] \<and> unat (ds_length s) = length (ds_file s)))"

lemma log_invI:
  assumes "ds_capacity s \<le> MAX_JOURNAL_BYTES" "length (ds_file s) \<le> unat (ds_capacity s)"
    "ds_file s = good @ tail" "ds_next_sequence s = Some e"
    "parse_loop 0 fmempty good = Ok (Some e, ds_attempts s)" "tail = [] \<or> torn_tail e (ds_attempts s) tail"
    "\<not> ds_unusable s \<Longrightarrow> tail = [] \<and> unat (ds_length s) = length (ds_file s)"
  shows "log_inv s"
  unfolding log_inv_def using assms by blast

lemma log_inv_usable:
  assumes "log_inv s" "\<not> ds_unusable s" "ds_next_sequence s = Some e"
  shows "ds_capacity s \<le> MAX_JOURNAL_BYTES" "length (ds_file s) \<le> unat (ds_capacity s)"
    "parse_loop 0 fmempty (ds_file s) = Ok (Some e, ds_attempts s)" "unat (ds_length s) = length (ds_file s)"
  using assms by (auto simp: log_inv_def)

lemma log_inv_next_bound:
  assumes "log_inv s" "ds_next_sequence s = Some e"
  shows "checked_add e 1 = Some (e + 1)"
proof -
  obtain good tail where good: "ds_file s = good @ tail" "parse_loop 0 fmempty good = Ok (Some e, ds_attempts s)"
    using assms by (auto simp: log_inv_def)
  have "40 * unat e \<le> length good"
    using parse_loop_next [OF good(2)] by simp
  moreover have "length good \<le> 128 * 1024 * 1024"
    using assms(1) good(1) by (auto simp: log_inv_def word_le_nat_alt MAX_JOURNAL_BYTES_def)
  ultimately have "unat e + 1 < 2 ^ 64" by simp
  then show ?thesis
    by (auto simp: checked_add_Some_iff unat_word_ariths)
qed

lemma log_inv_change: "log_change s t \<Longrightarrow> log_inv s \<Longrightarrow> log_inv t"
proof (induction rule: log_change.induct)
  case (same s u)
  then show ?case by (auto simp: log_inv_def)
next
  case (torn s e k a p m n j)
  note inv = log_inv_usable [OF \<open>log_inv s\<close> torn(1,2)]
  have "torn_tail e (ds_attempts s) (take j (frame_bytes e k a n p))"
    unfolding torn_tail_def using torn by blast
  moreover have "length (take j (frame_bytes e k a n p)) \<le> length (frame_bytes e k a n p)" by simp
  ultimately show ?case
    using inv torn(2,6)
    by (intro log_invI [where good = "ds_file s" and tail = "take j (frame_bytes e k a n p)" and e = e]) auto
next
  case (whole s e k a p m n l)
  note inv = log_inv_usable [OF \<open>log_inv s\<close> whole(1,2)]
  note nb = log_inv_next_bound [OF \<open>log_inv s\<close> whole(2)]
  have "frame_bytes e k a n p \<noteq> []"
    using length_frame_bytes [of e k a n p] by (force simp: CHECKSUM_LEN_def)
  then have "parse_loop e (ds_attempts s) (frame_bytes e k a n p) = Ok (Some (e + 1), m)"
    using whole nb parse_frame_complete [of n p e k a "[]"] by (simp add: parse_loop_step)
  then show ?case
    using inv whole nb
    by (intro log_invI [where good = "ds_file s @ frame_bytes e k a n p" and tail = "[]" and e = "e + 1"])
      (auto simp: parse_loop_append)
qed

section \<open>Reachable logs\<close>

text \<open>
  One step of a log: an operation, or a crash followed by reopening the file with any capacity.
  The verdicts of reconciliation are those whose frame can be read back.
\<close>

inductive log_step :: "DurableState \<Rightarrow> DurableState \<Rightarrow> bool" where
  begin_step: "log_step s (snd (begin_attempt io inst a caller cap reqs epoch s))"
| finish_step: "log_step s (snd (finish_attempt io a x r ev s))"
| reconcile_step: "readable_verdict a v \<Longrightarrow> log_step s (snd (reconcile_attempt io a v s))"
| reopen_step: "open_with_max_bytes None (ds_file s) c = Ok t \<Longrightarrow> log_step s t"

definition log_reachable :: "DurableState \<Rightarrow> bool" where
  "log_reachable s \<longleftrightarrow> (\<exists>c t. create_with_max_bytes None c = Ok t \<and> log_step\<^sup>*\<^sup>* t s)"

lemma journal_capacity_Ok: "validate_capacity c = Ok u \<longleftrightarrow> c \<le> MAX_JOURNAL_BYTES"
  by (auto simp: validate_capacity_def)

lemma open_Ok:
  "open_with_max_bytes None f c = Ok t \<longleftrightarrow>
     (\<exists>e m. c \<le> MAX_JOURNAL_BYTES \<and> file_len f \<le> c \<and> parse_loop 0 fmempty f = Ok (Some e, m) \<and>
        t = \<lparr>ds_file = f, ds_next_sequence = Some e, ds_attempts = m, ds_unusable = False,
             ds_length = file_len f, ds_capacity = c\<rparr>)"
  using parse_loop_next [of 0 fmempty f]
  by (auto simp: open_with_max_bytes_def and_then_Ok validate_capacity_def parse_journal_def split: if_splits)

lemma unat_file_len: "length f \<le> unat c \<Longrightarrow> unat (file_len f) = length f" for c :: u64
  using u64_less [of c] by (simp add: file_len_def unat_of_nat)

lemma file_len_eqI: "length f = unat w \<Longrightarrow> file_len f = w"
  by (simp add: file_len_def)

lemma file_len_le: "length f \<le> unat c \<Longrightarrow> file_len f \<le> c"
  by (simp add: word_le_nat_alt unat_file_len)

lemma log_inv_create: "create_with_max_bytes None c = Ok s \<Longrightarrow> log_inv s"
  by (auto simp: create_with_max_bytes_def and_then_Ok validate_capacity_def split: if_splits
      intro!: log_invI [where good = "[]" and tail = "[]" and e = 0])

lemma file_len_exact:
  assumes "file_len f \<le> c" "length f < 2 ^ 64"
  shows "length f \<le> unat c"
  using assms by (simp add: file_len_def word_le_nat_alt unat_of_nat)

lemma log_inv_step: "log_step s t \<Longrightarrow> log_inv s \<Longrightarrow> log_inv t"
proof (induction rule: log_step.induct)
  case (reopen_step s c t)
  have "length (ds_file s) < 2 ^ 64"
    using reopen_step.prems u64_less [of "ds_capacity s"] by (simp add: log_inv_def)
  moreover from this have "unat (file_len (ds_file s)) = length (ds_file s)"
    by (simp add: file_len_def unat_of_nat)
  ultimately show ?case
    using reopen_step.hyps by (auto simp: open_Ok file_len_exact
        intro!: log_invI [where tail = "[]" and good = "ds_file s"])
qed (blast intro: log_inv_change begin_attempt_change finish_attempt_change reconcile_attempt_change)+

lemma reachable_log_inv: "log_reachable s \<Longrightarrow> log_inv s"
proof -
  assume "log_reachable s"
  then obtain c t where "create_with_max_bytes None c = Ok t" "log_step\<^sup>*\<^sup>* t s"
    by (auto simp: log_reachable_def)
  from this(2) log_inv_create [OF this(1)] show ?thesis
    by (induction rule: rtranclp_induct) (auto intro: log_inv_step)
qed

section \<open>Recovery\<close>

lemma usable_reopens:
  assumes "log_inv s" "\<not> ds_unusable s"
  shows "open_with_max_bytes None (ds_file s) (ds_capacity s) = Ok s"
proof -
  obtain e where e: "ds_next_sequence s = Some e" using assms by (auto simp: log_inv_def)
  note inv = log_inv_usable [OF assms e]
  have "ds_length s = file_len (ds_file s)"
    using inv unat_file_len [OF inv(2)] by (metis word_unat_eq_iff)
  then show ?thesis
    using inv file_len_le [OF inv(2)] e assms(2) by (simp add: open_Ok)
qed

text \<open>What a restart finds after a crash: nothing of the last frame, all of it, or a torn frame.\<close>

lemma parse_torn_tail:
  assumes "torn_tail e m t" "checked_add e 1 = Some (e + 1)"
  shows "parse_loop e m t = Ok (Some e, m) \<or> parse_loop e m t = Err TruncatedRecord \<or>
    (\<exists>f m'. apply_frame e f m = Ok m' \<and> parse_loop e m t = Ok (Some (e + 1), m'))"
proof -
  obtain k a n p m' j where t: "t = take j (frame_bytes e k a n p)" "unat n = length p"
      "length p \<le> MAX_RECORD_PAYLOAD" "apply_frame e (k, a, p) m = Ok m'"
    using assms(1) by (auto simp: torn_tail_def)
  consider "t = []" | "t \<noteq> []" "j < length (frame_bytes e k a n p)" | "t \<noteq> []" "t = frame_bytes e k a n p"
    using t(1) by fastforce
  then show ?thesis
  proof cases
    case 2
    then have "parse_loop e m t = Err TruncatedRecord"
      using parse_frame_torn [OF t(2,3) 2(2)] 2(1) unfolding t(1) [symmetric]
      by (subst parse_loop.simps) simp
    then show ?thesis by simp
  next
    case 3
    then have "parse_loop e m t = Ok (Some (e + 1), m')"
      using parse_frame_complete [OF t(2,3), of e k a "[]"] t(4) assms(2) by (simp add: parse_loop_step)
    then show ?thesis using t(4) by blast
  qed simp
qed

section \<open>History\<close>

text \<open>
  An attempt keeps its start record for ever, its terminal record from the moment it has one, and its
  reconciliation from the moment it has one.
\<close>

definition attempt_later :: "DurableAttemptState \<Rightarrow> DurableAttemptState \<Rightarrow> bool" where
  "attempt_later x y \<longleftrightarrow>
     da_attempt_id y = da_attempt_id x \<and> da_start_sequence y = da_start_sequence x \<and> da_payload y = da_payload x \<and>
     (da_outcome x \<noteq> Started \<longrightarrow>
        da_outcome y = da_outcome x \<and> da_finish_sequence y = da_finish_sequence x \<and>
        da_receipt y = da_receipt x \<and> da_commit_unknown_evidence y = da_commit_unknown_evidence x) \<and>
     (da_reconciliation x \<noteq> None \<longrightarrow> da_reconciliation y = da_reconciliation x)"

definition attempts_later :: "attempts \<Rightarrow> attempts \<Rightarrow> bool" where
  "attempts_later m m' \<longleftrightarrow>
     (\<forall>a x. fmlookup m a = Some x \<longrightarrow> (\<exists>y. fmlookup m' a = Some y \<and> attempt_later x y))"

lemma attempt_later_refl [simp]: "attempt_later x x"
  by (simp add: attempt_later_def)

lemma attempts_later_refl [simp]: "attempts_later m m"
  by (simp add: attempts_later_def)

lemma attempts_later_trans: "attempts_later m n \<Longrightarrow> attempts_later n q \<Longrightarrow> attempts_later m q"
proof -
  assume mn: "attempts_later m n" and nq: "attempts_later n q"
  have "attempt_later x y \<Longrightarrow> attempt_later y z \<Longrightarrow> attempt_later x z" for x y z
    by (auto simp: attempt_later_def)
  with mn nq show ?thesis unfolding attempts_later_def by blast
qed

lemma attempts_later_upd:
  "(\<And>x. fmlookup m a = Some x \<Longrightarrow> attempt_later x y) \<Longrightarrow> attempts_later m (fmupd a y m)"
  by (auto simp: attempts_later_def)

lemma apply_frame_later:
  assumes "apply_frame e f m = Ok m'"
  shows "attempts_later m m'"
proof -
  obtain k a p where f: "f = (k, a, p)" by (cases f)
  have "\<exists>y. m' = fmupd a y m \<and> (\<forall>x. fmlookup m a = Some x \<longrightarrow> attempt_later x y)"
    using assms unfolding f
    by (cases "fmlookup m a")
      (auto simp: apply_frame_def apply_reconcile_frame_def and_then_Ok attempt_later_def finished_attempt_def
        split: if_splits)
  then show ?thesis
    using attempts_later_upd by blast
qed

lemma parse_loop_later: "parse_loop e m bs = Ok (nx, m') \<Longrightarrow> attempts_later m m'"
proof (induction e m bs rule: parse_loop.induct)
  case (1 e m bs)
  show ?case
  proof (cases "bs = []")
    case False
    obtain f r m1 e1 where r: "parse_frame e bs = Ok (f, r)" "apply_frame e f m = Ok m1"
        "checked_add e 1 = Some e1" "parse_loop e1 m1 r = Ok (nx, m')"
      using "1.prems" by (auto simp: parse_loop_step [OF False])
    have "attempts_later m1 m'"
      using "1.IH" [OF False r(1) refl r(2), of e1] r by simp
    then show ?thesis
      using apply_frame_later [OF r(2)] attempts_later_trans by blast
  qed (use "1.prems" in auto)
qed

definition log_later :: "DurableState \<Rightarrow> DurableState \<Rightarrow> bool" where
  "log_later s t \<longleftrightarrow> prefix (ds_file s) (ds_file t) \<and> attempts_later (ds_attempts s) (ds_attempts t)"

lemma log_later_change: "log_change s t \<Longrightarrow> log_later s t"
  by (induction rule: log_change.induct) (auto simp: log_later_def dest: apply_frame_later)

lemma log_later_step: "log_step s t \<Longrightarrow> log_inv s \<Longrightarrow> log_later s t"
proof (induction rule: log_step.induct)
  case (reopen_step s c t)
  obtain e good tail where good: "ds_file s = good @ tail" "parse_loop 0 fmempty good = Ok (Some e, ds_attempts s)"
    using reopen_step.prems by (auto simp: log_inv_def)
  obtain e' where "parse_loop 0 fmempty (good @ tail) = Ok (Some e', ds_attempts t)" "ds_file t = ds_file s"
    using reopen_step.hyps good(1) by (auto simp: open_Ok)
  then show ?case
    using parse_loop_later [of e "ds_attempts s" tail] parse_loop_append [OF good(2)]
    by (auto simp: log_later_def)
qed (blast intro: log_later_change begin_attempt_change finish_attempt_change reconcile_attempt_change)+

lemma log_later_steps: "log_step\<^sup>*\<^sup>* s t \<Longrightarrow> log_inv s \<Longrightarrow> log_later s t \<and> log_inv t"
proof (induction rule: rtranclp_induct)
  case base
  then show ?case by (simp add: log_later_def)
next
  case (step t u)
  then have "log_later s t" "log_later t u" "log_inv u"
    using log_later_step log_inv_step by blast+
  then show ?case
    unfolding log_later_def using attempts_later_trans prefix_order.trans by blast
qed

section \<open>Progress\<close>

text \<open>A usable log with room accepts the next frame when the file operations succeed.\<close>

lemma append_succeeds:
  assumes inv: "log_inv s" "\<not> ds_unusable s" "ds_next_sequence s = Some e"
    and room: "length p \<le> MAX_RECORD_PAYLOAD" "length (ds_file s) + HEADER_LEN + length p + CHECKSUM_LEN \<le> unat (ds_capacity s)"
  shows "\<exists>n l. unat n = length p \<and> append_and_record io_ok k a p upd s =
    (Ok (), s\<lparr>ds_file := ds_file s @ frame_bytes e k a n p, ds_length := l,
              ds_attempts := upd e (ds_attempts s), ds_next_sequence := checked_add e 1\<rparr>)"
proof -
  note inv' = log_inv_usable [OF inv]
  have small: "length p < 2 ^ 32" using room(1) by (simp add: MAX_RECORD_PAYLOAD_def)
  obtain n :: u32 where n: "narrow (length p) = Some n" "unat n = length p"
    using narrow_fits [where 'w = 32] small by auto
  let ?f = "frame_bytes e k a n p"
  have "length ?f < 2 ^ 64"
    using room(2) u64_less [of "ds_capacity s"] by simp
  then obtain fl :: u64 where fl: "narrow (length ?f) = Some fl" "unat fl = length ?f"
    using narrow_fits [where 'w = 64 and n = "length ?f"] by auto
  have "unat (ds_length s) + unat fl < 2 ^ 64"
    using inv'(4) fl(2) room(2) u64_less [of "ds_capacity s"] by simp
  then have l: "unat (ds_length s + fl) = unat (ds_length s) + unat fl"
    by (simp add: unat_word_ariths)
  then have add: "checked_add (ds_length s) fl = Some (ds_length s + fl)"
    by (simp add: checked_add_Some_iff)
  have le: "ds_length s + fl \<le> ds_capacity s"
    using l inv'(4) fl(2) room(2) by (simp add: word_le_nat_alt)
  have len: "file_len (ds_file s) = ds_length s" "file_len (ds_file s @ ?f) = ds_length s + fl"
    using inv'(4) l fl(2) by (simp_all add: file_len_eqI)
  have ok: "ds_length s \<le> ds_capacity s"
    using inv'(2,4) by (simp add: word_le_nat_alt)
  show ?thesis
    by (rule exI [of _ n], rule exI [of _ "ds_length s + fl"])
      (simp add: append_and_record_def next_sequence_def inv append_frame_def validate_append_target_def io_ok_def
        Let_def len ok n fl [unfolded length_frame_bytes] add le room(1) not_less)
qed

end
