(* ===== verification/Audit_Mirror.thy ===== *)
theory Audit_Mirror
  imports Audit_Trail Durable_Log
begin

text \<open>
  The trail in memory and the durable log tell the same story: attempt identities are unique, every
  journal has its durable record with the same outcome and an encoded description of the same
  request set, and fresh identities lie above every recorded one.
\<close>

section \<open>What an append does to the attempts\<close>

lemma append_frame_frame:
  "append_frame io e k a p s = (r, s') \<Longrightarrow>
     ds_attempts s' = ds_attempts s \<and> ds_next_sequence s' = ds_next_sequence s \<and> (r = Ok u \<longrightarrow> ds_unusable s' = ds_unusable s)"
  by (auto simp: append_frame_def Let_def split: sum.splits option.splits if_splits)

lemma append_and_record_Ok:
  assumes "append_and_record io k a p upd s = (Ok u, s')"
  shows "\<exists>e. ds_attempts s' = upd e (ds_attempts s) \<and> ds_unusable s' = ds_unusable s"
  using assms append_frame_frame [of io _ k a p s]
  by (fastforce simp: append_and_record_def split: sum.splits prod.splits)

lemma append_and_record_Err:
  assumes "append_and_record io k a p upd s = (Err x, s')"
  shows "ds_attempts s' = ds_attempts s"
  using assms append_frame_frame [of io _ k a p s]
  by (fastforce simp: append_and_record_def split: sum.splits prod.splits)

lemma begin_attempt_Ok:
  assumes "begin_attempt io inst a caller cap reqs epoch s = (Ok u, s')"
  shows "\<exists>e p. encode_attempt_payload inst caller cap reqs epoch = Ok p \<and> fmlookup (ds_attempts s) a = None \<and>
    ds_attempts s' = fmupd a (started_attempt a p e) (ds_attempts s) \<and> \<not> ds_unusable s'"
  using assms by (fastforce simp: begin_attempt_def split: sum.splits if_splits dest: append_and_record_Ok)

lemma begin_attempt_Err:
  assumes "begin_attempt io inst a caller cap reqs epoch s = (Err x, s')"
  shows "ds_attempts s' = ds_attempts s"
  using assms by (auto simp: begin_attempt_def split: sum.splits if_splits dest: append_and_record_Err)

lemma finish_attempt_Ok:
  assumes "finish_attempt io a x rc ev s = (Ok u, s')"
  shows "\<exists>e y. fmlookup (ds_attempts s) a = Some y \<and> da_outcome y = Started \<and>
    ds_attempts s' = fmupd a (finished_attempt x rc ev e y) (ds_attempts s) \<and> \<not> ds_unusable s'"
  using assms
  by (cases "fmlookup (ds_attempts s) a")
    (fastforce simp: finish_attempt_def split: sum.splits if_splits dest: append_and_record_Ok)+

lemma finish_attempt_Err:
  assumes "finish_attempt io a x rc ev s = (Err y, s')"
  shows "ds_attempts s' = ds_attempts s"
  using assms
  by (cases "fmlookup (ds_attempts s) a")
    (auto simp: finish_attempt_def split: sum.splits if_splits dest: append_and_record_Err)

lemma log_inv_begin: "log_inv s \<Longrightarrow> log_inv (snd (begin_attempt io inst a caller cap reqs epoch s))"
  using log_inv_change begin_attempt_change by blast

lemma log_inv_finish: "log_inv s \<Longrightarrow> log_inv (snd (finish_attempt io a x rc ev s))"
  using log_inv_change finish_attempt_change by blast

section \<open>Outcome codes\<close>

lemma from_code_code [simp]: "AttemptOutcome_from_code (AttemptOutcome_code x) = x"
  by (cases x) (simp_all add: AttemptOutcome_from_code_def AttemptOutcome_code_def)

lemma code_inject [simp]: "AttemptOutcome_code x = AttemptOutcome_code y \<longleftrightarrow> x = y"
  by (metis from_code_code)

section \<open>The invariant of the trail\<close>

definition journal_set :: "AttemptJournal \<Rightarrow> CapabilityRequestSet" where
  "journal_set j = \<lparr>rs_first = aj_request j, rs_additional = aj_additional_requests j, rs_complete = True\<rparr>"

text \<open>The durable record of a journal.\<close>

definition mirrored :: "u64 \<Rightarrow> AttemptJournal \<Rightarrow> DurableAttemptState \<Rightarrow> bool" where
  "mirrored inst j x \<longleftrightarrow>
     da_attempt_id x = aj_id j \<and> aj_outcome j = AttemptOutcome_code (da_outcome x) \<and>
     encode_attempt_payload inst (aj_caller j) (aj_capability_id j) (journal_set j)
       (aj_authorization_epoch j) = Ok (da_payload x)"

definition ids_below :: "u64 option \<Rightarrow> AttemptId set \<Rightarrow> bool" where
  "ids_below nx A \<longleftrightarrow> (case nx of None \<Rightarrow> True | Some n \<Rightarrow> (\<forall>a\<in>A. attempt_u64 a < n))"

definition trail_inv :: "AuditTrail \<Rightarrow> bool" where
  "trail_inv t \<longleftrightarrow>
     distinct (map aj_id (at_attempts t)) \<and>
     (\<forall>j\<in>set (at_attempts t). aj_outcome j \<in> range AttemptOutcome_code) \<and>
     ids_below (at_next_attempt_sequence t) (aj_id ` set (at_attempts t)) \<and>
     (\<forall>b. at_backend t = Some b \<longrightarrow> log_inv b \<and>
        ids_below (at_next_attempt_sequence t) (fset (fmdom (ds_attempts b))) \<and>
        (\<forall>j\<in>set (at_attempts t). \<exists>x. fmlookup (ds_attempts b) (aj_id j) = Some x \<and>
           mirrored (at_state_instance t) j x))"

lemma ids_below_checked:
  assumes "ids_below (Some n) A"
  shows "ids_below (checked_add n 1) (insert (AttemptId n) A)"
proof (cases "checked_add n 1")
  case (Some m)
  have "n < m" using checked_succ_less [OF Some] .
  then show ?thesis
    using assms by (auto simp: ids_below_def Some)
qed (simp add: ids_below_def)

lemma ids_below_fresh: "ids_below (Some n) A \<Longrightarrow> AttemptId n \<notin> A"
  by (auto simp: ids_below_def)

lemma trail_inv_new: "trail_inv AuditTrail_new"
  by (simp add: trail_inv_def AuditTrail_new_def ids_below_def)

definition new_journal ::
    "SubjectId \<Rightarrow> CapId \<Rightarrow> CapabilityRequestSet \<Rightarrow> AuthorizationEpoch \<Rightarrow> u64 \<Rightarrow> AttemptJournal" where
  "new_journal caller i requests epoch n =
     \<lparr>aj_id = AttemptId n, aj_caller = caller, aj_capability_id = i, aj_request = rs_first requests,
      aj_additional_requests = rs_additional requests, aj_authorization_epoch = epoch,
      aj_outcome = AttemptOutcome_code Started\<rparr>"

lemma journal_set_new:
  "rs_complete requests \<Longrightarrow> journal_set (new_journal caller i requests epoch n) = requests"
  by (simp add: journal_set_def new_journal_def)

lemma start_Ok:
  assumes "start_request_set io caller i requests epoch t = (Ok g, t')"
  shows "g = length (at_attempts t) \<and> (\<exists>n backend. at_next_attempt_sequence t = Some n \<and>
    t' = t\<lparr>at_next_attempt_sequence := checked_add n 1,
           at_attempts := at_attempts t @ [new_journal caller i requests epoch n], at_backend := backend\<rparr> \<and>
    (case at_backend t of None \<Rightarrow> backend = None
     | Some b \<Rightarrow> \<exists>b'. backend = Some b' \<and>
         begin_attempt io (at_state_instance t) (AttemptId n) caller i requests epoch b = (Ok (), b')))"
  using assms
  by (cases "at_backend t")
    (auto simp: start_request_set_def new_journal_def Let_def split: option.splits sum.splits prod.splits)

lemma trail_inv_start_Ok:
  assumes start: "start_request_set io caller i requests epoch t = (Ok g, t')" and inv: "trail_inv t"
  shows "trail_inv t'"
proof -
  obtain n backend where n: "at_next_attempt_sequence t = Some n"
    and t': "t' = t\<lparr>at_next_attempt_sequence := checked_add n 1,
            at_attempts := at_attempts t @ [new_journal caller i requests epoch n], at_backend := backend\<rparr>"
    and bg: "case at_backend t of None \<Rightarrow> backend = None
     | Some b \<Rightarrow> \<exists>b'. backend = Some b' \<and>
         begin_attempt io (at_state_instance t) (AttemptId n) caller i requests epoch b = (Ok (), b')"
    using start_Ok [OF start] by auto
  let ?j = "new_journal caller i requests epoch n"
  have id: "aj_id ?j = AttemptId n" by (simp add: new_journal_def)
  have fresh: "AttemptId n \<notin> aj_id ` set (at_attempts t)"
    using inv n ids_below_fresh by (auto simp: trail_inv_def)
  have bk: "log_inv b' \<and> ids_below (checked_add n 1) (fset (fmdom (ds_attempts b'))) \<and>
      (\<forall>j\<in>set (at_attempts t @ [?j]). \<exists>x. fmlookup (ds_attempts b') (aj_id j) = Some x \<and>
         mirrored (at_state_instance t) j x)" if bs: "backend = Some b'" for b'
  proof -
    obtain b where b: "at_backend t = Some b"
        "begin_attempt io (at_state_instance t) (AttemptId n) caller i requests epoch b = (Ok (), b')"
      using bs bg by (cases "at_backend t") auto
    obtain e p where p: "encode_attempt_payload (at_state_instance t) caller i requests epoch = Ok p"
        "ds_attempts b' = fmupd (AttemptId n) (started_attempt (AttemptId n) p e) (ds_attempts b)"
      using begin_attempt_Ok [OF b(2)] by blast
    have "rs_complete requests"
      using p(1) by (auto simp: encode_attempt_payload_def split: if_splits)
    then have "mirrored (at_state_instance t) ?j (started_attempt (AttemptId n) p e)"
      using p(1) by (simp add: mirrored_def started_attempt_def journal_set_new)
        (simp add: new_journal_def)
    moreover have "log_inv b'"
      using log_inv_begin [of b] inv b by (metis snd_conv trail_inv_def)
    ultimately show ?thesis
      using inv b(1) fresh n ids_below_checked [of n "fset (fmdom (ds_attempts b))"]
      by (auto simp: trail_inv_def p(2) id)
  qed
  show ?thesis
    unfolding trail_inv_def
    using inv fresh n bk ids_below_checked [of n "aj_id ` set (at_attempts t)"]
    by (simp add: t' id trail_inv_def) (simp add: new_journal_def)
qed

lemma trail_inv_start_Err:
  assumes "start_request_set io caller i requests epoch t = (Err e, t')" "trail_inv t"
  shows "trail_inv t' \<and> at_attempts t' = at_attempts t"
proof (cases "at_backend t")
  case None
  then show ?thesis
    using assms by (auto simp: start_request_set_def split: option.splits)
next
  case (Some b)
  show ?thesis
  proof (cases "at_next_attempt_sequence t")
    case None
    then show ?thesis using assms by (auto simp: start_request_set_def)
  next
    case n: (Some n)
    obtain e' b' where b': "begin_attempt io (at_state_instance t) (AttemptId n) caller i requests epoch b = (Err e', b')"
        "t' = t\<lparr>at_backend := Some b', at_next_attempt_sequence := Some n\<rparr>"
      using assms(1) by (auto simp: start_request_set_def n Some split: sum.splits prod.splits)
    then show ?thesis
      using assms(2) Some n begin_attempt_Err [OF b'(1)] log_inv_begin [of b] by (auto simp: trail_inv_def)
        (metis snd_conv)
  qed
qed

section \<open>Finishing an attempt\<close>

lemma guard_finish_Ok:
  assumes "AttemptGuard_finish io x rc ev g t = (Ok u, t')"
  shows "\<exists>backend. t' = t\<lparr>at_backend := backend,
      at_attempts := (at_attempts t)[g := AttemptJournal_finish x (at_attempts t ! g)]\<rparr> \<and>
    (case at_backend t of None \<Rightarrow> backend = None
     | Some b \<Rightarrow> \<exists>b'. backend = Some b' \<and>
         finish_attempt io (aj_id (at_attempts t ! g)) x rc ev b = (Ok (), b'))"
  using assms
  by (cases "at_backend t")
    (auto simp: AttemptGuard_finish_def Let_def split: option.splits sum.splits prod.splits)

lemma guard_finish_Err:
  assumes "AttemptGuard_finish io x rc ev g t = (Err e, t')"
  obtains b e' b' where "at_backend t = Some b" "t' = t\<lparr>at_backend := Some b'\<rparr>" "e = Durable e'"
    "finish_attempt io (aj_id (at_attempts t ! g)) x rc ev b = (Err e', b')"
  using assms that
  by (fastforce simp: AttemptGuard_finish_def Let_def split: option.splits sum.splits prod.splits)

lemma trail_inv_finish_Err:
  assumes "AttemptGuard_finish io x rc ev g t = (Err e, t')" "trail_inv t"
  shows "trail_inv t' \<and> at_attempts t' = at_attempts t"
proof -
  obtain b e' b' where b: "at_backend t = Some b" "t' = t\<lparr>at_backend := Some b'\<rparr>"
    "finish_attempt io (aj_id (at_attempts t ! g)) x rc ev b = (Err e', b')"
    using guard_finish_Err [OF assms(1)] .
  have "log_inv b'"
    using log_inv_finish [of b] assms(2) b by (metis snd_conv trail_inv_def)
  then show ?thesis
    using assms(2) b finish_attempt_Err [OF b(3)] by (simp add: trail_inv_def)
qed

lemma update_other:
  assumes "distinct (map f xs)" "g < length xs" "y \<in> set (xs[g := z])"
  shows "y = z \<or> (y \<in> set xs \<and> f y \<noteq> f (xs ! g))"
proof -
  obtain i where i: "i < length xs" "y = xs[g := z] ! i"
    using assms(3) by (auto simp: in_set_conv_nth)
  show ?thesis
  proof (cases "i = g")
    case False
    then have "map f xs ! i \<noteq> map f xs ! g"
      using i(1) assms(2) nth_eq_iff_index_eq [OF assms(1), of i g] by simp
    then show ?thesis
      using False i assms(2) by auto
  qed (use i in auto)
qed

lemma trail_inv_finish_Ok:
  assumes fin: "AttemptGuard_finish io x rc ev g t = (Ok u, t')" and inv: "trail_inv t"
    and g: "g < length (at_attempts t)"
  shows "trail_inv t'"
proof -
  let ?j = "at_attempts t ! g" and ?J = "AttemptJournal_finish x (at_attempts t ! g)"
  obtain backend where t': "t' = t\<lparr>at_backend := backend, at_attempts := (at_attempts t)[g := ?J]\<rparr>"
    and fins: "case at_backend t of None \<Rightarrow> backend = None
     | Some b \<Rightarrow> \<exists>b'. backend = Some b' \<and> finish_attempt io (aj_id ?j) x rc ev b = (Ok (), b')"
    using guard_finish_Ok [OF fin] by auto
  have id: "aj_id ?J = aj_id ?j" by (simp add: AttemptJournal_finish_def)
  have ids: "map aj_id ((at_attempts t)[g := ?J]) = map aj_id (at_attempts t)"
    using g by (simp add: map_update id) (metis list_update_id nth_map)
  then have idset: "aj_id ` set ((at_attempts t)[g := ?J]) = aj_id ` set (at_attempts t)"
    by (metis list.set_map)
  have codes: "\<forall>j\<in>set ((at_attempts t)[g := ?J]). aj_outcome j \<in> range AttemptOutcome_code"
    using inv set_update_subset_insert [of "at_attempts t" g ?J]
    by (auto simp: trail_inv_def AttemptJournal_finish_def)
  have bk: "log_inv b' \<and> ids_below (at_next_attempt_sequence t) (fset (fmdom (ds_attempts b'))) \<and>
      (\<forall>j\<in>set ((at_attempts t)[g := ?J]). \<exists>y. fmlookup (ds_attempts b') (aj_id j) = Some y \<and>
         mirrored (at_state_instance t) j y)" if bs: "backend = Some b'" for b'
  proof -
    obtain b where b: "at_backend t = Some b" "finish_attempt io (aj_id ?j) x rc ev b = (Ok (), b')"
      using bs fins by (cases "at_backend t") auto
    have bi: "log_inv b" "ids_below (at_next_attempt_sequence t) (fset (fmdom (ds_attempts b)))"
        "\<And>j. j \<in> set (at_attempts t) \<Longrightarrow> \<exists>y. fmlookup (ds_attempts b) (aj_id j) = Some y \<and>
           mirrored (at_state_instance t) j y"
      using inv b(1) by (auto simp: trail_inv_def)
    obtain e y where y: "fmlookup (ds_attempts b) (aj_id ?j) = Some y"
        "ds_attempts b' = fmupd (aj_id ?j) (finished_attempt x rc ev e y) (ds_attempts b)"
      using finish_attempt_Ok [OF b(2)] by blast
    have "mirrored (at_state_instance t) ?j y"
      using bi(3) [of ?j] y(1) g by auto
    then have J: "mirrored (at_state_instance t) ?J (finished_attempt x rc ev e y)"
      by (simp add: mirrored_def finished_attempt_def AttemptJournal_finish_def journal_set_def)
    have dist: "distinct (map aj_id (at_attempts t))"
      using inv by (simp add: trail_inv_def)
    have "\<exists>y. fmlookup (ds_attempts b') (aj_id j) = Some y \<and> mirrored (at_state_instance t) j y"
      if "j \<in> set ((at_attempts t)[g := ?J])" for j
      using update_other [OF dist g that]
    proof
      assume "j = ?J"
      then show ?thesis using J by (simp add: y(2) id)
    next
      assume "j \<in> set (at_attempts t) \<and> aj_id j \<noteq> aj_id ?j"
      then show ?thesis using bi(3) [of j] by (auto simp: y(2))
    qed
    moreover have "log_inv b'"
      using log_inv_finish [OF bi(1)] b(2) by (metis snd_conv)
    ultimately show ?thesis
      using bi(2) y by (simp add: fset_of_list_elem insert_absorb fmdomI)
  qed
  show ?thesis
    unfolding trail_inv_def t' using inv bk by (simp add: ids idset codes) (simp add: trail_inv_def)
qed

section \<open>Opening a trail on a log\<close>

definition keyed :: "attempts \<Rightarrow> bool" where
  "keyed m \<longleftrightarrow> (\<forall>a x. fmlookup m a = Some x \<longrightarrow> da_attempt_id x = a)"

lemma apply_frame_keyed: "apply_frame e f m = Ok m' \<Longrightarrow> keyed m \<Longrightarrow> keyed m'"
  by (cases f; cases "fmlookup m (fst (snd f))")
    (auto simp: apply_frame_def apply_reconcile_frame_def and_then_Ok keyed_def started_attempt_def
      finished_attempt_def split: if_splits)

lemma parse_loop_keyed: "parse_loop e m bs = Ok (nx, m') \<Longrightarrow> keyed m \<Longrightarrow> keyed m'"
proof (induction e m bs rule: parse_loop.induct)
  case (1 e m bs)
  show ?case
  proof (cases "bs = []")
    case False
    obtain f r m1 e1 where r: "parse_frame e bs = Ok (f, r)" "apply_frame e f m = Ok m1"
        "checked_add e 1 = Some e1" "parse_loop e1 m1 r = Ok (nx, m')"
      using "1.prems" by (auto simp: parse_loop_step [OF False])
    show ?thesis
      using "1.IH" [OF False r(1) refl r(2), of e1] r apply_frame_keyed [OF r(2) "1.prems"(2)] by simp
  qed (use "1.prems" in auto)
qed

lemma log_inv_keyed: "log_inv b \<Longrightarrow> keyed (ds_attempts b)"
  by (auto simp: log_inv_def keyed_def dest: parse_loop_keyed)

lemma next_attempt_above: "ids_below (log_next_attempt_sequence m) (fset (fmdom m))"
proof (cases "checked_add (attempt_u64 (fMax (fmdom m))) 1")
  case (Some n)
  have "attempt_u64 a < n" if "a \<in> fset (fmdom m)" for a
  proof -
    have "a \<le> fMax (fmdom m)" using that by (simp add: fMax_ge)
    then show ?thesis
      using checked_succ_less [OF Some] by (simp add: less_eq_AttemptId_def)
  qed
  then show ?thesis
    by (auto simp: ids_below_def log_next_attempt_sequence_def Some)
qed (auto simp: ids_below_def log_next_attempt_sequence_def)

lemma trail_inv_fresh:
  assumes "log_inv b" "ids_below nx (fset (fmdom (ds_attempts b)))"
  shows "trail_inv \<lparr>at_next_attempt_sequence = nx, at_attempts = [], at_backend = Some b, at_state_instance = i\<rparr>"
  using assms by (simp add: trail_inv_def ids_below_def split: option.split)

lemma trail_inv_new_with_backend:
  assumes "log_inv b" "new_with_backend b = Ok t"
  shows "trail_inv t"
  using assms next_attempt_above [of "ds_attempts b"]
  by (auto simp: new_with_backend_def and_then_Ok Let_def DurableAuditLog_next_attempt_sequence_def
      split: if_splits intro!: trail_inv_fresh)

section \<open>Recovery\<close>

definition closed_attempt :: "u64 \<Rightarrow> DurableAttemptState \<Rightarrow> DurableAttemptState" where
  "closed_attempt e x =
     finished_attempt CommitUnknown None
       (Some \<lparr>ev_attempt_id = da_attempt_id x, ev_token = RECOVERED_ATTEMPT_EVIDENCE\<rparr>) e x"

lemma recovered_evidence:
  "CommitUnknownEvidence_new a RECOVERED_ATTEMPT_EVIDENCE =
     Ok \<lparr>ev_attempt_id = a, ev_token = RECOVERED_ATTEMPT_EVIDENCE\<rparr>"
proof -
  have "length RECOVERED_ATTEMPT_EVIDENCE = 77"
    unfolding RECOVERED_ATTEMPT_EVIDENCE_def length_as_bytes by simp
  then show ?thesis
    by (auto simp: CommitUnknownEvidence_new_def validate_commit_unknown_token_def payload_consts)
qed

text \<open>
  The attempts that a recovery closes are exactly the started ones; everything else of the log
  stays as it was.
\<close>

lemma recover_loop_Ok:
  assumes "recover_loop io xs b = (Ok ids, b')" "log_inv b"
  shows "log_inv b' \<and> ids = map da_attempt_id (filter (\<lambda>x. da_outcome x = Started) xs) \<and>
    (\<forall>a. a \<notin> set ids \<longrightarrow> fmlookup (ds_attempts b') a = fmlookup (ds_attempts b) a) \<and>
    (\<forall>a\<in>set ids. \<exists>x e. fmlookup (ds_attempts b) a = Some x \<and> da_outcome x = Started \<and>
       fmlookup (ds_attempts b') a = Some (closed_attempt e x))"
  using assms
proof (induction xs arbitrary: b ids)
  case (Cons x xs)
  show ?case
  proof (cases "da_outcome x = Started")
    case False
    then show ?thesis using Cons by simp
  next
    case True
    let ?a = "da_attempt_id x" and ?ev = "\<lparr>ev_attempt_id = da_attempt_id x, ev_token = RECOVERED_ATTEMPT_EVIDENCE\<rparr>"
    obtain b1 ids1 where b1: "finish_attempt (io ?a) ?a CommitUnknown None (Some ?ev) b = (Ok (), b1)"
        "recover_loop io xs b1 = (Ok ids1, b')" "ids = ?a # ids1"
      using Cons.prems(1) True
      by (auto simp: recovered_evidence split: prod.splits sum.splits)
    obtain e y where y: "fmlookup (ds_attempts b) ?a = Some y" "da_outcome y = Started"
        "ds_attempts b1 = fmupd ?a (finished_attempt CommitUnknown None (Some ?ev) e y) (ds_attempts b)"
        "\<not> ds_unusable b1"
      using finish_attempt_Ok [OF b1(1)] by blast
    have inv1: "log_inv b1"
      using log_inv_finish [OF Cons.prems(2)] b1(1) by (metis snd_conv)
    note IH = Cons.IH [OF b1(2) inv1]
    have "da_attempt_id y = ?a"
      using log_inv_keyed [OF Cons.prems(2)] y(1) by (simp add: keyed_def)
    then have cl: "fmlookup (ds_attempts b1) ?a = Some (closed_attempt e y)"
      by (simp add: y(3) closed_attempt_def)
    have closed: "da_outcome (closed_attempt e y) = CommitUnknown"
      by (simp add: closed_attempt_def finished_attempt_def)
    have not_in: "?a \<notin> set ids1"
    proof
      assume "?a \<in> set ids1"
      then obtain z where "fmlookup (ds_attempts b1) ?a = Some z" "da_outcome z = Started"
        using IH by blast
      then show False using cl closed by simp
    qed
    have ids: "ids = map da_attempt_id (filter (\<lambda>x. da_outcome x = Started) (x # xs))"
      using IH True b1(3) by simp
    have rest: "fmlookup (ds_attempts b') a = fmlookup (ds_attempts b) a" if "a \<notin> set ids" for a
      using IH that by (auto simp: b1(3) y(3))
    have fin: "\<exists>x e. fmlookup (ds_attempts b) a = Some x \<and> da_outcome x = Started \<and>
        fmlookup (ds_attempts b') a = Some (closed_attempt e x)" if a: "a \<in> set ids" for a
    proof (cases "a = ?a")
      case True
      then show ?thesis using y(1,2) cl IH not_in by auto
    next
      case False
      then have a1: "a \<in> set ids1" and same: "fmlookup (ds_attempts b1) a = fmlookup (ds_attempts b) a"
        using a by (simp_all add: b1(3) y(3))
      show ?thesis
        using IH a1 unfolding same [symmetric] by blast
    qed
    show ?thesis using IH ids rest fin by blast
  qed
qed simp

lemma attempts_list:
  assumes "DurableAuditLog_attempts b = Ok xs" "log_inv b"
  shows "map da_attempt_id xs = sorted_list_of_fset (fmdom (ds_attempts b))"
    "x \<in> set xs \<longleftrightarrow> fmlookup (ds_attempts b) (da_attempt_id x) = Some x"
proof -
  let ?m = "ds_attempts b"
  have xs: "xs = map (\<lambda>a. the (fmlookup ?m a)) (sorted_list_of_fset (fmdom ?m))"
    using assms(1) by (simp add: DurableAuditLog_attempts_def split: if_splits)
  have key: "da_attempt_id (the (fmlookup ?m a)) = a" if "a \<in> fset (fmdom ?m)" for a
    using that log_inv_keyed [OF assms(2)] by (auto simp: keyed_def elim: fmdomE)
  show "map da_attempt_id xs = sorted_list_of_fset (fmdom ?m)"
    unfolding xs map_map by (rule map_idI) (simp add: key)
  show "x \<in> set xs \<longleftrightarrow> fmlookup ?m (da_attempt_id x) = Some x"
  proof
    assume "x \<in> set xs"
    then obtain a where "a \<in> fset (fmdom ?m)" "x = the (fmlookup ?m a)" by (auto simp: xs)
    then show "fmlookup ?m (da_attempt_id x) = Some x"
      using key [of a] by (auto elim: fmdomE)
  next
    assume *: "fmlookup ?m (da_attempt_id x) = Some x"
    then have "da_attempt_id x \<in> fset (fmdom ?m)" by (rule fmdomI)
    then have "the (fmlookup ?m (da_attempt_id x)) \<in> set xs" by (simp add: xs)
    then show "x \<in> set xs" using * by simp
  qed
qed

lemma recover_with_backend_Ok:
  assumes "recover_with_backend io b = (Ok (t, rv), b')" "log_inv b"
  obtains inherited where "DurableAuditLog_attempts b = Ok inherited"
    "DurableAuditLog_next_attempt_sequence b = Ok (Some (at_state_instance t))"
    "recover_loop io inherited b = (Ok (rv_reconciled rv), b')"
    "t = \<lparr>at_next_attempt_sequence = log_next_attempt_sequence (ds_attempts b'), at_attempts = [],
          at_backend = Some b', at_state_instance = at_state_instance t\<rparr>"
    "rv_state_instance rv = at_state_instance t" "rv_inherited_attempts rv = length inherited"
  using assms that
  by (cases "DurableAuditLog_attempts b"; cases "DurableAuditLog_next_attempt_sequence b")
    (auto simp: recover_with_backend_def and_then_def ok_or_def DurableAuditLog_next_attempt_sequence_def
      split: sum.splits prod.splits option.splits if_splits)

end
