(* ===== verification/Kernel_Effects.thy ===== *)
theory Kernel_Effects
  imports Kernel Audit_Mirror Capability_Properties
begin

text \<open>
  The effect path of the kernel: which calls reach the executor, what the audit trail records for
  each result, and how concurrent effects and revocations interleave under the read-write lock.
\<close>

section \<open>Admission\<close>

lemma deny_frame:
  "k_state (snd (deny_attempt io g k)) = k_state k" "k_observers (snd (deny_attempt io g k)) = k_observers k"
  by (simp_all add: deny_attempt_def Let_def split: prod.split)

lemma deny_not_Ok [simp]: "deny_attempt io g k \<noteq> (Ok x, k')"
  by (auto simp: deny_attempt_def Let_def split: prod.split sum.split)

lemma admit_frame:
  "k_state (snd (admit_effect io1 io2 caller i requests k)) = k_state k"
  "k_observers (snd (admit_effect io1 io2 caller i requests k)) = k_observers k"
  by (auto simp: admit_effect_def Let_def deny_frame split: prod.split sum.split option.split)

lemma admit_state: "admit_effect io1 io2 caller i requests k = (r, k') \<Longrightarrow> k_state k' = k_state k"
  by (drule arg_cong [where f = snd]) (metis admit_frame(1) snd_conv)

text \<open>The ways through the first half of an effect.\<close>

lemma admit_cases:
  fixes k :: "'o CapabilityKernel"
  assumes "admit_effect io1 io2 caller i requests k = (r, k')"
  obtains (incomplete) "\<not> rs_complete requests" "r = Err EffectNotAuthorized" "k' = k"
  | (unstarted) e t where "rs_complete requests" "r = Err (EffectAudit e)" "k' = k\<lparr>k_audit := t\<rparr>"
      "start_request_set io1 caller i requests (st_epoch (k_state k)) (k_audit k) = (Err e, t)"
  | (denied) g t where "rs_complete requests"
      "start_request_set io1 caller i requests (st_epoch (k_state k)) (k_audit k) = (Ok g, t)"
      "\<not> (list_all (authorizes (k_state k) caller i) (CapabilityRequestSet_iter requests) \<and>
          fmlookup (st_capabilities (k_state k)) i \<noteq> None)"
      "deny_attempt io2 g (k\<lparr>k_audit := t\<rparr>) = (r, k')"
  | (admitted) g c t where "rs_complete requests"
      "start_request_set io1 caller i requests (st_epoch (k_state k)) (k_audit k) = (Ok g, t)"
      "list_all (authorizes (k_state k) caller i) (CapabilityRequestSet_iter requests)"
      "fmlookup (st_capabilities (k_state k)) i = Some c" "r = Ok (g, c)" "k' = k\<lparr>k_audit := t\<rparr>"
proof (cases "rs_complete requests")
  case False
  then show thesis using assms incomplete by (simp add: admit_effect_def)
next
  case complete: True
  obtain r1 t where start: "start_request_set io1 caller i requests (st_epoch (k_state k)) (k_audit k) = (r1, t)"
    by fastforce
  show thesis
  proof (cases r1)
    case (Inl e)
    then show thesis using assms unstarted [of e t] complete start by (simp add: admit_effect_def)
  next
    case (Inr g)
    note pre = complete start [unfolded Inr]
    show thesis
    proof (cases "list_all (authorizes (k_state k) caller i) (CapabilityRequestSet_iter requests) \<and>
          fmlookup (st_capabilities (k_state k)) i \<noteq> None")
      case True
      then show thesis using assms admitted [OF pre] by (auto simp: admit_effect_def pre)
    next
      case False
      then show thesis using assms denied [OF pre] by (auto simp: admit_effect_def pre Let_def split: if_splits option.splits)
    qed
  qed
qed

section \<open>The audit record of an effect\<close>

text \<open>The outcome that the trail shows for a result; \<open>None\<close> when the audit itself failed.\<close>

fun reported_outcome :: "('e EffectCommitError, 't) result \<Rightarrow> AttemptOutcome option" where
  "reported_outcome (Ok v) = Some Committed"
| "reported_outcome (Err EffectNotAuthorized) = Some Denied"
| "reported_outcome (Err (EffectFailed e)) = Some FailedBeforeCommit"
| "reported_outcome (Err (EffectCommitUnknown a ev)) = Some CommitUnknown"
| "reported_outcome (Err (CommittedButAudit a rc e)) = Some Started"
| "reported_outcome (Err (CommitUnknownAndAudit a ev e)) = Some Started"
| "reported_outcome (Err (EffectAudit e)) = None"
| "reported_outcome (Err EffectLockPoisoned) = None"

lemma guard_finish_attempts:
  assumes "AttemptGuard_finish io x rc ev g t = (r, t')" "trail_inv t" "g < length (at_attempts t)"
  shows "trail_inv t' \<and> at_attempts t' =
    (case r of Ok _ \<Rightarrow> (at_attempts t)[g := AttemptJournal_finish x (at_attempts t ! g)] | Err _ \<Rightarrow> at_attempts t)"
proof (cases r)
  case (Inl e)
  then show ?thesis using trail_inv_finish_Err [of io x rc ev g t e t'] assms by simp
next
  case (Inr u)
  then show ?thesis
    using trail_inv_finish_Ok [of io x rc ev g t u t'] guard_finish_Ok [of io x rc ev g t u t'] assms by auto
qed

lemma commit_unknown_unfold:
  assumes "validate_commit_unknown_evidence ev = Ok u"
  shows "AttemptGuard_commit_unknown io ev g t =
    AttemptGuard_finish io CommitUnknown None
      (Some \<lparr>ev_attempt_id = aj_id (at_attempts t ! g), ev_token = ev\<rparr>) g t"
  using assms
  by (auto simp: AttemptGuard_commit_unknown_def CommitUnknownEvidence_new_def
      validate_commit_unknown_evidence_def validate_commit_unknown_token_def split: if_splits)

lemma settle_record:
  assumes "settle_effect io g x k = (r, k')" "trail_inv (k_audit k)" "g < length (at_attempts (k_audit k))"
    "aj_outcome (at_attempts (k_audit k) ! g) = AttemptOutcome_code Started"
  shows "k' = k\<lparr>k_audit := k_audit k'\<rparr> \<and> trail_inv (k_audit k') \<and>
    at_attempts (k_audit k') = (at_attempts (k_audit k))[g := AttemptJournal_finish
      (case reported_outcome r of Some y \<Rightarrow> y | None \<Rightarrow> Started) (at_attempts (k_audit k) ! g)]"
proof -
  let ?t = "k_audit k" and ?j = "at_attempts (k_audit k) ! g"
  have same: "(at_attempts ?t)[g := AttemptJournal_finish Started ?j] = at_attempts ?t"
    using assms(4) by (simp add: AttemptJournal_finish_def list_update_same_conv assms(3))
  show ?thesis
  proof (cases x)
    case (ExecFailedBeforeCommit e)
    obtain r1 t1 where f: "AttemptGuard_finish io FailedBeforeCommit None None g ?t = (r1, t1)" by fastforce
    show ?thesis
      using assms(1) guard_finish_attempts [OF f assms(2,3)] same
      by (auto simp: settle_effect_def ExecFailedBeforeCommit AttemptGuard_fail_before_commit_def f Let_def
          split: sum.splits)
  next
    case (ExecCommitted v token)
    define rc where "rc = (case token of None \<Rightarrow> kernel_success (aj_id ?j) | Some tk \<Rightarrow> CommitReceipt_new (aj_id ?j) tk)"
    obtain r1 t1 where f: "AttemptGuard_finish io Committed (Some rc) None g ?t = (r1, t1)" by fastforce
    show ?thesis
      using assms(1) guard_finish_attempts [OF f assms(2,3)] same
      by (auto simp: settle_effect_def ExecCommitted AttemptGuard_commit_with_receipt_def f Let_def
          rc_def [symmetric] split: sum.splits)
  next
    case (ExecCommitUnknown ev)
    show ?thesis
    proof (cases "validate_commit_unknown_evidence ev")
      case (Inl e)
      then show ?thesis using assms(1,2) same by (auto simp: settle_effect_def ExecCommitUnknown Let_def)
    next
      case (Inr u)
      obtain r1 t1 where f: "AttemptGuard_commit_unknown io ev g ?t = (r1, t1)" by fastforce
      show ?thesis
        using assms(1) guard_finish_attempts [OF f [unfolded commit_unknown_unfold [OF Inr]] assms(2,3)] same
        by (auto simp: settle_effect_def ExecCommitUnknown Inr f Let_def split: sum.splits)
    qed
  qed
qed

definition effect_journal ::
    "SubjectId \<Rightarrow> CapId \<Rightarrow> CapabilityRequestSet \<Rightarrow> AuthorizationEpoch \<Rightarrow> AttemptOutcome \<Rightarrow> AttemptJournal \<Rightarrow> bool" where
  "effect_journal caller i requests epoch x j \<longleftrightarrow>
     aj_caller j = caller \<and> aj_capability_id j = i \<and> aj_request j = rs_first requests \<and>
     aj_additional_requests j = rs_additional requests \<and> aj_authorization_epoch j = epoch \<and>
     aj_outcome j = AttemptOutcome_code x"

lemma new_journal_effect:
  "effect_journal caller i requests epoch x (AttemptJournal_finish x (new_journal caller i requests epoch n))"
  by (simp add: effect_journal_def AttemptJournal_finish_def new_journal_def)

lemma started_last:
  assumes "start_request_set io caller i requests epoch t = (Ok g, t')" "trail_inv t"
  obtains n where "trail_inv t'" "g = length (at_attempts t)" "g < length (at_attempts t')"
    "at_attempts t' = at_attempts t @ [new_journal caller i requests epoch n]"
    "at_attempts t' ! g = new_journal caller i requests epoch n"
proof -
  obtain n backend where "g = length (at_attempts t)"
      "t' = t\<lparr>at_next_attempt_sequence := checked_add n 1,
           at_attempts := at_attempts t @ [new_journal caller i requests epoch n], at_backend := backend\<rparr>"
    using start_Ok [OF assms(1)] by auto
  then show thesis
    using that [of n] trail_inv_start_Ok [OF assms] by simp
qed

lemma deny_record:
  assumes "deny_attempt io g k = (r, k')" "trail_inv (k_audit k)" "g < length (at_attempts (k_audit k))"
  shows "trail_inv (k_audit k') \<and>
    (r = Err EffectNotAuthorized \<and> at_attempts (k_audit k') =
       (at_attempts (k_audit k))[g := AttemptJournal_finish Denied (at_attempts (k_audit k) ! g)] \<or>
     (\<exists>e. r = Err (EffectAudit e) \<and> at_attempts (k_audit k') = at_attempts (k_audit k)))"
proof -
  obtain r1 t1 where f: "AttemptGuard_finish io Denied None None g (k_audit k) = (r1, t1)" by fastforce
  show ?thesis
    using assms(1) guard_finish_attempts [OF f assms(2,3)]
    by (auto simp: deny_attempt_def AttemptGuard_deny_def f Let_def split: sum.splits)
qed

text \<open>One effect call leaves one journal, whose outcome is the one its result reports.\<close>

lemma inner_record:
  fixes execute :: "Capability \<Rightarrow> 'w \<Rightarrow> ('t, 'e) EffectExecution \<times> 'w"
  assumes run: "authorize_all_and_commit_inner io1 io2 caller i requests execute k w = (r, k', w')"
    and inv: "trail_inv (k_audit k)" and complete: "rs_complete requests"
  shows "trail_inv (k_audit k') \<and>
    (case reported_outcome r of
       Some x \<Rightarrow> \<exists>j. at_attempts (k_audit k') = at_attempts (k_audit k) @ [j] \<and>
         effect_journal caller i requests (st_epoch (k_state k)) x j
     | None \<Rightarrow> at_attempts (k_audit k') = at_attempts (k_audit k) \<and> w' = w \<or>
         (\<exists>j. at_attempts (k_audit k') = at_attempts (k_audit k) @ [j] \<and>
           effect_journal caller i requests (st_epoch (k_state k)) Started j))"
proof -
  obtain r1 k1 where admit: "admit_effect io1 io2 caller i requests k = (r1 :: ('e EffectCommitError, nat \<times> Capability) result, k1)"
    by fastforce
  from admit show ?thesis
  proof (cases rule: admit_cases)
    case incomplete
    then show ?thesis using complete by simp
  next
    case (unstarted e t)
    then show ?thesis
      using run admit trail_inv_start_Err [OF unstarted(4) inv]
      by (auto simp: authorize_all_and_commit_inner_def)
  next
    case (denied g t)
    obtain n where n: "trail_inv t" "g = length (at_attempts (k_audit k))" "g < length (at_attempts t)"
        "at_attempts t = at_attempts (k_audit k) @ [new_journal caller i requests (st_epoch (k_state k)) n]"
        "at_attempts t ! g = new_journal caller i requests (st_epoch (k_state k)) n"
      using started_last [OF denied(2) inv] .
    have j: "effect_journal caller i requests (st_epoch (k_state k)) Started
        (new_journal caller i requests (st_epoch (k_state k)) n)"
      by (simp add: effect_journal_def new_journal_def)
    have "r1 \<noteq> Ok p" for p using denied(4) by auto
    then obtain e where e: "r1 = Err e" by (cases r1) auto
    show ?thesis
      using run admit deny_record [OF denied(4)] n j new_journal_effect [of caller i requests "st_epoch (k_state k)" Denied n]
      by (auto simp: authorize_all_and_commit_inner_def e)
  next
    case (admitted g c t)
    obtain n where n: "trail_inv t" "g = length (at_attempts (k_audit k))" "g < length (at_attempts t)"
        "at_attempts t = at_attempts (k_audit k) @ [new_journal caller i requests (st_epoch (k_state k)) n]"
        "at_attempts t ! g = new_journal caller i requests (st_epoch (k_state k)) n"
      using started_last [OF admitted(2) inv] .
    obtain x w1 where x: "execute c w = (x, w1)" by fastforce
    have s: "settle_effect io2 g x k1 = (r, k')"
      using run admit admitted(5) x by (auto simp: authorize_all_and_commit_inner_def split: prod.splits)
    have rec: "trail_inv (k_audit k') \<and> at_attempts (k_audit k') = at_attempts (k_audit k) @
        [AttemptJournal_finish (case reported_outcome r of Some y \<Rightarrow> y | None \<Rightarrow> Started)
           (new_journal caller i requests (st_epoch (k_state k)) n)]"
      using settle_record [OF s] n admitted(6) by (simp add: new_journal_def)
    then show ?thesis
      using new_journal_effect [of caller i requests "st_epoch (k_state k)" _ n]
      by (cases "reported_outcome r") auto
  qed
qed

text \<open>The executor runs exactly on admitted calls, and the world is otherwise untouched.\<close>

lemma inner_world:
  fixes execute :: "Capability \<Rightarrow> 'w \<Rightarrow> ('t, 'e) EffectExecution \<times> 'w"
  assumes "authorize_all_and_commit_inner io1 io2 caller i requests execute k w = (r, k', w')"
  shows "k_state k' = k_state k \<and>
    (w' = w \<or>
     (\<exists>g t c. rs_complete requests \<and>
       start_request_set io1 caller i requests (st_epoch (k_state k)) (k_audit k) = (Ok g, t) \<and>
       list_all (authorizes (k_state k) caller i) (CapabilityRequestSet_iter requests) \<and>
       fmlookup (st_capabilities (k_state k)) i = Some c \<and> w' = snd (execute c w)))"
proof -
  obtain r1 k1 where admit: "admit_effect io1 io2 caller i requests k = (r1 :: ('e EffectCommitError, nat \<times> Capability) result, k1)"
    by fastforce
  have settle: "k_state (snd (settle_effect io2 g x k1)) = k_state k1" for g and x :: "('t, 'e) EffectExecution"
    by (auto simp: settle_effect_def Let_def split: EffectExecution.split sum.split prod.split)
  have state: "k_state k1 = k_state k"
    using admit_state [OF admit] .
  from admit show ?thesis
  proof (cases rule: admit_cases)
    case (denied g t)
    then obtain e where "r1 = Err e" by (cases r1) auto
    then show ?thesis
      using assms admit state by (simp add: authorize_all_and_commit_inner_def)
  next
    case (admitted g c t)
    obtain x w1 where x: "execute c w = (x, w1)" by fastforce
    have "k' = snd (settle_effect io2 g x k1)" "w' = w1"
      using assms admit admitted(5) x by (auto simp: authorize_all_and_commit_inner_def split: prod.splits)
    then show ?thesis
      using admitted settle state x by auto
  qed (use assms admit in \<open>auto simp: authorize_all_and_commit_inner_def\<close>)
qed

section \<open>Concurrent effects and revocations\<close>

text \<open>
  A configuration has the kernel, the world, and the threads that hold the read guard with an
  admitted effect. Effects of different threads overlap; a state transition takes the write lock,
  so it happens only while no thread holds the guard.
\<close>

record flight =
  fl_caller :: SubjectId
  fl_capability :: CapId
  fl_requests :: CapabilityRequestSet
  fl_guard :: nat
  fl_granted :: Capability

record ('o, 'w) configuration =
  cf_kernel :: "'o CapabilityKernel"
  cf_world :: 'w
  cf_flights :: "(nat, flight) fmap"

datatype event =
    Quiet
  | Wrote cap_op
  | Executed SubjectId CapId CapabilityRequestSet

inductive kernel_step ::
    "('o, 'w) configuration \<Rightarrow> event \<Rightarrow> ('o, 'w) configuration \<Rightarrow> bool" where
  refuse: "admit_effect io1 io2 caller i requests (cf_kernel c) = (Err (e :: unit EffectCommitError), k) \<Longrightarrow>
    kernel_step c Quiet (c\<lparr>cf_kernel := k\<rparr>)"
| admit: "fmlookup (cf_flights c) tid = None \<Longrightarrow>
    admit_effect io1 io2 caller i requests (cf_kernel c) = (Ok (g, cap) :: (unit EffectCommitError, nat \<times> Capability) result, k) \<Longrightarrow>
    kernel_step c Quiet (c\<lparr>cf_kernel := k, cf_flights := fmupd tid
      \<lparr>fl_caller = caller, fl_capability = i, fl_requests = requests, fl_guard = g, fl_granted = cap\<rparr> (cf_flights c)\<rparr>)"
| execute: "fmlookup (cf_flights c) tid = Some f \<Longrightarrow>
    execute (fl_granted f) (cf_world c) = ((x :: (unit, unit) EffectExecution), w) \<Longrightarrow>
    settle_effect io (fl_guard f) x (cf_kernel c) = (r, k) \<Longrightarrow>
    kernel_step c (Executed (fl_caller f) (fl_capability f) (fl_requests f))
      (c\<lparr>cf_kernel := k, cf_world := w, cf_flights := fmdrop tid (cf_flights c)\<rparr>)"
| transition: "cf_flights c = fmempty \<Longrightarrow> cap_step x (k_state (cf_kernel c)) = (r, s) \<Longrightarrow>
    kernel_step c (Wrote x) (c\<lparr>cf_kernel := (cf_kernel c)\<lparr>k_state := s\<rparr>\<rparr>)"

inductive kernel_run ::
    "('o, 'w) configuration \<Rightarrow> event list \<Rightarrow> ('o, 'w) configuration \<Rightarrow> bool" where
  run_Nil: "kernel_run c [] c"
| run_snoc: "kernel_run c es d \<Longrightarrow> kernel_step d e d' \<Longrightarrow> kernel_run c (es @ [e]) d'"

definition flights_ok :: "('o, 'w) configuration \<Rightarrow> bool" where
  "flights_ok c \<longleftrightarrow> (\<forall>tid f. fmlookup (cf_flights c) tid = Some f \<longrightarrow>
     list_all (authorizes (k_state (cf_kernel c)) (fl_caller f) (fl_capability f))
       (CapabilityRequestSet_iter (fl_requests f)))"

lemma settle_frame: "k_state (snd (settle_effect io g x k)) = k_state k"
  by (auto simp: settle_effect_def Let_def split: EffectExecution.split sum.split prod.split)

lemma flights_ok_step: "kernel_step c e d \<Longrightarrow> flights_ok c \<Longrightarrow> flights_ok d"
proof (induction rule: kernel_step.induct)
  case (refuse io1 io2 caller i requests c e k)
  then show ?case
    using admit_state [OF refuse(1)] by (simp add: flights_ok_def)
next
  case (admit c tid io1 io2 caller i requests g cap k)
  have "list_all (authorizes (k_state (cf_kernel c)) caller i) (CapabilityRequestSet_iter requests)"
    using admit(2) by (auto elim!: admit_cases)
  then show ?case
    using admit admit_state [OF admit(2)] by (simp add: flights_ok_def)
next
  case (execute c tid f execute x w io r k)
  then show ?case
    using settle_frame [of io "fl_guard f" x "cf_kernel c"] by (simp add: flights_ok_def)
qed (simp add: flights_ok_def)

lemma flights_ok_run: "kernel_run c es d \<Longrightarrow> flights_ok c \<Longrightarrow> flights_ok d"
  by (induction rule: kernel_run.induct) (auto intro: flights_ok_step)

fun writes :: "event list \<Rightarrow> cap_op list" where
  "writes [] = []"
| "writes (Wrote x # es) = x # writes es"
| "writes (Quiet # es) = writes es"
| "writes (Executed caller i requests # es) = writes es"

lemma writes_append [simp]: "writes (es @ fs) = writes es @ writes fs"
  by (induction es rule: writes.induct) auto

lemma kernel_step_state:
  "kernel_step c e d \<Longrightarrow> k_state (cf_kernel d) = run cap_step (writes [e]) (k_state (cf_kernel c))"
proof (induction rule: kernel_step.induct)
  case (execute c tid f execute x w io r k)
  then show ?case
    using settle_frame [of io "fl_guard f" x "cf_kernel c"] by simp
qed (auto dest: admit_state)

lemma kernel_run_state:
  "kernel_run c es d \<Longrightarrow> k_state (cf_kernel d) = run cap_step (writes es) (k_state (cf_kernel c))"
  by (induction rule: kernel_run.induct) (simp_all add: run_append kernel_step_state)

inductive_cases kernel_run_snocE: "kernel_run c (es @ [e]) d"

inductive_cases executedE: "kernel_step c (Executed caller i requests) d"

lemma kernel_run_append: "kernel_run c (es @ fs) d \<Longrightarrow> \<exists>m. kernel_run c es m \<and> kernel_run m fs d"
proof (induction fs arbitrary: d rule: rev_induct)
  case Nil
  then show ?case by (auto intro: kernel_run.run_Nil)
next
  case (snoc e fs)
  obtain d1 where "kernel_run c (es @ fs) d1" "kernel_step d1 e d"
    using snoc.prems kernel_run_snocE [of c "es @ fs" e d] by (metis append_assoc)
  then show ?case
    using snoc.IH [of d1] kernel_run.run_snoc by blast
qed

text \<open>At the moment an executor runs, the current state authorizes every request of its effect.\<close>

lemma executed_authorized:
  assumes "kernel_run c (es @ [Executed caller i requests]) d" "cf_flights c = fmempty"
  shows "list_all (authorizes (run cap_step (writes es) (k_state (cf_kernel c))) caller i)
    (CapabilityRequestSet_iter requests)"
proof -
  obtain m where m: "kernel_run c es m" "kernel_step m (Executed caller i requests) d"
    using assms(1) by (auto elim: kernel_run_snocE)
  have "flights_ok m"
    using flights_ok_run [OF m(1)] assms(2) by (simp add: flights_ok_def)
  then show ?thesis
    using m(2) kernel_run_state [OF m(1)] by (auto simp: flights_ok_def elim: executedE)
qed

lemma revoked_not_executed:
  assumes run: "kernel_run c (es @ Wrote (OpRevoke a) # fs @ [Executed caller i requests]) d"
    and start: "cf_flights c = fmempty" "wf_state (k_state (cf_kernel c))"
    and revoked: "fst (revoke a (run cap_step (writes es) (k_state (cf_kernel c)))) = Ok v"
    and line: "lineage (st_capabilities (run cap_step (writes (es @ Wrote (OpRevoke a) # fs)) (k_state (cf_kernel c)))) i xs"
  shows "a \<notin> set xs"
proof
  assume "a \<in> set xs"
  let ?s = "run cap_step (writes es) (k_state (cf_kernel c))"
  let ?r = "snd (revoke a ?s)"
  let ?t = "run cap_step (writes fs) ?r"
  have t: "run cap_step (writes (es @ Wrote (OpRevoke a) # fs)) (k_state (cf_kernel c)) = ?t"
    by (simp add: run_append reply_def split: prod.split)
  have wf: "wf_state ?r"
    using wf_state_change [OF revoke_change] cap_machine.run_good [OF start(2)] .
  have "a |\<in>| st_revoked ?t"
    using cap_machine.run_later [OF wf, of "writes fs"] revoke_Ok_revoked [OF revoked]
    by (auto simp: state_later_def)
  moreover have "wf_links ?t"
    using cap_machine.run_good [OF wf] by (simp add: wf_state_def)
  ultimately have "\<not> authorizes ?t caller i (rs_first requests)"
    using line \<open>a \<in> set xs\<close> unfolding t by (intro revoked_ancestor_blocks)
  moreover have "authorizes ?t caller i (rs_first requests)"
    using executed_authorized [of c "es @ Wrote (OpRevoke a) # fs" caller i requests d] run start(1)
    by (simp add: CapabilityRequestSet_iter_def t [simplified])
  ultimately show False by simp
qed

end
