(* ===== verification/Audit_Examples.thy ===== *)
theory Audit_Examples
  imports Kernel_Effects Examples
begin

text \<open>
  A concrete journal on which the hypotheses of the audit theorems are discharged: one attempt of
  subject \<open>b\<close>, started and then finished with an unknown commit.
\<close>

definition ex_requests :: CapabilityRequestSet where
  "ex_requests = CapabilityRequestSet_one ex_request"

lemma ex_requests_iter [simp]: "CapabilityRequestSet_iter ex_requests = [ex_request]" "rs_complete ex_requests"
  by (simp_all add: ex_requests_def CapabilityRequestSet_one_def CapabilityRequestSet_iter_def)

lemma ex_requests_wf: "wf_request_set ex_requests"
  by (simp add: ex_requests_def wf_request_set_one)

lemma ex_wf_str:
  "wf_str ''a''" "wf_str ''b''" "wf_str ''r''" "wf_str ''s:1''" "wf_str ''src''" "wf_str ''lib''"
  by (auto intro!: is_ascii_wf_str simp: is_ascii_def)

lemma ex_request_wf: "wf_request ex_request"
  by (simp add: wf_request_def ex_defs ex_wf_str wf_path_def segment_ok_def path_encoding_def path_limits)

lemma ex_encode:
  "\<exists>p. encode_attempt_payload 0 ex_b ex_child ex_requests (AuthorizationEpoch 0) = Ok p \<and> length p = 66"
  by (simp add: ex_requests_def encode_attempt_payload_def CapabilityRequestSet_one_def
      CapabilityRequestSet_iter_def Let_def PayloadWriter_string_def writer_defs narrow_def and_then_Ok
      encode_request_def ex_defs write_segments_def payload_consts)

definition ex_log0 :: DurableState where
  "ex_log0 = \<lparr>ds_file = [], ds_next_sequence = Some 0, ds_attempts = fmempty, ds_unusable = False,
     ds_length = 0, ds_capacity = MAX_JOURNAL_BYTES\<rparr>"

definition ex_log1 :: DurableState where
  "ex_log1 = snd (begin_attempt io_ok 0 (AttemptId 0) ex_b ex_child ex_requests (AuthorizationEpoch 0) ex_log0)"

definition ex_evidence :: CommitUnknownEvidence where
  "ex_evidence = \<lparr>ev_attempt_id = AttemptId 0, ev_token = [1]\<rparr>"

definition ex_log2 :: DurableState where
  "ex_log2 = snd (finish_attempt io_ok (AttemptId 0) CommitUnknown None (Some ex_evidence) ex_log1)"

lemma ex_create: "create_with_max_bytes None MAX_JOURNAL_BYTES = Ok ex_log0"
  by (simp add: create_with_max_bytes_def validate_capacity_def ex_log0_def)

lemma ex_log0_inv: "log_inv ex_log0"
  by (rule log_inv_create [OF ex_create])

lemma ex_log1_facts:
  "begin_attempt io_ok 0 (AttemptId 0) ex_b ex_child ex_requests (AuthorizationEpoch 0) ex_log0 = (Ok (), ex_log1) \<and>
   \<not> ds_unusable ex_log1 \<and> length (ds_file ex_log1) = 106 \<and> ds_capacity ex_log1 = MAX_JOURNAL_BYTES \<and>
   ds_next_sequence ex_log1 = Some 1 \<and>
   (\<exists>p. ds_attempts ex_log1 = fmupd (AttemptId 0) (started_attempt (AttemptId 0) p 0) fmempty)"
proof -
  obtain p where p: "encode_attempt_payload 0 ex_b ex_child ex_requests (AuthorizationEpoch 0) = Ok p" "length p = 66"
    using ex_encode by blast
  obtain n l where app: "append_and_record io_ok START_KIND (AttemptId 0) p
      (\<lambda>sequence m. fmupd (AttemptId 0) (started_attempt (AttemptId 0) p sequence) m) ex_log0 =
    (Ok (), ex_log0\<lparr>ds_file := ds_file ex_log0 @ frame_bytes 0 START_KIND (AttemptId 0) n p, ds_length := l,
       ds_attempts := fmupd (AttemptId 0) (started_attempt (AttemptId 0) p 0) (ds_attempts ex_log0),
       ds_next_sequence := checked_add 0 1\<rparr>)"
    using append_succeeds [OF ex_log0_inv, of 0 p] p(2)
    by (fastforce simp: ex_log0_def payload_consts frame_consts MAX_JOURNAL_BYTES_def)
  show ?thesis
    using p(2) by (simp add: ex_log1_def begin_attempt_def p app)
      (auto simp: ex_log0_def frame_consts checked_add_def)
qed

lemma ex_log1_inv: "log_inv ex_log1"
  using log_inv_begin [OF ex_log0_inv] by (simp add: ex_log1_def)

lemma ex_log2_facts:
  "finish_attempt io_ok (AttemptId 0) CommitUnknown None (Some ex_evidence) ex_log1 = (Ok (), ex_log2) \<and>
   \<not> ds_unusable ex_log2 \<and> length (ds_file ex_log2) = 152 \<and> ds_capacity ex_log2 = MAX_JOURNAL_BYTES \<and>
   ds_next_sequence ex_log2 = Some 2 \<and>
   (\<exists>x. fmlookup (ds_attempts ex_log2) (AttemptId 0) = Some x \<and> da_outcome x = CommitUnknown \<and> da_reconciliation x = None)"
proof -
  obtain p where at: "ds_attempts ex_log1 = fmupd (AttemptId 0) (started_attempt (AttemptId 0) p 0) fmempty"
    using ex_log1_facts by blast
  have q: "encode_finish_payload (AttemptId 0) CommitUnknown None (Some ex_evidence) = Ok (4 # to_le_bytes (1 :: u32) @ [1])"
    using finish_shape.evidence [of "[1]" "AttemptId 0"]
    by (simp add: encode_finish_shape ex_evidence_def payload_consts)
  obtain n l where app: "append_and_record io_ok FINISH_KIND (AttemptId 0) (4 # to_le_bytes (1 :: u32) @ [1])
      (\<lambda>sequence m. fmupd (AttemptId 0)
        (finished_attempt CommitUnknown None (Some ex_evidence) sequence (started_attempt (AttemptId 0) p 0)) m) ex_log1 =
    (Ok (), ex_log1\<lparr>ds_file := ds_file ex_log1 @ frame_bytes 1 FINISH_KIND (AttemptId 0) n (4 # to_le_bytes (1 :: u32) @ [1]),
       ds_length := l,
       ds_attempts := fmupd (AttemptId 0)
        (finished_attempt CommitUnknown None (Some ex_evidence) 1 (started_attempt (AttemptId 0) p 0)) (ds_attempts ex_log1),
       ds_next_sequence := checked_add 1 1\<rparr>)"
    using append_succeeds [OF ex_log1_inv, of 1 "4 # to_le_bytes (1 :: u32) @ [1]"] ex_log1_facts
    by (fastforce simp: payload_consts frame_consts MAX_JOURNAL_BYTES_def)
  show ?thesis
    using ex_log1_facts
    by (simp add: ex_log2_def finish_attempt_def q at app)
      (simp add: started_attempt_def finished_attempt_def frame_consts checked_add_def)
qed

lemma ex_log_reachable: "log_reachable ex_log1" "log_reachable ex_log2"
proof -
  have "log_step ex_log0 ex_log1" "log_step ex_log1 ex_log2"
    unfolding ex_log1_def ex_log2_def by (rule log_step.intros)+
  then show "log_reachable ex_log1" "log_reachable ex_log2"
    using ex_create unfolding log_reachable_def
    by (blast intro: rtranclp.rtrancl_into_rtrancl)+
qed

end
