(* ===== verification/Audit_Theorems.thy ===== *)
theory Audit_Theorems
  imports Audit_Examples
begin

text \<open>
  The properties of the durable journal, of the audit trail and of the kernel's effect path.
\<close>

section \<open>The journal\<close>

lemma open_Err:
  assumes "c \<le> MAX_JOURNAL_BYTES" "length f \<le> unat c" "parse_loop 0 fmempty f = Err x"
  shows "open_with_max_bytes None f c = Err x"
  using assms leD [OF file_len_le [OF assms(2)]]
  by (auto simp: open_with_max_bytes_def validate_capacity_def parse_journal_def)







text \<open>
  C25. The metadata of an attempt survive the journal: whatever request set an attempt was started
  with, decoding its payload gives back the state instance, the caller, the capability, the epoch and
  all its requests, for file, HTTP and GitHub requests alike.
\<close>

theorem attempt_metadata_roundtrip:
  assumes "encode_attempt_payload inst caller cap reqs epoch = Ok p"
    and "wf_str (subject_str caller)" "wf_str (cap_str cap)"
    and "wf_request_set reqs" "list_all wf_request (CapabilityRequestSet_iter reqs)"
  shows "decode_attempt_payload p = Ok \<lparr>am_state_instance = inst, am_caller = caller, am_capability_id = cap,
      am_authorization_epoch = epoch, am_requests = reqs\<rparr>"
  using decode_encode_attempt [OF assms] .

theorem attempt_metadata_roundtrip_witness:
  "\<exists>p. encode_attempt_payload 0 ex_b ex_child ex_requests (AuthorizationEpoch 0) = Ok p \<and> length p = 66 \<and>
     decode_attempt_payload p = Ok \<lparr>am_state_instance = 0, am_caller = ex_b, am_capability_id = ex_child,
      am_authorization_epoch = AuthorizationEpoch 0, am_requests = ex_requests\<rparr>"
proof -
  obtain p where p: "encode_attempt_payload 0 ex_b ex_child ex_requests (AuthorizationEpoch 0) = Ok p" "length p = 66"
    using ex_encode by blast
  show ?thesis
    using p attempt_metadata_roundtrip [OF p(1)] ex_requests_wf ex_request_wf
    by (intro exI [of _ p]) (simp add: ex_wf_str)
qed

text \<open>
  C26. Terminal records have one spelling: \<open>decode_finish_payload\<close> accepts a payload exactly when
  \<open>encode_finish_payload\<close> writes it, so a decoded commit always has a non-empty bounded receipt of its
  own attempt and nothing else, an unknown commit has bounded evidence and no receipt, and a denied or
  failed attempt has neither.
\<close>

theorem finish_payload_exact:
  "decode_finish_payload p a = Ok (x, r, e) \<longleftrightarrow> encode_finish_payload a x r e = Ok p"
  by (simp add: decode_finish_shape encode_finish_shape)

text \<open>
  C27. A reconciliation with an empty receipt token makes the journal unreadable: on a usable log with
  an unreconciled unknown commit and room for the frame, \<open>reconcile_attempt\<close> accepts the verdict,
  and from then on opening the file fails because the token is empty.
\<close>

theorem empty_receipt_locks_journal:
  assumes "log_reachable s" "\<not> ds_unusable s" "fmlookup (ds_attempts s) a = Some x"
    "da_outcome x = CommitUnknown" "da_reconciliation x = None"
    "length (ds_file s) + 54 \<le> unat (ds_capacity s)"
  shows "\<exists>t. reconcile_attempt io_ok a (ReconciledCommitted \<lparr>rc_attempt_id = a, rc_token = []\<rparr>) s = (Ok (), t) \<and>
    open_with_max_bytes None (ds_file t) (ds_capacity t) =
      Err (InvalidRecord ''reconciled receipt token is empty'')"
proof -
  let ?v = "ReconciledCommitted \<lparr>rc_attempt_id = a, rc_token = []\<rparr>"
  let ?p = "1 # 1 # to_le_bytes (attempt_u64 a) @ to_le_bytes (0 :: u32)"
  note inv = reachable_log_inv [OF assms(1)]
  obtain e where e: "ds_next_sequence s = Some e" using inv by (auto simp: log_inv_def)
  note use = log_inv_usable [OF inv assms(2) e]
  define upd :: "u64 \<Rightarrow> attempts \<Rightarrow> attempts" where "upd = (\<lambda>_ m. fmupd a (x\<lparr>da_reconciliation := Some ?v\<rparr>) m)"
  obtain n l where app: "unat n = length ?p" "append_and_record io_ok RECONCILE_KIND a ?p upd s =
    (Ok (), s\<lparr>ds_file := ds_file s @ frame_bytes e RECONCILE_KIND a n ?p, ds_length := l,
       ds_attempts := upd e (ds_attempts s), ds_next_sequence := checked_add e 1\<rparr>)"
    using append_succeeds [OF inv assms(2) e, of ?p RECONCILE_KIND a upd] assms(6)
    by (auto simp: payload_consts frame_consts)
  have rec: "reconcile_attempt io_ok a ?v s = append_and_record io_ok RECONCILE_KIND a ?p upd s"
    using assms by (simp add: reconcile_attempt_def empty_token_unreadable upd_def)
  let ?f = "frame_bytes e RECONCILE_KIND a n ?p"
  have parse: "parse_frame e ?f = Ok ((RECONCILE_KIND, a, ?p), [])"
    using parse_frame_complete [of n ?p e RECONCILE_KIND a "[]"] app(1) by (simp add: payload_consts)
  have nonempty: "?f \<noteq> []"
    using length_frame_bytes [of e RECONCILE_KIND a n ?p] by (force simp: CHECKSUM_LEN_def)
  have "parse_loop e (ds_attempts s) ?f = Err (InvalidRecord ''reconciled receipt token is empty'')"
    using parse nonempty
    by (subst parse_loop.simps) (simp add: apply_frame_def apply_reconcile_frame_def kind_defs empty_token_unreadable)
  then have "parse_loop 0 fmempty (ds_file s @ ?f) = Err (InvalidRecord ''reconciled receipt token is empty'')"
    using parse_loop_append [OF use(3)] by simp
  moreover have "length (ds_file s @ ?f) \<le> unat (ds_capacity s)"
    using assms(6) by (simp add: frame_consts)
  ultimately show ?thesis
    using open_Err [OF use(1)] unfolding rec app(2) by simp
qed

theorem empty_receipt_locks_journal_witness:
  "\<exists>t. reconcile_attempt io_ok (AttemptId 0) (ReconciledCommitted \<lparr>rc_attempt_id = AttemptId 0, rc_token = []\<rparr>) ex_log2 = (Ok (), t) \<and>
    open_with_max_bytes None (ds_file t) (ds_capacity t) =
      Err (InvalidRecord ''reconciled receipt token is empty'')"
proof -
  obtain x where "fmlookup (ds_attempts ex_log2) (AttemptId 0) = Some x" "da_outcome x = CommitUnknown"
      "da_reconciliation x = None"
    using ex_log2_facts by blast
  then show ?thesis
    using ex_log2_facts
    by (intro empty_receipt_locks_journal [OF ex_log_reachable(2)]) (simp_all add: MAX_JOURNAL_BYTES_def)
qed

section \<open>Effects\<close>

text \<open>The durable side of a journal entry.\<close>

definition durably_recorded :: "AuditTrail \<Rightarrow> AttemptJournal \<Rightarrow> bool" where
  "durably_recorded t j \<longleftrightarrow> (\<forall>b. at_backend t = Some b \<longrightarrow>
     (\<exists>x. fmlookup (ds_attempts b) (aj_id j) = Some x \<and> mirrored (at_state_instance t) j x))"

lemma trail_inv_recorded: "trail_inv t \<Longrightarrow> j \<in> set (at_attempts t) \<Longrightarrow> durably_recorded t j"
  by (auto simp: trail_inv_def durably_recorded_def)

text \<open>
  C17. No effect without authority and audit: if a call of the kernel changes the world, then the
  request set was complete, the capability state authorized every single request of it, the executor
  ran exactly once on the presented capability, and the attempt is in the audit trail and, where there
  is a durable log, recorded there with the same caller, capability, requests and epoch.
\<close>

theorem effect_gate:
  fixes execute :: "Capability \<Rightarrow> 'w \<Rightarrow> ('t, 'e) EffectExecution \<times> 'w"
  assumes "authorize_all_and_commit_inner io1 io2 caller i requests execute k w = (r, k', w')"
    and "w' \<noteq> w" "trail_inv (k_audit k)"
  shows "rs_complete requests \<and> list_all (authorizes (k_state k) caller i) (CapabilityRequestSet_iter requests) \<and>
    (\<exists>c. fmlookup (st_capabilities (k_state k)) i = Some c \<and> w' = snd (execute c w)) \<and>
    (\<exists>j x. at_attempts (k_audit k') = at_attempts (k_audit k) @ [j] \<and>
       effect_journal caller i requests (st_epoch (k_state k)) x j \<and> durably_recorded (k_audit k') j)"
proof -
  have world: "rs_complete requests" "list_all (authorizes (k_state k) caller i) (CapabilityRequestSet_iter requests)"
      "\<exists>c. fmlookup (st_capabilities (k_state k)) i = Some c \<and> w' = snd (execute c w)"
    using inner_world [OF assms(1)] assms(2) by auto
  note rec = inner_record [OF assms(1,3) world(1)]
  obtain j x where "at_attempts (k_audit k') = at_attempts (k_audit k) @ [j]"
      "effect_journal caller i requests (st_epoch (k_state k)) x j"
    using rec assms(2) by (auto split: option.splits)
  then show ?thesis
    using world rec trail_inv_recorded [of "k_audit k'" j] by auto
qed

definition ex_kernel :: "unit CapabilityKernel" where
  "ex_kernel = CapabilityKernel_new ex_state"

definition ex_execute :: "Capability \<Rightarrow> nat \<Rightarrow> (unit, unit) EffectExecution \<times> nat" where
  "ex_execute c w = (ExecCommitted () None, Suc w)"

lemma ex_lookup: "fmlookup (st_capabilities ex_state) ex_child = Some (ex_cap ex_child ex_b (Some ex_root))"
  by (simp add: ex_state_eq)

lemma ex_kernel_inv: "trail_inv (k_audit ex_kernel)"
  by (simp add: ex_kernel_def CapabilityKernel_new_def trail_inv_new)

lemma ex_effect:
  "\<exists>k'. authorize_all_and_commit_inner io_ok io_ok ex_b ex_child ex_requests ex_execute ex_kernel 0 = (Ok (), k', 1)"
  by (simp add: authorize_all_and_commit_inner_def admit_effect_def ex_kernel_def CapabilityKernel_new_def
      AuditTrail_new_def start_request_set_def Let_def ex_state_authorizes ex_lookup ex_execute_def
      settle_effect_def AttemptGuard_commit_with_receipt_def AttemptGuard_finish_def)

theorem effect_gate_witness:
  "\<exists>k' :: unit CapabilityKernel. list_all (authorizes (k_state ex_kernel) ex_b ex_child) [ex_request] \<and>
    (\<exists>j x. at_attempts (k_audit k') = at_attempts (k_audit ex_kernel) @ [j] \<and>
       effect_journal ex_b ex_child ex_requests (st_epoch (k_state ex_kernel)) x j \<and> durably_recorded (k_audit k') j)"
proof -
  obtain k' where k: "authorize_all_and_commit_inner io_ok io_ok ex_b ex_child ex_requests ex_execute ex_kernel 0 = (Ok (), k', 1)"
    using ex_effect by blast
  show ?thesis
    using effect_gate [OF k _ ex_kernel_inv] by (intro exI [of _ k']) simp
qed



text \<open>
  C19. Revocation is linearizable with effects: in any interleaving of concurrent effects and state
  transitions under the read-write lock, once revoking \<open>a\<close> has succeeded, no executor runs for a
  capability that has \<open>a\<close> in its lineage; an executor that does run is authorized by the state at
  that moment.
\<close>

theorem revocation_linearized:
  assumes "kernel_run c (es @ Wrote (OpRevoke a) # fs @ [Executed caller i requests]) d"
    and "cf_flights c = fmempty" "reachable (k_state (cf_kernel c))"
    and "fst (revoke a (run cap_step (writes es) (k_state (cf_kernel c)))) = Ok v"
    and "lineage (st_capabilities (run cap_step (writes (es @ Wrote (OpRevoke a) # fs)) (k_state (cf_kernel c)))) i xs"
  shows "a \<notin> set xs \<and>
    list_all (authorizes (run cap_step (writes (es @ Wrote (OpRevoke a) # fs)) (k_state (cf_kernel c))) caller i)
      (CapabilityRequestSet_iter requests)"
  using revoked_not_executed [OF assms(1,2) reachable_wf [OF assms(3)] assms(4,5)]
    executed_authorized [of c "es @ Wrote (OpRevoke a) # fs"] assms(1,2) by simp

definition ex_configuration :: "(unit, nat) configuration" where
  "ex_configuration = \<lparr>cf_kernel = ex_kernel, cf_world = 0, cf_flights = fmempty\<rparr>"

definition ex_revoked :: CapabilityState where
  "ex_revoked = snd (revoke ex_child ex_state)"

lemma ex_revoked_facts:
  "fst (revoke ex_child ex_state) = Ok NewlyRevoked"
  "authorizes ex_revoked ex_a ex_root ex_request"
  "fmlookup (st_capabilities ex_revoked) ex_root = Some (ex_cap ex_root ex_a None)"
  by (simp_all add: ex_revoked_def ex_state_eq ex_cap_def state_eval ex_defs path_eval)

lemma ex_interleaving:
  "\<exists>d. kernel_run ex_configuration ([] @ Wrote (OpRevoke ex_child) # [Quiet] @ [Executed ex_a ex_root ex_requests]) d"
proof -
  define c1 where "c1 = ex_configuration\<lparr>cf_kernel := ex_kernel\<lparr>k_state := ex_revoked\<rparr>\<rparr>"
  have s1: "kernel_step ex_configuration (Wrote (OpRevoke ex_child)) c1"
    using kernel_step.transition [of ex_configuration "OpRevoke ex_child"]
    by (simp add: c1_def ex_configuration_def ex_kernel_def CapabilityKernel_new_def reply_def ex_revoked_def
        split: prod.split)
  obtain g t where admit: "admit_effect io_ok io_ok ex_a ex_root ex_requests (cf_kernel c1) =
      ((Ok (g, ex_cap ex_root ex_a None) :: (unit EffectCommitError, nat \<times> Capability) result), t)"
    by (simp add: c1_def ex_configuration_def ex_kernel_def CapabilityKernel_new_def admit_effect_def
        AuditTrail_new_def start_request_set_def Let_def ex_revoked_facts)
  define f where "f = \<lparr>fl_caller = ex_a, fl_capability = ex_root, fl_requests = ex_requests, fl_guard = g,
    fl_granted = ex_cap ex_root ex_a None\<rparr>"
  define c2 where "c2 = c1\<lparr>cf_kernel := t, cf_flights := fmupd 0 f (cf_flights c1)\<rparr>"
  have s2: "kernel_step c1 Quiet c2"
    using kernel_step.admit [OF _ admit, of 0] by (simp add: c2_def f_def c1_def ex_configuration_def)
  obtain r k where settle: "settle_effect io_ok (fl_guard f) (ExecCommitted () None :: (unit, unit) EffectExecution) (cf_kernel c2) = (r, k)"
    by fastforce
  have s3: "\<exists>d. kernel_step c2 (Executed ex_a ex_root ex_requests) d"
    using kernel_step.execute [of c2 0 f ex_execute, OF _ _ settle]
    by (fastforce simp: c2_def f_def ex_execute_def)
  show ?thesis
    using s3 kernel_run.run_snoc [OF kernel_run.run_snoc [OF kernel_run.run_snoc [OF kernel_run.run_Nil s1] s2]]
    by auto
qed

lemma ex_state_reached: "reachable ex_state"
  unfolding reachable_def ex_state_def ex_new_def by blast

theorem revocation_linearized_witness:
  "ex_child \<notin> set [ex_root] \<and>
    list_all (authorizes (run cap_step [OpRevoke ex_child] ex_state) ex_a ex_root) [ex_request]"
proof -
  obtain d where d: "kernel_run ex_configuration ([] @ Wrote (OpRevoke ex_child) # [Quiet] @ [Executed ex_a ex_root ex_requests]) d"
    using ex_interleaving by blast
  have s: "k_state (cf_kernel ex_configuration) = ex_state" "cf_flights ex_configuration = fmempty"
    by (simp_all add: ex_configuration_def ex_kernel_def CapabilityKernel_new_def)
  have r: "run cap_step [OpRevoke ex_child] ex_state = ex_revoked"
    by (simp add: reply_def ex_revoked_def split: prod.splits)
  have "lineage (st_capabilities ex_revoked) ex_root [ex_root]"
    by (rule lineage.lineage_root [OF ex_revoked_facts(3)]) (simp add: ex_cap_def)
  then show ?thesis
    using revocation_linearized [OF d s(2), of NewlyRevoked "[ex_root]"] ex_revoked_facts(1) ex_state_reached
    by (simp add: s(1) r del: run.simps) (simp add: ex_revoked_def)
qed

section \<open>Recovery\<close>

text \<open>
  C21. Recovery leaves no attempt open: when a trail is recovered from a journal, exactly the attempts
  that were still started are closed as unknown commits with the recovery evidence and reported, all
  other attempts are untouched, the new trail starts empty with identities above every recorded one,
  and its state instance is the first free identity.
\<close>

theorem recovery_closes_started:
  assumes "recover_with_backend io b = (Ok (t, rv), b')" "log_reachable b"
  shows "trail_inv t \<and> at_attempts t = [] \<and> at_backend t = Some b' \<and>
    log_next_attempt_sequence (ds_attempts b) = Some (at_state_instance t) \<and>
    (\<forall>a. fmlookup (ds_attempts b') a = None \<longleftrightarrow> fmlookup (ds_attempts b) a = None) \<and>
    (\<forall>a x. fmlookup (ds_attempts b) a = Some x \<longrightarrow>
       (if da_outcome x = Started
        then a \<in> set (rv_reconciled rv) \<and> (\<exists>e. fmlookup (ds_attempts b') a = Some (closed_attempt e x))
        else a \<notin> set (rv_reconciled rv) \<and> fmlookup (ds_attempts b') a = Some x))"
proof -
  note inv = reachable_log_inv [OF assms(2)]
  obtain inherited where at: "DurableAuditLog_attempts b = Ok inherited"
      "DurableAuditLog_next_attempt_sequence b = Ok (Some (at_state_instance t))"
      "recover_loop io inherited b = (Ok (rv_reconciled rv), b')"
      "t = \<lparr>at_next_attempt_sequence = log_next_attempt_sequence (ds_attempts b'), at_attempts = [],
          at_backend = Some b', at_state_instance = at_state_instance t\<rparr>"
    using recover_with_backend_Ok [OF assms(1) inv] .
  note loop = recover_loop_Ok [OF at(3) inv]
  have ids: "a \<in> set (rv_reconciled rv) \<longleftrightarrow>
      (\<exists>x. fmlookup (ds_attempts b) a = Some x \<and> da_outcome x = Started)" for a
    using loop attempts_list(2) [OF at(1) inv] log_inv_keyed [OF inv] by (auto simp: keyed_def)
  have rest: "a \<notin> set (rv_reconciled rv) \<Longrightarrow> fmlookup (ds_attempts b') a = fmlookup (ds_attempts b) a" for a
    using loop by blast
  have fin: "a \<in> set (rv_reconciled rv) \<Longrightarrow> \<exists>x e. fmlookup (ds_attempts b) a = Some x \<and>
      fmlookup (ds_attempts b') a = Some (closed_attempt e x)" for a
    using loop by blast
  have "trail_inv t"
    by (subst at(4)) (rule trail_inv_fresh [OF _ next_attempt_above], use loop in blast)
  moreover have "at_attempts t = []" "at_backend t = Some b'"
    by (subst at(4), simp)+
  moreover have "log_next_attempt_sequence (ds_attempts b) = Some (at_state_instance t)"
    using at(2) by (auto simp: DurableAuditLog_next_attempt_sequence_def split: if_splits)
  moreover have "fmlookup (ds_attempts b') a = None \<longleftrightarrow> fmlookup (ds_attempts b) a = None" for a
    using rest [of a] fin [of a] by (cases "a \<in> set (rv_reconciled rv)") auto
  moreover have "if da_outcome x = Started
        then a \<in> set (rv_reconciled rv) \<and> (\<exists>e. fmlookup (ds_attempts b') a = Some (closed_attempt e x))
        else a \<notin> set (rv_reconciled rv) \<and> fmlookup (ds_attempts b') a = Some x"
    if "fmlookup (ds_attempts b) a = Some x" for a x
    using that rest [of a] fin [of a] ids [of a] by auto
  ultimately show ?thesis by blast
qed

lemma ex_recover: "\<exists>t rv b'. recover_with_backend (\<lambda>_. io_ok) ex_log1 = (Ok (t, rv), b')"
proof -
  obtain p where at: "ds_attempts ex_log1 = fmupd (AttemptId 0) (started_attempt (AttemptId 0) p 0) fmempty"
    using ex_log1_facts by blast
  let ?ev = "\<lparr>ev_attempt_id = AttemptId 0, ev_token = RECOVERED_ATTEMPT_EVIDENCE\<rparr>"
  have len: "RECOVERED_ATTEMPT_EVIDENCE \<noteq> []" "length RECOVERED_ATTEMPT_EVIDENCE = 77"
    by (simp_all add: RECOVERED_ATTEMPT_EVIDENCE_def as_bytes_def)
  obtain q where q: "encode_finish_payload (AttemptId 0) CommitUnknown None (Some ?ev) = Ok q" "length q = 82"
    using finish_shape.evidence [of RECOVERED_ATTEMPT_EVIDENCE "AttemptId 0"] len
    by (auto simp: encode_finish_shape [symmetric] payload_consts)
  have "\<exists>b'. finish_attempt io_ok (AttemptId 0) CommitUnknown None (Some ?ev) ex_log1 = (Ok (), b') \<and> \<not> ds_unusable b'"
    using append_succeeds [OF ex_log1_inv, of 1 q FINISH_KIND "AttemptId 0" "\<lambda>sequence m. fmupd (AttemptId 0)
        (finished_attempt CommitUnknown None (Some ?ev) sequence (started_attempt (AttemptId 0) p 0)) m"]
      ex_log1_facts q
    by (auto simp: finish_attempt_def at payload_consts frame_consts MAX_JOURNAL_BYTES_def)
      (auto simp: started_attempt_def)
  then obtain b' where b': "finish_attempt io_ok (AttemptId 0) CommitUnknown None (Some ?ev) ex_log1 = (Ok (), b')"
      "\<not> ds_unusable b'" by blast
  have "DurableAuditLog_attempts ex_log1 = Ok [started_attempt (AttemptId 0) p 0]"
    "DurableAuditLog_next_attempt_sequence ex_log1 = Ok (Some 1)"
    using ex_log1_facts
    by (simp_all add: DurableAuditLog_attempts_def DurableAuditLog_next_attempt_sequence_def at
        log_next_attempt_sequence_def sorted_list_of_fset_def checked_add_def fmap_ext)
  moreover have "recover_loop (\<lambda>_. io_ok) [started_attempt (AttemptId 0) p 0] ex_log1 = (Ok [AttemptId 0], b')"
    using b'(1) by (simp add: recovered_evidence started_attempt_def)
  ultimately show ?thesis
    using b'(2) by (simp add: recover_with_backend_def DurableAuditLog_next_attempt_sequence_def [of b'])
qed

theorem recovery_closes_started_witness:
  "\<exists>t rv b'. recover_with_backend (\<lambda>_. io_ok) ex_log1 = (Ok (t, rv), b') \<and> AttemptId 0 \<in> set (rv_reconciled rv)"
proof -
  obtain t rv b' where r: "recover_with_backend (\<lambda>_. io_ok) ex_log1 = (Ok (t, rv), b')"
    using ex_recover by blast
  obtain p where "ds_attempts ex_log1 = fmupd (AttemptId 0) (started_attempt (AttemptId 0) p 0) fmempty"
    using ex_log1_facts by blast
  then show ?thesis
    using r recovery_closes_started [OF r ex_log_reachable(1)] by (auto simp: started_attempt_def)
qed

section \<open>Propagation\<close>

fun first_failure :: "('e, 'a) result list \<Rightarrow> 'e option" where
  "first_failure [] = None"
| "first_failure (Err e # rs) = Some e"
| "first_failure (Ok _ # rs) = first_failure rs"

lemma propagate_loop_spec:
  "propagate_loop discard obs first =
     (case first of Some e \<Rightarrow> Some e | None \<Rightarrow> first_failure (map (fst \<circ> discard) obs), map (snd \<circ> discard) obs)"
proof (induction obs arbitrary: first)
  case (Cons ob obs)
  show ?case
    by (cases "discard ob"; cases "fst (discard ob)"; cases first) (simp_all add: Cons)
qed (simp split: option.split)

text \<open>
  C20. A new revocation reaches every observer: when the capability is newly revoked, the state has
  changed and each registered observer has been told to discard its cached decisions, even if an
  earlier one failed; the call succeeds exactly when all of them succeeded and otherwise reports the
  first failure.
\<close>

theorem revocation_propagates:
  assumes "revoke_held_by caller i (k_state k) = (Ok NewlyRevoked, s)"
  shows "kernel_revoke_held_by discard caller i k =
    (case first_failure (map (fst \<circ> discard) (k_observers k)) of
       None \<Rightarrow> Ok NewlyRevoked | Some e \<Rightarrow> Err (RevocationNotPropagated e),
     k\<lparr>k_state := s, k_observers := map (snd \<circ> discard) (k_observers k)\<rparr>)"
  using assms
  by (simp add: kernel_revoke_held_by_def with_state_mut_def propagate_revocation_def propagate_loop_spec
      split: option.split)

theorem revocation_propagates_witness:
  "k_observers (snd (kernel_revoke_held_by (\<lambda>n. (Ok (), Suc n)) ex_b ex_child
     \<lparr>k_state = ex_state, k_audit = AuditTrail_new, k_observers = [0, 7]\<rparr>)) = [1, 8]"
proof -
  have "revoke_held_by ex_b ex_child ex_state = (Ok NewlyRevoked, snd (revoke_held_by ex_b ex_child ex_state))"
    by (simp add: ex_state_eq ex_cap_def state_eval)
  then have held: "revoke_held_by ex_b ex_child (k_state \<lparr>k_state = ex_state, k_audit = AuditTrail_new, k_observers = [0 :: nat, 7]\<rparr>) =
      (Ok NewlyRevoked, snd (revoke_held_by ex_b ex_child ex_state))"
    by simp
  show ?thesis
    by (simp add: revocation_propagates [OF held])
qed

end
