(* ===== verification/Broker_Session.thy ===== *)
theory Broker_Session
  imports Wire
begin

text \<open>
  Session identity and replay protection of the egress broker
  (\<open>egress-protocol/src/session.rs\<close>). The guard is shown to implement a ledger: the list of the
  envelopes it has accepted, in order. The \<open>sha2\<close> crate is the parameter \<open>sha256\<close>.
\<close>

section \<open>Identities and envelopes\<close>

datatype BrokerSessionId = BrokerSessionId (session_bytes: bytes)
datatype BrokerRequestId = BrokerRequestId (request_bytes: bytes)
datatype PayloadHash = PayloadHash (hash_bytes: bytes)

definition of_canonical_payload :: "(bytes \<Rightarrow> bytes) \<Rightarrow> bytes \<Rightarrow> PayloadHash" where
  "of_canonical_payload sha256 payload = PayloadHash (sha256 payload)"

record BrokerEnvelope =
  be_session :: BrokerSessionId
  be_sequence :: u64
  be_request :: BrokerRequestId
  be_payload_hash :: PayloadHash

definition from_canonical_payload ::
    "(bytes \<Rightarrow> bytes) \<Rightarrow> BrokerSessionId \<Rightarrow> u64 \<Rightarrow> BrokerRequestId \<Rightarrow> bytes \<Rightarrow> BrokerEnvelope" where
  "from_canonical_payload sha256 session sequence request payload =
     \<lparr>be_session = session, be_sequence = sequence, be_request = request,
      be_payload_hash = of_canonical_payload sha256 payload\<rparr>"

definition binds_canonical_payload :: "(bytes \<Rightarrow> bytes) \<Rightarrow> BrokerEnvelope \<Rightarrow> bytes \<Rightarrow> bool" where
  "binds_canonical_payload sha256 e payload \<longleftrightarrow> be_payload_hash e = of_canonical_payload sha256 payload"

section \<open>The replay guard\<close>

record AcceptedRequest =
  ar_sequence :: u64
  ar_payload_hash :: PayloadHash

datatype EnvelopeAcceptance = New | Duplicate

datatype EnvelopeError =
    WrongSession (wrong_expected: BrokerSessionId) (wrong_received: BrokerSessionId)
  | OutOfOrderSequence (order_expected: u64) (order_received: u64)
  | EnvelopeSequenceExhausted
  | RequestIdentityMismatch BrokerRequestId
  | PayloadHashMismatch
  | RequestCapacityExhausted

fun EnvelopeError_display :: "EnvelopeError \<Rightarrow> string" where
  "EnvelopeError_display (WrongSession _ _) = ''broker envelope belongs to another session''"
| "EnvelopeError_display (OutOfOrderSequence expected received) =
     ''broker envelope sequence '' @ show_nat (unat received) @ '' is invalid; expected '' @ show_nat (unat expected)"
| "EnvelopeError_display EnvelopeSequenceExhausted = ''broker session sequence is exhausted''"
| "EnvelopeError_display (RequestIdentityMismatch _) = ''broker request ID was reused with a different envelope''"
| "EnvelopeError_display PayloadHashMismatch = ''broker envelope payload does not match its digest''"
| "EnvelopeError_display RequestCapacityExhausted = ''broker session deduplication capacity is exhausted''"

record SessionReplayGuard =
  rg_session :: BrokerSessionId
  rg_next_sequence :: "u64 option"
  rg_capacity :: nat
  rg_accepted :: "(BrokerRequestId, AcceptedRequest) fmap"

definition SessionReplayGuard_new :: "BrokerSessionId \<Rightarrow> nat \<Rightarrow> SessionReplayGuard" where
  "SessionReplayGuard_new session capacity =
     \<lparr>rg_session = session, rg_next_sequence = Some 0, rg_capacity = capacity, rg_accepted = fmempty\<rparr>"

definition accept ::
    "BrokerEnvelope \<Rightarrow> SessionReplayGuard \<Rightarrow> (EnvelopeError, EnvelopeAcceptance) result \<times> SessionReplayGuard" where
  "accept e g =
     (if be_session e \<noteq> rg_session g then (Err (WrongSession (rg_session g) (be_session e)), g)
      else (case fmlookup (rg_accepted g) (be_request e) of
        Some a \<Rightarrow>
          if ar_sequence a = be_sequence e \<and> ar_payload_hash a = be_payload_hash e then (Ok Duplicate, g)
          else (Err (RequestIdentityMismatch (be_request e)), g)
      | None \<Rightarrow>
          (case rg_next_sequence g of
            None \<Rightarrow> (Err EnvelopeSequenceExhausted, g)
          | Some expected \<Rightarrow>
              if be_sequence e \<noteq> expected then (Err (OutOfOrderSequence expected (be_sequence e)), g)
              else if fm_len (rg_accepted g) \<ge> rg_capacity g then (Err RequestCapacityExhausted, g)
              else (Ok New,
                g\<lparr>rg_accepted := fmupd (be_request e)
                    \<lparr>ar_sequence = be_sequence e, ar_payload_hash = be_payload_hash e\<rparr> (rg_accepted g),
                  rg_next_sequence := checked_add (be_sequence e) 1\<rparr>))))"

definition accept_payload ::
    "(bytes \<Rightarrow> bytes) \<Rightarrow> BrokerEnvelope \<Rightarrow> bytes \<Rightarrow> SessionReplayGuard \<Rightarrow>
     (EnvelopeError, EnvelopeAcceptance) result \<times> SessionReplayGuard" where
  "accept_payload sha256 e payload g =
     (if be_session e \<noteq> rg_session g then accept e g
      else if \<not> binds_canonical_payload sha256 e payload then (Err PayloadHashMismatch, g)
      else accept e g)"

section \<open>The ledger\<close>

text \<open>
  What a session promises: it keeps the accepted envelopes in a list, gives the next new request
  the list's length as its number, and recognises an exact retry as a duplicate.
\<close>

fun ledger_step ::
    "(bytes \<Rightarrow> bytes) \<Rightarrow> BrokerSessionId \<Rightarrow> nat \<Rightarrow> BrokerEnvelope \<times> bytes \<Rightarrow> BrokerEnvelope list \<Rightarrow>
     (EnvelopeError, EnvelopeAcceptance) result \<times> BrokerEnvelope list" where
  "ledger_step sha256 session capacity (e, payload) es =
     (if be_session e \<noteq> session then (Err (WrongSession session (be_session e)), es)
      else if \<not> binds_canonical_payload sha256 e payload then (Err PayloadHashMismatch, es)
      else if e \<in> set es then (Ok Duplicate, es)
      else if be_request e \<in> be_request ` set es then (Err (RequestIdentityMismatch (be_request e)), es)
      else if length es = 2 ^ 64 then (Err EnvelopeSequenceExhausted, es)
      else if unat (be_sequence e) \<noteq> length es then
        (Err (OutOfOrderSequence (word_of_nat (length es)) (be_sequence e)), es)
      else if length es \<ge> capacity then (Err RequestCapacityExhausted, es)
      else (Ok New, es @ [e]))"

definition wf_ledger :: "BrokerSessionId \<Rightarrow> nat \<Rightarrow> BrokerEnvelope list \<Rightarrow> bool" where
  "wf_ledger session capacity es \<longleftrightarrow>
     list_all (\<lambda>e. be_session e = session) es \<and> distinct (map be_request es) \<and>
     map (unat \<circ> be_sequence) es = [0..<length es] \<and> length es \<le> capacity \<and> length es \<le> 2 ^ 64"

lemma wf_ledger_Nil [simp]: "wf_ledger session capacity []"
  by (simp add: wf_ledger_def)

lemma wf_ledger_step:
  assumes "wf_ledger session capacity es"
  shows "wf_ledger session capacity (snd (ledger_step sha256 session capacity x es))"
  using assms by (cases x) (auto simp: wf_ledger_def)

text \<open>The ledger only grows, at its end.\<close>

lemma ledger_step_prefix: "prefix es (snd (ledger_step sha256 session capacity x es))"
  by (cases x) auto

interpretation ledger: machine "ledger_step sha256 session capacity" "wf_ledger session capacity" prefix
  by unfold_locales (simp_all add: wf_ledger_step ledger_step_prefix del: ledger_step.simps)

section \<open>The guard implements the ledger\<close>

definition accepted_entry :: "BrokerEnvelope \<Rightarrow> AcceptedRequest" where
  "accepted_entry e = \<lparr>ar_sequence = be_sequence e, ar_payload_hash = be_payload_hash e\<rparr>"

definition accepted_map :: "BrokerEnvelope list \<Rightarrow> (BrokerRequestId, AcceptedRequest) fmap" where
  "accepted_map es = fmap_of_list (map (\<lambda>e. (be_request e, accepted_entry e)) es)"

definition guard_of :: "BrokerSessionId \<Rightarrow> nat \<Rightarrow> BrokerEnvelope list \<Rightarrow> SessionReplayGuard" where
  "guard_of session capacity es =
     \<lparr>rg_session = session, rg_next_sequence = narrow (length es), rg_capacity = capacity,
      rg_accepted = accepted_map es\<rparr>"

definition guard_step ::
    "(bytes \<Rightarrow> bytes) \<Rightarrow> BrokerEnvelope \<times> bytes \<Rightarrow> SessionReplayGuard \<Rightarrow>
     (EnvelopeError, EnvelopeAcceptance) result \<times> SessionReplayGuard" where
  "guard_step sha256 x g = accept_payload sha256 (fst x) (snd x) g"

lemma guard_of_Nil [simp]: "guard_of session capacity [] = SessionReplayGuard_new session capacity"
  by (simp add: guard_of_def SessionReplayGuard_new_def narrow_def accepted_map_def)

lemma lookup_accepted: "fmlookup (accepted_map es) r = map_of (map (\<lambda>e. (be_request e, accepted_entry e)) es) r"
  by (simp only: accepted_map_def fmlookup_of_list)

lemma accepted_lookup_None:
  "fmlookup (accepted_map es) r = None \<longleftrightarrow> r \<notin> be_request ` set es"
  by (auto simp: accepted_map_def fmlookup_of_list map_of_eq_None_iff image_image)

lemma accepted_lookup_Some:
  "distinct (map be_request es) \<Longrightarrow>
   fmlookup (accepted_map es) r = Some a \<longleftrightarrow>
   (\<exists>e \<in> set es. be_request e = r \<and> a = accepted_entry e)"
  by (auto simp: accepted_map_def fmlookup_of_list comp_def)

lemma accepted_len:
  "distinct (map be_request es) \<Longrightarrow>
   fm_len (accepted_map es) = length es"
proof -
  assume "distinct (map be_request es)"
  then have "card (be_request ` set es) = length es"
    using distinct_card [of "map be_request es"] by simp
  moreover have "fset (fmdom (accepted_map es)) = be_request ` set es"
    by (simp add: accepted_map_def image_image fset_of_list.rep_eq)
  ultimately show ?thesis by (simp add: fcard.rep_eq)
qed

lemma accepted_snoc:
  "be_request e \<notin> be_request ` set es \<Longrightarrow>
   accepted_map (es @ [e]) =
   fmupd (be_request e) (accepted_entry e) (accepted_map es)"
proof (rule fmap_ext)
  fix r assume "be_request e \<notin> be_request ` set es"
  then have "map_of (map (\<lambda>e. (be_request e, accepted_entry e)) es) (be_request e) = None"
    by (auto simp: map_of_eq_None_iff)
  then show "fmlookup (accepted_map (es @ [e])) r = fmlookup (fmupd (be_request e) (accepted_entry e) (accepted_map es)) r"
    by (auto simp: lookup_accepted map_add_def split: option.split)
qed

lemma narrow_None: "narrow n = (None :: 'w::len word option) \<longleftrightarrow> 2 ^ LENGTH('w) \<le> n"
  by (auto simp: narrow_def)

lemma checked_succ_narrow: "checked_add v 1 = (narrow (Suc (unat v)) :: u64 option)"
  by (simp add: checked_add_def narrow_def)

text \<open>Members of a ledger with the same request identity and the same entry are the same envelope.\<close>

lemma ledger_member:
  assumes "wf_ledger session capacity es" "be_session e = session" "f \<in> set es" "be_request f = be_request e"
  shows "e \<in> set es \<longleftrightarrow> be_sequence f = be_sequence e \<and> be_payload_hash f = be_payload_hash e"
proof
  assume "e \<in> set es"
  with assms have "f = e" by (auto simp: wf_ledger_def distinct_map dest: inj_onD)
  then show "be_sequence f = be_sequence e \<and> be_payload_hash f = be_payload_hash e" by simp
next
  assume eq: "be_sequence f = be_sequence e \<and> be_payload_hash f = be_payload_hash e"
  have "be_session f = session" using assms by (simp add: wf_ledger_def list_all_iff)
  with eq assms(2,4) have "f = e" by (cases f, cases e) simp
  with assms(3) show "e \<in> set es" by simp
qed

lemma guard_implements_ledger:
  assumes "wf_ledger session capacity es"
  shows "guard_step sha256 x (guard_of session capacity es) =
    map_prod id (guard_of session capacity) (ledger_step sha256 session capacity x es)"
proof -
  obtain e payload where x: "x = (e, payload)" by (cases x)
  define g where "g = guard_of session capacity es"
  have g: "rg_session g = session" "rg_next_sequence g = narrow (length es)" "rg_capacity g = capacity"
      "fm_len (rg_accepted g) = length es"
    using assms by (simp_all add: g_def guard_of_def accepted_len wf_ledger_def)
  note defs = guard_step_def accept_payload_def accept_def x g_def [symmetric] g
  consider (foreign) "be_session e \<noteq> session" | (unbound) "be_session e = session" "\<not> binds_canonical_payload sha256 e payload"
    | (known) f where "be_session e = session" "binds_canonical_payload sha256 e payload" "f \<in> set es" "be_request f = be_request e"
    | (fresh) "be_session e = session" "binds_canonical_payload sha256 e payload" "be_request e \<notin> be_request ` set es"
    by fastforce
  then show ?thesis
  proof cases
    case known
    then have "fmlookup (rg_accepted g) (be_request e) = Some (accepted_entry f)"
      using assms by (auto simp: g_def guard_of_def accepted_lookup_Some wf_ledger_def)
    with known ledger_member [OF assms known(1,3,4)] show ?thesis
      by (auto simp: defs accepted_entry_def intro: rev_image_eqI)
  next
    case fresh
    then have "fmlookup (rg_accepted g) (be_request e) = None"
      by (simp add: g_def guard_of_def accepted_lookup_None)
    moreover have "e \<notin> set es" using fresh by auto
    moreover have "guard_of session capacity (es @ [e]) =
        g\<lparr>rg_accepted := fmupd (be_request e) (accepted_entry e) (rg_accepted g), rg_next_sequence := narrow (Suc (length es))\<rparr>"
      by (simp only: g_def guard_of_def accepted_snoc [OF fresh(3)]) simp
    moreover have "length es \<le> 2 ^ 64" using assms by (simp add: wf_ledger_def)
    moreover have "be_sequence e = word_of_nat (length es)" if "unat (be_sequence e) = length es"
      using that by (simp add: word_unat_eq_iff flip: that)
    ultimately show ?thesis
      using fresh
      by (cases "length es = 2 ^ 64"; cases "unat (be_sequence e) = length es")
        (auto simp: defs accepted_entry_def narrow_def checked_succ_narrow unat_of_nat)
  qed (auto simp: defs)
qed

interpretation guard: implementation "guard_step sha256" "ledger_step sha256 session capacity"
  "guard_of session capacity" "wf_ledger session capacity"
  by unfold_locales (simp_all add: guard_implements_ledger wf_ledger_step del: ledger_step.simps)

end
