(* ===== verification/Session_Budget.thy ===== *)
theory Session_Budget
  imports Broker_Session
begin

text \<open>
  Session-wide resource budgets of the egress broker (\<open>egress-protocol/src/budget.rs\<close>). The
  counters are 64-bit words with checked arithmetic, as in the code; the accounting invariant shows
  that no check of that arithmetic can fail.
\<close>

section \<open>Budgets\<close>

record SessionBudgetLimits =
  bl_requests :: u64
  bl_response_bytes :: u64
  bl_concurrent :: nat

record SessionBudgetUsage =
  bu_started_requests :: u64
  bu_committed_response_bytes :: u64
  bu_reserved_response_bytes :: u64
  bu_active_requests :: nat

record ResponseReservation =
  rr_request :: BrokerRequestId
  rr_max_response_bytes :: u64

datatype SessionBudgetError =
    RequestCountExhausted
  | ConcurrentRequestLimitReached
  | ResponseBytesExhausted (rb_requested: u64) (rb_remaining: u64)
  | ReservationAlreadyActive BrokerRequestId
  | UnknownReservation BrokerRequestId
  | ResponseExceedsReservation BrokerRequestId (re_received: u64) (re_reserved: u64)
  | AccountingInvariantBroken

fun SessionBudgetError_display :: "SessionBudgetError \<Rightarrow> string" where
  "SessionBudgetError_display RequestCountExhausted = ''broker session request budget is exhausted''"
| "SessionBudgetError_display ConcurrentRequestLimitReached = ''broker session concurrent request limit is reached''"
| "SessionBudgetError_display (ResponseBytesExhausted requested remaining) =
     ''broker session cannot reserve '' @ show_nat (unat requested) @ '' response bytes; '' @
     show_nat (unat remaining) @ '' remain''"
| "SessionBudgetError_display (ReservationAlreadyActive _) =
     ''broker request already has an active response reservation''"
| "SessionBudgetError_display (UnknownReservation _) = ''broker request has no active response reservation''"
| "SessionBudgetError_display (ResponseExceedsReservation _ received reserved) =
     ''broker response reported '' @ show_nat (unat received) @ '' bytes but reserved at most '' @
     show_nat (unat reserved)"
| "SessionBudgetError_display AccountingInvariantBroken = ''broker session budget accounting invariant is broken''"

record SessionBudget =
  sb_limits :: SessionBudgetLimits
  sb_started_requests :: u64
  sb_committed_response_bytes :: u64
  sb_reserved_response_bytes :: u64
  sb_active :: "(BrokerRequestId, ResponseReservation) fmap"

definition SessionBudget_new :: "SessionBudgetLimits \<Rightarrow> SessionBudget" where
  "SessionBudget_new limits =
     \<lparr>sb_limits = limits, sb_started_requests = 0, sb_committed_response_bytes = 0,
      sb_reserved_response_bytes = 0, sb_active = fmempty\<rparr>"

definition usage :: "SessionBudget \<Rightarrow> SessionBudgetUsage" where
  "usage b =
     \<lparr>bu_started_requests = sb_started_requests b, bu_committed_response_bytes = sb_committed_response_bytes b,
      bu_reserved_response_bytes = sb_reserved_response_bytes b, bu_active_requests = fm_len (sb_active b)\<rparr>"

definition start ::
    "BrokerRequestId \<Rightarrow> u64 \<Rightarrow> SessionBudget \<Rightarrow> (SessionBudgetError, ResponseReservation) result \<times> SessionBudget" where
  "start request max_response_bytes b =
     (if fmlookup (sb_active b) request \<noteq> None then (Err (ReservationAlreadyActive request), b)
      else if sb_started_requests b \<ge> bl_requests (sb_limits b) then (Err RequestCountExhausted, b)
      else if fm_len (sb_active b) \<ge> bl_concurrent (sb_limits b) then (Err ConcurrentRequestLimitReached, b)
      else (case checked_add (sb_committed_response_bytes b) (sb_reserved_response_bytes b) of
        None \<Rightarrow> (Err AccountingInvariantBroken, b)
      | Some used_or_reserved \<Rightarrow>
          (case checked_sub (bl_response_bytes (sb_limits b)) used_or_reserved of
            None \<Rightarrow> (Err AccountingInvariantBroken, b)
          | Some remaining \<Rightarrow>
              if max_response_bytes > remaining then (Err (ResponseBytesExhausted max_response_bytes remaining), b)
              else (case checked_add (sb_started_requests b) 1 of
                None \<Rightarrow> (Err AccountingInvariantBroken, b)
              | Some next_started \<Rightarrow>
                  (case checked_add (sb_reserved_response_bytes b) max_response_bytes of
                    None \<Rightarrow> (Err AccountingInvariantBroken, b)
                  | Some next_reserved \<Rightarrow>
                      let reservation = \<lparr>rr_request = request, rr_max_response_bytes = max_response_bytes\<rparr> in
                      (Ok reservation,
                       b\<lparr>sb_started_requests := next_started, sb_reserved_response_bytes := next_reserved,
                         sb_active := fmupd request reservation (sb_active b)\<rparr>))))))"

definition complete ::
    "BrokerRequestId \<Rightarrow> u64 \<Rightarrow> SessionBudget \<Rightarrow> (SessionBudgetError, unit) result \<times> SessionBudget" where
  "complete request received b = (case fmlookup (sb_active b) request of
     None \<Rightarrow> (Err (UnknownReservation request), b)
   | Some reservation \<Rightarrow>
       if received > rr_max_response_bytes reservation then
         (Err (ResponseExceedsReservation request received (rr_max_response_bytes reservation)), b)
       else (case checked_add (sb_committed_response_bytes b) received of
         None \<Rightarrow> (Err AccountingInvariantBroken, b)
       | Some next_committed \<Rightarrow>
           (case checked_sub (sb_reserved_response_bytes b) (rr_max_response_bytes reservation) of
             None \<Rightarrow> (Err AccountingInvariantBroken, b)
           | Some next_reserved \<Rightarrow>
               (Ok (), b\<lparr>sb_active := fmdrop request (sb_active b),
                         sb_committed_response_bytes := next_committed,
                         sb_reserved_response_bytes := next_reserved\<rparr>))))"

definition abort :: "BrokerRequestId \<Rightarrow> SessionBudget \<Rightarrow> (SessionBudgetError, unit) result \<times> SessionBudget" where
  "abort request b = (case fmlookup (sb_active b) request of
     None \<Rightarrow> (Err (UnknownReservation request), b)
   | Some reservation \<Rightarrow>
       (case checked_sub (sb_reserved_response_bytes b) (rr_max_response_bytes reservation) of
         None \<Rightarrow> (Err AccountingInvariantBroken, b)
       | Some next_reserved \<Rightarrow>
           (Ok (), b\<lparr>sb_active := fmdrop request (sb_active b), sb_reserved_response_bytes := next_reserved\<rparr>)))"

section \<open>The bytes held by active reservations\<close>

definition reserved_bytes :: "(BrokerRequestId, ResponseReservation) fmap \<Rightarrow> nat" where
  "reserved_bytes m = (\<Sum>r \<in> fset (fmdom m). unat (rr_max_response_bytes (the (fmlookup m r))))"

lemma reserved_bytes_empty [simp]: "reserved_bytes fmempty = 0"
  by (simp add: reserved_bytes_def)

lemma reserved_bytes_upd:
  assumes "fmlookup m r = None"
  shows "reserved_bytes (fmupd r x m) = unat (rr_max_response_bytes x) + reserved_bytes m"
proof -
  have "r \<notin> fset (fmdom m)" using assms by (simp add: fmdom_notI)
  then have "(\<Sum>q \<in> fset (fmdom m). unat (rr_max_response_bytes (the (fmlookup (fmupd r x m) q)))) = reserved_bytes m"
    unfolding reserved_bytes_def by (intro sum.cong) auto
  with \<open>r \<notin> fset (fmdom m)\<close> show ?thesis by (simp add: reserved_bytes_def)
qed

lemma reserved_bytes_drop:
  assumes "fmlookup m r = Some x"
  shows "reserved_bytes m = unat (rr_max_response_bytes x) + reserved_bytes (fmdrop r m)"
proof -
  have "fmupd r x (fmdrop r m) = m"
    using assms by (intro fmap_ext) auto
  then show ?thesis using reserved_bytes_upd [of "fmdrop r m" r x] by simp
qed

section \<open>The accounting invariant\<close>

definition budget_inv :: "SessionBudget \<Rightarrow> bool" where
  "budget_inv b \<longleftrightarrow>
     unat (sb_reserved_response_bytes b) = reserved_bytes (sb_active b) \<and>
     unat (sb_committed_response_bytes b) + unat (sb_reserved_response_bytes b) \<le> unat (bl_response_bytes (sb_limits b)) \<and>
     sb_started_requests b \<le> bl_requests (sb_limits b) \<and>
     fm_len (sb_active b) \<le> bl_concurrent (sb_limits b) \<and>
     fm_len (sb_active b) \<le> unat (sb_started_requests b) \<and>
     (\<forall>r x. fmlookup (sb_active b) r = Some x \<longrightarrow> rr_request x = r)"

lemma budget_inv_new [simp]: "budget_inv (SessionBudget_new limits)"
  by (simp add: budget_inv_def SessionBudget_new_def fcard.rep_eq)

text \<open>What remains of the response-byte limit.\<close>

definition remaining_bytes :: "SessionBudget \<Rightarrow> nat" where
  "remaining_bytes b = unat (bl_response_bytes (sb_limits b)) -
     (unat (sb_committed_response_bytes b) + unat (sb_reserved_response_bytes b))"

definition started_budget :: "BrokerRequestId \<Rightarrow> u64 \<Rightarrow> SessionBudget \<Rightarrow> SessionBudget" where
  "started_budget r n b = b\<lparr>sb_started_requests := sb_started_requests b + 1,
     sb_reserved_response_bytes := sb_reserved_response_bytes b + n,
     sb_active := fmupd r \<lparr>rr_request = r, rr_max_response_bytes = n\<rparr> (sb_active b)\<rparr>"

definition released_budget :: "BrokerRequestId \<Rightarrow> u64 \<Rightarrow> u64 \<Rightarrow> SessionBudget \<Rightarrow> SessionBudget" where
  "released_budget r n received b = b\<lparr>sb_active := fmdrop r (sb_active b),
     sb_committed_response_bytes := sb_committed_response_bytes b + received,
     sb_reserved_response_bytes := sb_reserved_response_bytes b - n\<rparr>"

text \<open>Sums below the limit do not wrap.\<close>

lemma remaining_less: "remaining_bytes b < 2 ^ 64"
  unfolding remaining_bytes_def by (rule le_less_trans [OF diff_le_self u64_less])

lemma budget_sums:
  assumes "budget_inv b"
  shows "unat (sb_committed_response_bytes b + sb_reserved_response_bytes b) =
      unat (sb_committed_response_bytes b) + unat (sb_reserved_response_bytes b)"
    and "checked_add (sb_committed_response_bytes b) (sb_reserved_response_bytes b) =
      Some (sb_committed_response_bytes b + sb_reserved_response_bytes b)"
    and "checked_sub (bl_response_bytes (sb_limits b)) (sb_committed_response_bytes b + sb_reserved_response_bytes b) =
      Some (word_of_nat (remaining_bytes b))"
proof -
  have le: "unat (sb_committed_response_bytes b) + unat (sb_reserved_response_bytes b) \<le> unat (bl_response_bytes (sb_limits b))"
    using assms by (simp add: budget_inv_def)
  also have "\<dots> < 2 ^ 64" by (rule u64_less)
  finally have fits: "unat (sb_committed_response_bytes b) + unat (sb_reserved_response_bytes b) < 2 ^ 64" .
  then show sum: "unat (sb_committed_response_bytes b + sb_reserved_response_bytes b) =
      unat (sb_committed_response_bytes b) + unat (sb_reserved_response_bytes b)"
    by (simp add: unat_word_ariths)
  show "checked_add (sb_committed_response_bytes b) (sb_reserved_response_bytes b) =
      Some (sb_committed_response_bytes b + sb_reserved_response_bytes b)"
    using fits by (simp add: checked_add_def)
  have "unat (word_of_nat (remaining_bytes b) :: u64) = remaining_bytes b"
    using remaining_less [of b] by (simp add: unat_of_nat)
  then show "checked_sub (bl_response_bytes (sb_limits b)) (sb_committed_response_bytes b + sb_reserved_response_bytes b) =
      Some (word_of_nat (remaining_bytes b))"
    unfolding checked_sub_Some_iff sum using le remaining_bytes_def [of b] by simp
qed

lemma start_spec:
  assumes "budget_inv b"
  shows "start r n b =
    (if fmlookup (sb_active b) r \<noteq> None then (Err (ReservationAlreadyActive r), b)
     else if sb_started_requests b \<ge> bl_requests (sb_limits b) then (Err RequestCountExhausted, b)
     else if fm_len (sb_active b) \<ge> bl_concurrent (sb_limits b) then (Err ConcurrentRequestLimitReached, b)
     else if unat n > remaining_bytes b then (Err (ResponseBytesExhausted n (word_of_nat (remaining_bytes b))), b)
     else (Ok \<lparr>rr_request = r, rr_max_response_bytes = n\<rparr>, started_budget r n b))"
proof -
  have more: "n > word_of_nat (remaining_bytes b) \<longleftrightarrow> unat n > remaining_bytes b"
    using remaining_less [of b] by (simp add: word_less_nat_alt unat_of_nat)
  have count: "checked_add (sb_started_requests b) 1 = Some (sb_started_requests b + 1)"
    if "\<not> sb_started_requests b \<ge> bl_requests (sb_limits b)"
  proof -
    have "unat (sb_started_requests b) < unat (bl_requests (sb_limits b))"
      using that by (simp add: word_le_nat_alt)
    then have "unat (sb_started_requests b) + 1 < 2 ^ 64"
      using u64_less [of "bl_requests (sb_limits b)"] by simp
    then show ?thesis by (simp add: checked_add_def)
  qed
  have reserve: "checked_add (sb_reserved_response_bytes b) n = Some (sb_reserved_response_bytes b + n)"
    if "\<not> unat n > remaining_bytes b"
  proof -
    have "unat (sb_reserved_response_bytes b) + unat n \<le> unat (bl_response_bytes (sb_limits b))"
      using that assms unfolding remaining_bytes_def budget_inv_def by linarith
    also have "\<dots> < 2 ^ 64" by (rule u64_less)
    finally show ?thesis by (simp add: checked_add_def)
  qed
  show ?thesis
    by (simp add: start_def budget_sums [OF assms] more count reserve started_budget_def Let_def)
qed

lemma released_reserved:
  assumes "budget_inv b" "fmlookup (sb_active b) r = Some x"
  shows "unat (rr_max_response_bytes x) \<le> unat (sb_reserved_response_bytes b)"
    and "checked_sub (sb_reserved_response_bytes b) (rr_max_response_bytes x) =
      Some (sb_reserved_response_bytes b - rr_max_response_bytes x)"
proof -
  show le: "unat (rr_max_response_bytes x) \<le> unat (sb_reserved_response_bytes b)"
    using assms reserved_bytes_drop [OF assms(2)] by (simp add: budget_inv_def)
  then show "checked_sub (sb_reserved_response_bytes b) (rr_max_response_bytes x) =
      Some (sb_reserved_response_bytes b - rr_max_response_bytes x)"
    by (simp add: checked_sub_def word_le_nat_alt)
qed

lemma complete_spec:
  assumes "budget_inv b"
  shows "complete r n b = (case fmlookup (sb_active b) r of
      None \<Rightarrow> (Err (UnknownReservation r), b)
    | Some x \<Rightarrow>
        if n > rr_max_response_bytes x then (Err (ResponseExceedsReservation r n (rr_max_response_bytes x)), b)
        else (Ok (), released_budget r (rr_max_response_bytes x) n b))"
proof (cases "fmlookup (sb_active b) r")
  case (Some x)
  have "checked_add (sb_committed_response_bytes b) n = Some (sb_committed_response_bytes b + n)"
    if "\<not> n > rr_max_response_bytes x"
  proof -
    have "unat (sb_committed_response_bytes b) + unat n \<le> unat (bl_response_bytes (sb_limits b))"
      using that assms released_reserved [OF assms Some] by (simp add: budget_inv_def word_less_nat_alt)
    also have "\<dots> < 2 ^ 64" by (rule u64_less)
    finally show ?thesis by (simp add: checked_add_def)
  qed
  with Some show ?thesis
    by (simp add: complete_def released_reserved [OF assms Some] released_budget_def)
qed (simp add: complete_def)

lemma abort_spec:
  "budget_inv b \<Longrightarrow> abort r b = (case fmlookup (sb_active b) r of
      None \<Rightarrow> (Err (UnknownReservation r), b)
    | Some x \<Rightarrow> (Ok (), released_budget r (rr_max_response_bytes x) 0 b))"
  by (auto simp: abort_def released_budget_def dest: released_reserved split: option.split)

section \<open>Sequences of calls\<close>

lemma budget_inv_started:
  assumes inv: "budget_inv b" and free: "fmlookup (sb_active b) r = None"
    and count: "\<not> sb_started_requests b \<ge> bl_requests (sb_limits b)"
    and room: "fm_len (sb_active b) < bl_concurrent (sb_limits b)" "unat n \<le> remaining_bytes b"
  shows "budget_inv (started_budget r n b)"
proof -
  have fits: "unat (sb_committed_response_bytes b) + (unat (sb_reserved_response_bytes b) + unat n) \<le>
      unat (bl_response_bytes (sb_limits b))"
    using inv room(2) unfolding budget_inv_def remaining_bytes_def by linarith
  then have reserved: "unat (sb_reserved_response_bytes b + n) = unat (sb_reserved_response_bytes b) + unat n"
    using u64_less [of "bl_response_bytes (sb_limits b)"] by (simp add: unat_word_ariths)
  have "unat (sb_started_requests b) < unat (bl_requests (sb_limits b))"
    using count by (simp add: word_le_nat_alt)
  moreover from this have "unat (sb_started_requests b + 1) = unat (sb_started_requests b) + 1"
    using u64_less [of "bl_requests (sb_limits b)"] by (simp add: unat_word_ariths)
  ultimately show ?thesis
    using inv fits free room(1)
    by (simp add: budget_inv_def started_budget_def reserved reserved_bytes_upd word_le_nat_alt fm_len_upd del: fmdom_fmupd)
qed

lemma released_sums:
  assumes "budget_inv b" "fmlookup (sb_active b) r = Some x" "n \<le> rr_max_response_bytes x"
  shows "unat (sb_committed_response_bytes b + n) = unat (sb_committed_response_bytes b) + unat n"
    and "unat (sb_reserved_response_bytes b - rr_max_response_bytes x) =
      unat (sb_reserved_response_bytes b) - unat (rr_max_response_bytes x)"
proof -
  note le = released_reserved(1) [OF assms(1,2)]
  have "unat (sb_committed_response_bytes b) + unat n \<le> unat (bl_response_bytes (sb_limits b))"
    using assms(1,3) le unfolding budget_inv_def word_le_nat_alt by linarith
  then show "unat (sb_committed_response_bytes b + n) = unat (sb_committed_response_bytes b) + unat n"
    using u64_less [of "bl_response_bytes (sb_limits b)"] by (simp add: unat_word_ariths)
  show "unat (sb_reserved_response_bytes b - rr_max_response_bytes x) =
      unat (sb_reserved_response_bytes b) - unat (rr_max_response_bytes x)"
    using le by (simp add: unat_sub word_le_nat_alt)
qed

lemma budget_inv_released:
  assumes inv: "budget_inv b" and x: "fmlookup (sb_active b) r = Some x" and le: "n \<le> rr_max_response_bytes x"
  shows "budget_inv (released_budget r (rr_max_response_bytes x) n b)"
proof -
  have "Suc (fm_len (fmdrop r (sb_active b))) = fm_len (sb_active b)"
    by (rule fm_len_drop [OF x])
  moreover have "unat n \<le> unat (rr_max_response_bytes x)"
    using le by (simp add: word_le_nat_alt)
  ultimately show ?thesis
    using inv released_reserved(1) [OF inv x] reserved_bytes_drop [OF x]
    by (auto simp: budget_inv_def released_budget_def released_sums [OF assms] simp del: fmdom_drop)
qed

datatype BudgetOp = StartOp BrokerRequestId u64 | CompleteOp BrokerRequestId u64 | AbortOp BrokerRequestId

fun budget_step :: "BudgetOp \<Rightarrow> SessionBudget \<Rightarrow> (SessionBudgetError, unit) result \<times> SessionBudget" where
  "budget_step (StartOp r n) b = apfst (map_sum id (\<lambda>_. ())) (start r n b)"
| "budget_step (CompleteOp r n) b = complete r n b"
| "budget_step (AbortOp r) b = abort r b"

lemma budget_step_inv: "budget_inv b \<Longrightarrow> budget_inv (snd (budget_step x b))"
  by (cases x)
    (auto simp: start_spec complete_spec abort_spec not_less not_le intro: budget_inv_started budget_inv_released
      split: option.split)

lemma budget_step_accounts: "budget_inv b \<Longrightarrow> fst (budget_step x b) \<noteq> Err AccountingInvariantBroken"
  by (cases x) (auto simp: start_spec complete_spec abort_spec split: option.split)

definition budget_later :: "SessionBudget \<Rightarrow> SessionBudget \<Rightarrow> bool" where
  "budget_later b c \<longleftrightarrow> sb_limits c = sb_limits b \<and> sb_started_requests b \<le> sb_started_requests c \<and>
     sb_committed_response_bytes b \<le> sb_committed_response_bytes c"

text \<open>What a sequence of calls was granted: requests started and bytes reported by completions.\<close>

fun granted_start :: "BudgetOp \<Rightarrow> ('e, unit) result \<Rightarrow> nat" where
  "granted_start (StartOp r n) (Ok _) = 1"
| "granted_start _ _ = 0"

fun granted_bytes :: "BudgetOp \<Rightarrow> ('e, unit) result \<Rightarrow> nat" where
  "granted_bytes (CompleteOp r n) (Ok _) = unat n"
| "granted_bytes _ _ = 0"

lemma budget_step_counts:
  assumes "budget_inv b"
  shows "sb_limits (snd (budget_step x b)) = sb_limits b"
    "unat (sb_started_requests (snd (budget_step x b))) = unat (sb_started_requests b) + granted_start x (fst (budget_step x b))"
    "unat (sb_committed_response_bytes (snd (budget_step x b))) =
       unat (sb_committed_response_bytes b) + granted_bytes x (fst (budget_step x b))"
proof -
  have succ: "unat (sb_started_requests b + 1) = unat (sb_started_requests b) + 1"
    if "\<not> bl_requests (sb_limits b) \<le> sb_started_requests b"
    using that u64_less [of "bl_requests (sb_limits b)"] by (simp add: word_le_nat_alt unat_word_ariths)
  show "sb_limits (snd (budget_step x b)) = sb_limits b"
    by (cases x) (auto simp: assms start_spec complete_spec abort_spec started_budget_def released_budget_def split: option.split)
  show "unat (sb_started_requests (snd (budget_step x b))) = unat (sb_started_requests b) + granted_start x (fst (budget_step x b))"
    by (cases x) (auto simp: assms start_spec complete_spec abort_spec started_budget_def released_budget_def succ split: option.split)
  show "unat (sb_committed_response_bytes (snd (budget_step x b))) =
       unat (sb_committed_response_bytes b) + granted_bytes x (fst (budget_step x b))"
    by (cases x)
      (auto simp: assms start_spec complete_spec abort_spec started_budget_def released_budget_def not_less
        released_sums(1) [OF assms] split: option.split)
qed

interpretation budget: machine budget_step budget_inv budget_later
  by unfold_locales
    (auto simp: budget_step_inv budget_later_def word_le_nat_alt budget_step_counts)

definition granted_total :: "(BudgetOp \<Rightarrow> (SessionBudgetError, unit) result \<Rightarrow> nat) \<Rightarrow> BudgetOp list \<Rightarrow> SessionBudget \<Rightarrow> nat" where
  "granted_total f xs b = sum_list (map2 f xs (trace budget_step xs b))"

lemma budget_run_counts:
  "budget_inv b \<Longrightarrow>
   sb_limits (run budget_step xs b) = sb_limits b \<and>
   unat (sb_started_requests (run budget_step xs b)) = unat (sb_started_requests b) + granted_total granted_start xs b \<and>
   unat (sb_committed_response_bytes (run budget_step xs b)) =
     unat (sb_committed_response_bytes b) + granted_total granted_bytes xs b \<and>
   Err AccountingInvariantBroken \<notin> set (trace budget_step xs b)"
  by (induction xs arbitrary: b)
    (use budget_step_accounts in \<open>auto simp: granted_total_def budget_step_inv budget_step_counts dest: sym\<close>)

end
