(* ===== verification/Control_Frame.thy ===== *)
theory Control_Frame
  imports Wire
begin

text \<open>
  Length-prefixed control frames of the egress protocol (\<open>egress-protocol/src/frame.rs\<close>): a
  four-byte big-endian length, bounded before anything is allocated, and an opaque payload.
\<close>

definition MAX_CONTROL_FRAME_BYTES :: nat where
  "MAX_CONTROL_FRAME_BYTES = 1024 * 1024"

definition CONTROL_FRAME_LENGTH_PREFIX_BYTES :: nat where
  "CONTROL_FRAME_LENGTH_PREFIX_BYTES = 4"

datatype FrameError =
    FrameTooLarge nat
  | TruncatedPrefix
  | TruncatedPayload (fe_expected: nat) (fe_actual: nat)
  | TrailingBytes (fe_declared: nat) (fe_trailing: nat)

fun FrameError_display :: "FrameError \<Rightarrow> string" where
  "FrameError_display (FrameTooLarge n) =
     ''control frame length '' @ show_nat n @ '' exceeds the '' @ show_nat MAX_CONTROL_FRAME_BYTES @ '' byte limit''"
| "FrameError_display TruncatedPrefix = ''control frame is missing its length prefix''"
| "FrameError_display (TruncatedPayload e a) =
     ''control frame payload is truncated: expected '' @ show_nat e @ '' bytes, received '' @ show_nat a"
| "FrameError_display (TrailingBytes d t) =
     ''control frame declares '' @ show_nat d @ '' payload bytes but has '' @ show_nat t @ '' trailing bytes''"

datatype ValidatedFrameLength = ValidatedFrameLength (as_usize: nat)

definition from_network_prefix :: "bytes \<Rightarrow> (FrameError, ValidatedFrameLength) result" where
  "from_network_prefix pre =
     (let len = unat (from_be_bytes pre :: u32) in
      if len > MAX_CONTROL_FRAME_BYTES then Err (FrameTooLarge len) else Ok (ValidatedFrameLength len))"

record ControlFrame =
  cf_payload :: bytes
  cf_wire_length :: u32

definition ControlFrame_new :: "bytes \<Rightarrow> (FrameError, ControlFrame) result" where
  "ControlFrame_new payload =
     (let len = length payload in
      if len > MAX_CONTROL_FRAME_BYTES then Err (FrameTooLarge len)
      else and_then (ok_or (FrameTooLarge len) (narrow len)) (\<lambda>wire_length.
        Ok \<lparr>cf_payload = payload, cf_wire_length = wire_length\<rparr>))"

definition encoded_len :: "ControlFrame \<Rightarrow> nat" where
  "encoded_len f = CONTROL_FRAME_LENGTH_PREFIX_BYTES + length (cf_payload f)"

definition ControlFrame_encode :: "ControlFrame \<Rightarrow> bytes" where
  "ControlFrame_encode f = to_be_bytes (cf_wire_length f) @ cf_payload f"

definition decode_complete :: "bytes \<Rightarrow> (FrameError, ControlFrame) result" where
  "decode_complete encoded =
     and_then (take_bytes TruncatedPrefix CONTROL_FRAME_LENGTH_PREFIX_BYTES encoded) (\<lambda>(pre, payload).
     and_then (from_network_prefix pre) (\<lambda>v. let len = as_usize v in
     if length payload < len then Err (TruncatedPayload len (length payload))
     else if length payload > len then Err (TrailingBytes len (length payload - len))
     else ControlFrame_new payload))"

section \<open>Framing is exact\<close>

text \<open>A constructed frame: its recorded length is the length of its bounded payload.\<close>

definition wf_frame :: "ControlFrame \<Rightarrow> bool" where
  "wf_frame f \<longleftrightarrow> length (cf_payload f) \<le> MAX_CONTROL_FRAME_BYTES \<and> unat (cf_wire_length f) = length (cf_payload f)"

lemma ControlFrame_new_Ok: "ControlFrame_new payload = Ok f \<longleftrightarrow> wf_frame f \<and> cf_payload f = payload"
  by (cases f) (auto simp: ControlFrame_new_def wf_frame_def Let_def and_then_Ok narrow_Some)

lemma ControlFrame_new_total: "length payload \<le> MAX_CONTROL_FRAME_BYTES \<Longrightarrow> \<exists>f. ControlFrame_new payload = Ok f"
  by (rule narrow_fits [where 'w = 32, of "length payload"])
    (auto simp: ControlFrame_new_def Let_def MAX_CONTROL_FRAME_BYTES_def)

lemma length_ControlFrame_encode: "length (ControlFrame_encode f) = encoded_len f"
  by (simp add: ControlFrame_encode_def encoded_len_def CONTROL_FRAME_LENGTH_PREFIX_BYTES_def)

lemma decode_complete_Ok: "decode_complete bs = Ok f \<longleftrightarrow> wf_frame f \<and> bs = ControlFrame_encode f"
proof (intro iffI conjI)
  assume "decode_complete bs = Ok f"
  then obtain pre where bs: "bs = pre @ cf_payload f" "length pre = 4"
      and v: "unat (from_be_bytes pre :: u32) = length (cf_payload f)" and f: "wf_frame f"
    by (auto simp: decode_complete_def from_network_prefix_def and_then_Ok take_bytes_Ok ControlFrame_new_Ok
        CONTROL_FRAME_LENGTH_PREFIX_BYTES_def Let_def split: if_splits)
  show "wf_frame f" by (rule f)
  have "from_be_bytes pre = cf_wire_length f"
    using v f by (simp add: wf_frame_def word_unat_eq_iff)
  then show "bs = ControlFrame_encode f"
    using bs from_be_bytes_inject [of pre "cf_wire_length f"] by (simp add: ControlFrame_encode_def)
next
  assume "wf_frame f \<and> bs = ControlFrame_encode f"
  moreover from this have "ControlFrame_new (cf_payload f) = Ok f"
    by (simp add: ControlFrame_new_Ok)
  ultimately show "decode_complete bs = Ok f"
    by (simp add: decode_complete_def ControlFrame_encode_def from_network_prefix_def Let_def wf_frame_def
        CONTROL_FRAME_LENGTH_PREFIX_BYTES_def)
qed

end
