(* ===== verification/Broker_Cbor.thy ===== *)
theory Broker_Cbor
  imports Broker_Session Control_Frame Capability
begin

text \<open>
  The closed request universe of the egress broker (\<open>egress-protocol/src/operation.rs\<close>) and its
  canonical CBOR schema (\<open>egress-protocol/src/cbor.rs\<close>). A decoder is modelled by the bytes that
  remain after its cursor; a writer returns the buffer it has appended to.
\<close>

section \<open>Operations\<close>

datatype BrokerOperationKind = PublicFetchKind | GitHubKind

datatype BrokerOperation = PublicFetch HttpFetchRequest | GitHub GitHubRequest

fun BrokerOperation_kind :: "BrokerOperation \<Rightarrow> BrokerOperationKind" where
  "BrokerOperation_kind (PublicFetch _) = PublicFetchKind"
| "BrokerOperation_kind (GitHub _) = GitHubKind"

fun as_public_fetch :: "BrokerOperation \<Rightarrow> HttpFetchRequest option" where
  "as_public_fetch (PublicFetch q) = Some q"
| "as_public_fetch (GitHub _) = None"

fun as_github :: "BrokerOperation \<Rightarrow> GitHubRequest option" where
  "as_github (PublicFetch _) = None"
| "as_github (GitHub q) = Some q"

fun public_response_byte_limit :: "BrokerOperation \<Rightarrow> u64 option" where
  "public_response_byte_limit (PublicFetch q) = Some (hr_max_response_bytes q)"
| "public_response_byte_limit (GitHub _) = None"

fun authority_request :: "BrokerOperation \<Rightarrow> AuthorityRequest" where
  "authority_request (PublicFetch q) = HttpFetchReq q"
| "authority_request (GitHub q) = GitHubReq q"

definition capability_request_at :: "BrokerOperation \<Rightarrow> MonotonicTime \<Rightarrow> CapabilityRequest" where
  "capability_request_at op t = \<lparr>cr_time = t, cr_authority = authority_request op\<rparr>"

definition is_safe_public_fetch_method :: "HttpFetchMethod \<Rightarrow> bool" where
  "is_safe_public_fetch_method m \<longleftrightarrow> m = Get \<or> m = Head"

section \<open>Schema\<close>

definition BROKER_CBOR_PROTOCOL_VERSION :: u64 where "BROKER_CBOR_PROTOCOL_VERSION = 1"
definition OUTER_REQUEST_ITEMS :: u64 where "OUTER_REQUEST_ITEMS = 6"
definition PUBLIC_FETCH_ITEMS :: u64 where "PUBLIC_FETCH_ITEMS = 5"
definition GITHUB_ITEMS :: u64 where "GITHUB_ITEMS = 6"
definition PUBLIC_FETCH_OPERATION :: u64 where "PUBLIC_FETCH_OPERATION = 0"
definition GITHUB_OPERATION :: u64 where "GITHUB_OPERATION = 1"
definition GET_METHOD :: u64 where "GET_METHOD = 0"
definition HEAD_METHOD :: u64 where "HEAD_METHOD = 1"
definition PUBLISH_BRANCH_OPERATION :: u64 where "PUBLISH_BRANCH_OPERATION = 0"
definition CREATE_PULL_REQUEST_OPERATION :: u64 where "CREATE_PULL_REQUEST_OPERATION = 1"
definition SESSION_ID_BYTES :: nat where "SESSION_ID_BYTES = 16"
definition REQUEST_ID_BYTES :: nat where "REQUEST_ID_BYTES = 16"
definition PAYLOAD_HASH_BYTES :: nat where "PAYLOAD_HASH_BYTES = 32"

record CanonicalBrokerRequest =
  br_envelope :: BrokerEnvelope
  br_operation :: BrokerOperation
  br_canonical_payload :: bytes

datatype CborError =
    ControlPayloadTooLarge nat
  | CborTruncated
  | UnexpectedMajorType (major_expected: u8) (major_received: u8)
  | NonCanonicalInteger
  | IndefiniteLength
  | UnsupportedAdditionalInformation u8
  | UnexpectedArrayLength (array_expected: u64) (array_received: u64)
  | UnexpectedByteStringLength (string_expected: nat) (string_received: u64)
  | InvalidUtf8
  | UnsupportedProtocolVersion u64
  | UnknownOperationFamily u64
  | UnknownPublicFetchMethod u64
  | UnknownGitHubOperation u64
  | InvalidAuthorityValue string
  | CborPayloadHashMismatch
  | TrailingPayloadBytes
  | TrailingRequestBytes

fun CborError_display :: "CborError \<Rightarrow> string" where
  "CborError_display (ControlPayloadTooLarge n) =
     ''canonical Broker CBOR payload is '' @ show_nat n @ '' bytes and exceeds the '' @
     show_nat MAX_CONTROL_FRAME_BYTES @ '' byte limit''"
| "CborError_display CborTruncated = ''canonical Broker CBOR is truncated''"
| "CborError_display (UnexpectedMajorType e r) =
     ''canonical Broker CBOR requires major type '' @ show_nat (unat e) @ '', received '' @ show_nat (unat r)"
| "CborError_display NonCanonicalInteger = ''canonical Broker CBOR uses a non-minimal integer width''"
| "CborError_display IndefiniteLength = ''canonical Broker CBOR does not permit indefinite lengths''"
| "CborError_display (UnsupportedAdditionalInformation a) =
     ''canonical Broker CBOR uses unsupported additional information '' @ show_nat (unat a)"
| "CborError_display (UnexpectedArrayLength e r) =
     ''canonical Broker CBOR requires an array of '' @ show_nat (unat e) @ '' items, received '' @ show_nat (unat r)"
| "CborError_display (UnexpectedByteStringLength e r) =
     ''canonical Broker CBOR requires a '' @ show_nat e @ ''-byte identity, received '' @ show_nat (unat r) @ '' bytes''"
| "CborError_display InvalidUtf8 = ''canonical Broker CBOR text is not UTF-8''"
| "CborError_display (UnsupportedProtocolVersion r) =
     ''canonical Broker CBOR protocol version '' @ show_nat (unat r) @ '' is not supported''"
| "CborError_display (UnknownOperationFamily r) =
     ''canonical Broker CBOR operation family '' @ show_nat (unat r) @ '' is not supported''"
| "CborError_display (UnknownPublicFetchMethod r) =
     ''canonical Broker CBOR public fetch method '' @ show_nat (unat r) @ '' is not supported''"
| "CborError_display (UnknownGitHubOperation r) =
     ''canonical Broker CBOR GitHub operation '' @ show_nat (unat r) @ '' is not supported''"
| "CborError_display (InvalidAuthorityValue field) = ''canonical Broker CBOR has an invalid '' @ field @ '' value''"
| "CborError_display CborPayloadHashMismatch = ''canonical Broker CBOR payload hash does not match its payload''"
| "CborError_display TrailingPayloadBytes = ''canonical Broker CBOR operation payload has trailing bytes''"
| "CborError_display TrailingRequestBytes = ''canonical Broker CBOR request has trailing bytes''"

section \<open>Writing\<close>

definition write_head :: "bytes \<Rightarrow> u8 \<Rightarrow> u64 \<Rightarrow> bytes" where
  "write_head encoded major v =
     (if v < 24 then encoded @ [push_bit 5 major OR ucast v]
      else (case narrow (unat v) of
        Some (w :: u8) \<Rightarrow> encoded @ [push_bit 5 major OR 24] @ [w]
      | None \<Rightarrow> (case narrow (unat v) of
          Some (w :: u16) \<Rightarrow> encoded @ [push_bit 5 major OR 25] @ to_be_bytes w
        | None \<Rightarrow> (case narrow (unat v) of
            Some (w :: u32) \<Rightarrow> encoded @ [push_bit 5 major OR 26] @ to_be_bytes w
          | None \<Rightarrow> encoded @ [push_bit 5 major OR 27] @ to_be_bytes v))))"

definition write_array :: "bytes \<Rightarrow> u64 \<Rightarrow> bytes" where
  "write_array encoded item_count = write_head encoded 4 item_count"

definition write_bytes :: "bytes \<Rightarrow> bytes \<Rightarrow> bytes" where
  "write_bytes encoded bs = write_head encoded 2 (word_of_nat (length bs)) @ bs"

definition write_text :: "bytes \<Rightarrow> string \<Rightarrow> bytes" where
  "write_text encoded s = write_head encoded 3 (word_of_nat (length s)) @ as_bytes s"

definition write_unsigned :: "bytes \<Rightarrow> u64 \<Rightarrow> bytes" where
  "write_unsigned encoded v = write_head encoded 0 v"

fun encode_operation :: "BrokerOperation \<Rightarrow> bytes" where
  "encode_operation (PublicFetch q) =
     (let encoded = write_array [] PUBLIC_FETCH_ITEMS;
          encoded = write_unsigned encoded PUBLIC_FETCH_OPERATION;
          encoded = write_unsigned encoded (case hr_method q of Get \<Rightarrow> GET_METHOD | Head \<Rightarrow> HEAD_METHOD);
          encoded = write_text encoded (host_str (hr_host q));
          encoded = write_text encoded (CanonicalUrlPath_display (hr_path q)) in
      write_unsigned encoded (hr_max_response_bytes q))"
| "encode_operation (GitHub q) =
     (let encoded = write_array [] GITHUB_ITEMS;
          encoded = write_unsigned encoded GITHUB_OPERATION;
          encoded = write_text encoded (installation_str (gr_installation q));
          encoded = write_text encoded (repo_str (gr_repository q));
          encoded = write_unsigned encoded (case gr_operation q of
            PublishBranch \<Rightarrow> PUBLISH_BRANCH_OPERATION | CreatePullRequest \<Rightarrow> CREATE_PULL_REQUEST_OPERATION);
          encoded = write_text encoded (BranchName_display (gr_base q)) in
      write_text encoded (BranchName_display (gr_head q)))"

definition CanonicalBrokerRequest_new ::
    "(bytes \<Rightarrow> bytes) \<Rightarrow> BrokerSessionId \<Rightarrow> u64 \<Rightarrow> BrokerRequestId \<Rightarrow> BrokerOperation \<Rightarrow> CanonicalBrokerRequest" where
  "CanonicalBrokerRequest_new sha256 session sequence request op =
     (let canonical_payload = encode_operation op in
      \<lparr>br_envelope = from_canonical_payload sha256 session sequence request canonical_payload,
       br_operation = op, br_canonical_payload = canonical_payload\<rparr>)"

definition CanonicalBrokerRequest_encode :: "CanonicalBrokerRequest \<Rightarrow> (CborError, bytes) result" where
  "CanonicalBrokerRequest_encode r =
     (let encoded = write_array [] OUTER_REQUEST_ITEMS;
          encoded = write_unsigned encoded BROKER_CBOR_PROTOCOL_VERSION;
          encoded = write_bytes encoded (session_bytes (be_session (br_envelope r)));
          encoded = write_unsigned encoded (be_sequence (br_envelope r));
          encoded = write_bytes encoded (request_bytes (be_request (br_envelope r)));
          encoded = write_bytes encoded (hash_bytes (be_payload_hash (br_envelope r)));
          encoded = write_bytes encoded (br_canonical_payload r) in
      if length encoded > MAX_CONTROL_FRAME_BYTES then Err (ControlPayloadTooLarge (length encoded))
      else Ok encoded)"

section \<open>Reading\<close>

definition uses_minimal_width :: "u8 \<Rightarrow> u64 \<Rightarrow> bool" where
  "uses_minimal_width additional_information v \<longleftrightarrow>
     (if additional_information \<le> 23 then True
      else if additional_information = 24 then v \<ge> 24
      else if additional_information = 25 then v > 0xFF
      else if additional_information = 26 then v > 0xFFFF
      else if additional_information = 27 then v > 0xFFFFFFFF
      else False)"

definition Decoder_take :: "nat \<Rightarrow> bytes \<Rightarrow> (CborError, bytes \<times> bytes) result" where
  "Decoder_take n bs = take_bytes CborTruncated n bs"

text \<open>The value that follows an initial byte, by the byte's additional information.\<close>

definition Decoder_head_value :: "u8 \<Rightarrow> bytes \<Rightarrow> (CborError, u64 \<times> bytes) result" where
  "Decoder_head_value additional_information bs =
     (if additional_information \<le> 23 then Ok (ucast additional_information, bs)
      else if additional_information = 24 then
        and_then (Decoder_take 1 bs) (\<lambda>(w, bs). Ok (ucast (hd w), bs))
      else if additional_information = 25 then
        and_then (Decoder_take 2 bs) (\<lambda>(w, bs). Ok (ucast (from_be_bytes w :: u16), bs))
      else if additional_information = 26 then
        and_then (Decoder_take 4 bs) (\<lambda>(w, bs). Ok (ucast (from_be_bytes w :: u32), bs))
      else if additional_information = 27 then
        and_then (Decoder_take 8 bs) (\<lambda>(w, bs). Ok (from_be_bytes w, bs))
      else if additional_information = 31 then Err IndefiniteLength
      else Err (UnsupportedAdditionalInformation additional_information))"

definition Decoder_head :: "u8 \<Rightarrow> bytes \<Rightarrow> (CborError, u64 \<times> bytes) result" where
  "Decoder_head expected_major bs =
     and_then (Decoder_take 1 bs) (\<lambda>(b, bs). let initial = hd b; received_major = drop_bit 5 initial in
     if received_major \<noteq> expected_major then Err (UnexpectedMajorType expected_major received_major)
     else let additional_information = initial AND 0x1F in
       and_then (Decoder_head_value additional_information bs) (\<lambda>(v, bs).
       if \<not> uses_minimal_width additional_information v then Err NonCanonicalInteger else Ok (v, bs)))"

definition Decoder_array_length :: "bytes \<Rightarrow> (CborError, u64 \<times> bytes) result" where
  "Decoder_array_length bs = Decoder_head 4 bs"

definition Decoder_array :: "u64 \<Rightarrow> bytes \<Rightarrow> (CborError, bytes) result" where
  "Decoder_array expected bs = and_then (Decoder_array_length bs) (\<lambda>(received, bs).
     if received \<noteq> expected then Err (UnexpectedArrayLength expected received) else Ok bs)"

definition Decoder_unsigned :: "bytes \<Rightarrow> (CborError, u64 \<times> bytes) result" where
  "Decoder_unsigned bs = Decoder_head 0 bs"

definition Decoder_bytes :: "bytes \<Rightarrow> (CborError, bytes \<times> bytes) result" where
  "Decoder_bytes bs = and_then (Decoder_head 2 bs) (\<lambda>(n, bs). Decoder_take (unat n) bs)"

definition Decoder_fixed_bytes :: "nat \<Rightarrow> bytes \<Rightarrow> (CborError, bytes \<times> bytes) result" where
  "Decoder_fixed_bytes n bs = and_then (Decoder_bytes bs) (\<lambda>(xs, bs).
     if length xs \<noteq> n then Err (UnexpectedByteStringLength n (word_of_nat (length xs))) else Ok (xs, bs))"

definition Decoder_text :: "bytes \<Rightarrow> (CborError, string \<times> bytes) result" where
  "Decoder_text bs = and_then (Decoder_head 3 bs) (\<lambda>(n, bs).
     and_then (Decoder_take (unat n) bs) (\<lambda>(xs, bs).
     and_then (from_utf8 InvalidUtf8 xs) (\<lambda>s. Ok (s, bs))))"

definition Decoder_finish :: "bytes \<Rightarrow> (CborError, unit) result" where
  "Decoder_finish bs = (if bs = [] then Ok () else Err TrailingRequestBytes)"

definition Decoder_finish_payload :: "bytes \<Rightarrow> (CborError, unit) result" where
  "Decoder_finish_payload bs = (if bs = [] then Ok () else Err TrailingPayloadBytes)"

definition decode_public_fetch :: "u64 \<Rightarrow> bytes \<Rightarrow> (CborError, BrokerOperation \<times> bytes) result" where
  "decode_public_fetch item_count bs =
     (if item_count \<noteq> PUBLIC_FETCH_ITEMS then Err (UnexpectedArrayLength PUBLIC_FETCH_ITEMS item_count)
      else
       and_then (Decoder_unsigned bs) (\<lambda>(code, bs).
       and_then (if code = GET_METHOD then Ok Get else if code = HEAD_METHOD then Ok Head
         else Err (UnknownPublicFetchMethod code)) (\<lambda>m.
       and_then (Decoder_text bs) (\<lambda>(host, bs).
       and_then (map_err (\<lambda>_. InvalidAuthorityValue ''HTTP host'') (CanonicalHost_new host)) (\<lambda>host.
       and_then (Decoder_text bs) (\<lambda>(path, bs).
       and_then (map_err (\<lambda>_. InvalidAuthorityValue ''HTTP URL path'') (CanonicalUrlPath_new path)) (\<lambda>path.
       and_then (Decoder_unsigned bs) (\<lambda>(max_response_bytes, bs).
       Ok (PublicFetch \<lparr>hr_method = m, hr_host = host, hr_path = path,
                        hr_max_response_bytes = max_response_bytes\<rparr>, bs)))))))))"

definition decode_github :: "u64 \<Rightarrow> bytes \<Rightarrow> (CborError, BrokerOperation \<times> bytes) result" where
  "decode_github item_count bs =
     (if item_count \<noteq> GITHUB_ITEMS then Err (UnexpectedArrayLength GITHUB_ITEMS item_count)
      else
       and_then (Decoder_text bs) (\<lambda>(installation, bs).
       and_then (Decoder_text bs) (\<lambda>(repository, bs).
       and_then (Decoder_unsigned bs) (\<lambda>(code, bs).
       and_then (if code = PUBLISH_BRANCH_OPERATION then Ok PublishBranch
         else if code = CREATE_PULL_REQUEST_OPERATION then Ok CreatePullRequest
         else Err (UnknownGitHubOperation code)) (\<lambda>operation.
       and_then (Decoder_text bs) (\<lambda>(base, bs).
       and_then (map_err (\<lambda>_. InvalidAuthorityValue ''GitHub base branch'') (BranchName_new base)) (\<lambda>base.
       and_then (Decoder_text bs) (\<lambda>(head, bs).
       and_then (map_err (\<lambda>_. InvalidAuthorityValue ''GitHub head branch'') (BranchName_new head)) (\<lambda>head.
       Ok (GitHub \<lparr>gr_installation = InstallationId installation, gr_repository = RepoId repository,
                   gr_operation = operation, gr_base = base, gr_head = head\<rparr>, bs))))))))))"

definition decode_operation :: "bytes \<Rightarrow> (CborError, BrokerOperation) result" where
  "decode_operation encoded =
     and_then (Decoder_array_length encoded) (\<lambda>(item_count, bs).
     and_then (Decoder_unsigned bs) (\<lambda>(family, bs).
     and_then (if family = PUBLIC_FETCH_OPERATION then decode_public_fetch item_count bs
       else if family = GITHUB_OPERATION then decode_github item_count bs
       else Err (UnknownOperationFamily family)) (\<lambda>(op, bs).
     and_then (Decoder_finish_payload bs) (\<lambda>_. Ok op))))"

definition CanonicalBrokerRequest_decode ::
    "(bytes \<Rightarrow> bytes) \<Rightarrow> bytes \<Rightarrow> (CborError, CanonicalBrokerRequest) result" where
  "CanonicalBrokerRequest_decode sha256 encoded =
     (if length encoded > MAX_CONTROL_FRAME_BYTES then Err (ControlPayloadTooLarge (length encoded))
      else
       and_then (Decoder_array OUTER_REQUEST_ITEMS encoded) (\<lambda>bs.
       and_then (Decoder_unsigned bs) (\<lambda>(version, bs).
       if version \<noteq> BROKER_CBOR_PROTOCOL_VERSION then Err (UnsupportedProtocolVersion version)
       else
        and_then (Decoder_fixed_bytes SESSION_ID_BYTES bs) (\<lambda>(session, bs).
        and_then (Decoder_unsigned bs) (\<lambda>(sequence, bs).
        and_then (Decoder_fixed_bytes REQUEST_ID_BYTES bs) (\<lambda>(request, bs).
        and_then (Decoder_fixed_bytes PAYLOAD_HASH_BYTES bs) (\<lambda>(received_payload_hash, bs).
        and_then (Decoder_bytes bs) (\<lambda>(canonical_payload, bs).
        and_then (Decoder_finish bs) (\<lambda>_.
        and_then (decode_operation canonical_payload) (\<lambda>op.
        if hash_bytes (of_canonical_payload sha256 canonical_payload) \<noteq> received_payload_hash then
          Err CborPayloadHashMismatch
        else Ok \<lparr>br_envelope = from_canonical_payload sha256 (BrokerSessionId session) sequence
                   (BrokerRequestId request) canonical_payload,
                 br_operation = op, br_canonical_payload = canonical_payload\<rparr>))))))))))"

end
