(* ===== verification/Cbor_Codec.thy ===== *)
theory Cbor_Codec
  imports Broker_Cbor
begin

text \<open>
  The CBOR readers accept exactly what the writers produce: every head has one encoding, every
  field one head, and a request one byte string per spelling of its host.
\<close>

section \<open>Heads\<close>

definition head_bytes :: "u8 \<Rightarrow> u64 \<Rightarrow> bytes" where
  "head_bytes major v = write_head [] major v"

lemma write_head_append: "write_head encoded major v = encoded @ head_bytes major v"
  by (simp add: write_head_def head_bytes_def split: option.split)

lemma low_bits: "b AND 0x1F = take_bit 5 b" for b :: u8
  by (simp add: take_bit_eq_mask mask_eq_exp_minus_1)

lemma low_bits_iff: "a < 32 \<longleftrightarrow> take_bit 5 a = a" for a :: u8
  using word_less_nat_alt [of a 32]
  by (simp add: word_unat_eq_iff unsigned_take_bit_eq take_bit_nat_eq_self_iff)

lemma high_bits_iff: "m < 8 \<longleftrightarrow> take_bit 3 m = m" for m :: u8
  using word_less_nat_alt [of m 8]
  by (simp add: word_unat_eq_iff unsigned_take_bit_eq take_bit_nat_eq_self_iff)

lemma initial_split:
  fixes m a :: u8
  assumes "m < 8" "a < 32"
  shows "drop_bit 5 (push_bit 5 m OR a) = m" "take_bit 5 (push_bit 5 m OR a) = a"
proof -
  have a: "n < 5" if "bit a n" for n
    using that assms(2) unfolding low_bits_iff by (metis bit_take_bit_iff)
  have m: "n < 3" if "bit m n" for n
    using that assms(1) unfolding high_bits_iff by (metis bit_take_bit_iff)
  show "drop_bit 5 (push_bit 5 m OR a) = m"
    using a [of "5 + n" for n] m by (intro bit_word_eqI) (force simp: bit_or_iff bit_push_bit_iff bit_drop_bit_eq)
  show "take_bit 5 (push_bit 5 m OR a) = a"
    using a by (intro bit_word_eqI) (auto simp: bit_or_iff bit_push_bit_iff bit_take_bit_iff)
qed

lemma initial_join: "push_bit 5 (drop_bit 5 b) OR take_bit 5 b = b" for b :: u8
  by (rule bit_word_eqI) (auto simp: bit_or_iff bit_push_bit_iff bit_take_bit_iff bit_drop_bit_eq)

text \<open>The five widths of a head, by the value it holds.\<close>

lemma head_bytes_cases:
  "unat v < 24 \<Longrightarrow> head_bytes m v = [push_bit 5 m OR ucast v]"
  "24 \<le> unat v \<Longrightarrow> unat v < 2 ^ 8 \<Longrightarrow> head_bytes m v = [push_bit 5 m OR 24, ucast v]"
  "2 ^ 8 \<le> unat v \<Longrightarrow> unat v < 2 ^ 16 \<Longrightarrow> head_bytes m v = (push_bit 5 m OR 25) # to_be_bytes (ucast v :: u16)"
  "2 ^ 16 \<le> unat v \<Longrightarrow> unat v < 2 ^ 32 \<Longrightarrow> head_bytes m v = (push_bit 5 m OR 26) # to_be_bytes (ucast v :: u32)"
  "2 ^ 32 \<le> unat v \<Longrightarrow> head_bytes m v = (push_bit 5 m OR 27) # to_be_bytes v"
  by (simp_all add: head_bytes_def write_head_def narrow_def word_less_nat_alt unsigned_of_nat [symmetric])

lemma ucast_narrow:
  "unat v < 2 ^ LENGTH('w) \<Longrightarrow> LENGTH('w) \<le> 64 \<Longrightarrow> ucast (ucast v :: 'w::len word) = v" for v :: u64
  by (simp add: word_unat_eq_iff unsigned_ucast_eq unsigned_take_bit_eq take_bit_nat_eq_self)

lemma ucast_widen:
  fixes w :: "'w::len word"
  assumes "LENGTH('w) \<le> 64"
  shows "unat (ucast w :: u64) = unat w" "ucast (ucast w :: u64) = w"
proof -
  have "unat w < 2 ^ LENGTH('w)" by (rule unsigned_less)
  also have "\<dots> \<le> 2 ^ 64" using assms by (rule power_increasing) simp
  finally show w: "unat (ucast w :: u64) = unat w"
    by (simp add: unsigned_ucast_eq unsigned_take_bit_eq take_bit_nat_eq_self)
  have "unat (ucast (ucast w :: u64) :: 'w word) = unat w"
    using w unsigned_less [of w] by (simp add: unsigned_ucast_eq [where 'b = 'w] unsigned_take_bit_eq take_bit_nat_eq_self)
  then show "ucast (ucast w :: u64) = w" by (simp add: word_unat_eq_iff)
qed

lemma Decoder_head_Ok:
  "Decoder_head m bs = Ok (v, r) \<longleftrightarrow>
   (\<exists>b rest. bs = b # rest \<and> drop_bit 5 b = m \<and> Decoder_head_value (take_bit 5 b) rest = Ok (v, r) \<and>
     uses_minimal_width (take_bit 5 b) v)"
  by (cases bs) (auto simp: Decoder_head_def Decoder_take_def low_bits take_bytes_def Let_def and_then_Ok split: if_splits)

lemma head_initial:
  assumes "m < 8" "a < 32" "Decoder_head_value a rest = Ok (v, r)" "uses_minimal_width a v"
  shows "Decoder_head m ((push_bit 5 m OR a) # rest) = Ok (v, r)"
  unfolding Decoder_head_Ok
  by (rule exI [of _ "push_bit 5 m OR a"], rule exI [of _ rest]) (simp only: initial_split [OF assms(1,2)] assms simp_thms)

lemma head_complete:
  assumes "m < 8"
  shows "Decoder_head m (head_bytes m v @ r) = Ok (v, r)"
proof -
  note defs = Decoder_head_value_def Decoder_take_def uses_minimal_width_def take_bytes_def word_le_nat_alt
    word_less_nat_alt ucast_narrow
  consider "unat v < 24" | "24 \<le> unat v" "unat v < 2 ^ 8" | "2 ^ 8 \<le> unat v" "unat v < 2 ^ 16"
    | "2 ^ 16 \<le> unat v" "unat v < 2 ^ 32" | "2 ^ 32 \<le> unat v"
    by linarith
  then show ?thesis
  proof cases
    case 1
    then have "unat (ucast v :: u8) = unat v"
      by (simp add: unsigned_ucast_eq unsigned_take_bit_eq take_bit_nat_eq_self)
    with 1 show ?thesis
      unfolding head_bytes_cases(1) [OF 1] append_Cons by (intro head_initial [OF assms]) (simp_all add: defs)
  next
    case 2
    then show ?thesis
      unfolding head_bytes_cases(2) [OF 2] append_Cons by (intro head_initial [OF assms]) (simp_all add: defs)
  next
    case 3
    then show ?thesis
      unfolding head_bytes_cases(3) [OF 3] append_Cons by (intro head_initial [OF assms]) (simp_all add: defs)
  next
    case 4
    then show ?thesis
      unfolding head_bytes_cases(4) [OF 4] append_Cons by (intro head_initial [OF assms]) (simp_all add: defs)
  next
    case 5
    then show ?thesis
      unfolding head_bytes_cases(5) [OF 5] append_Cons by (intro head_initial [OF assms]) (simp_all add: defs)
  qed
qed

lemma head_sound:
  assumes "Decoder_head m bs = Ok (v, r)"
  shows "bs = head_bytes m v @ r"
proof -
  obtain b rest where b: "bs = b # rest" "drop_bit 5 b = m" "uses_minimal_width (take_bit 5 b) v"
      and v: "Decoder_head_value (take_bit 5 b) rest = Ok (v, r)"
    using assms by (auto simp: Decoder_head_Ok)
  define a where "a = take_bit 5 b"
  have bs: "bs = (push_bit 5 m OR a) # rest"
    using initial_join [of b] by (simp add: b a_def)
  note facts = b(3) [folded a_def] v [folded a_def]
  consider "a \<le> 23" | "a = 24" | "a = 25" | "a = 26" | "a = 27"
    using facts by (auto simp: uses_minimal_width_def split: if_splits)
  then show ?thesis
  proof cases
    case 1
    then have "ucast a = v" "rest = r" using facts by (simp_all add: Decoder_head_value_def)
    moreover from this 1 have "unat v < 24"
      by (auto simp: word_le_nat_alt ucast_widen)
    ultimately show ?thesis using bs by (auto simp: head_bytes_cases ucast_widen)
  next
    case 2
    then obtain w :: u8 where "rest = w # r" "v = ucast w" "24 \<le> unat v"
      using facts by (cases rest) (auto simp: Decoder_head_value_def Decoder_take_def take_bytes_def
          uses_minimal_width_def word_le_nat_alt split: if_splits)
    moreover have "unat w < 256" using unsigned_less [of w] by simp
    ultimately show ?thesis
      using bs 2 by (auto simp: head_bytes_cases ucast_widen)
  next
    case 3
    then obtain w where w: "rest = w @ r" "length w = 2" "v = ucast (from_be_bytes w :: u16)" "0xFF < unat v"
      using facts by (auto simp: Decoder_head_value_def Decoder_take_def and_then_Ok take_bytes_Ok
          uses_minimal_width_def word_less_nat_alt)
    then have "to_be_bytes (from_be_bytes w :: u16) = w"
      using from_be_bytes_inject [of w "from_be_bytes w :: u16"] by simp
    moreover have "unat (from_be_bytes w :: u16) < 2 ^ 16"
      using unsigned_less [of "from_be_bytes w :: u16"] by simp
    ultimately show ?thesis
      using w bs 3 by (simp add: head_bytes_cases ucast_widen)
  next
    case 4
    then obtain w where w: "rest = w @ r" "length w = 4" "v = ucast (from_be_bytes w :: u32)" "0xFFFF < unat v"
      using facts by (auto simp: Decoder_head_value_def Decoder_take_def and_then_Ok take_bytes_Ok
          uses_minimal_width_def word_less_nat_alt)
    then have "to_be_bytes (from_be_bytes w :: u32) = w"
      using from_be_bytes_inject [of w "from_be_bytes w :: u32"] by simp
    moreover have "unat (from_be_bytes w :: u32) < 2 ^ 32"
      using unsigned_less [of "from_be_bytes w :: u32"] by simp
    ultimately show ?thesis
      using w bs 4 by (simp add: head_bytes_cases ucast_widen)
  next
    case 5
    then obtain w where w: "rest = w @ r" "length w = 8" "v = from_be_bytes w" "0xFFFFFFFF < unat v"
      using facts by (auto simp: Decoder_head_value_def Decoder_take_def and_then_Ok take_bytes_Ok
          uses_minimal_width_def word_less_nat_alt)
    then have "to_be_bytes v = w"
      using from_be_bytes_inject [of w v] by simp
    with w(1,4) bs 5 show ?thesis by (simp add: head_bytes_cases)
  qed
qed

lemma head_exact: "m < 8 \<Longrightarrow> Decoder_head m bs = Ok (v, r) \<longleftrightarrow> bs = head_bytes m v @ r"
  using head_complete head_sound by blast

section \<open>Fields\<close>

lemma array_length_exact: "Decoder_array_length bs = Ok (n, r) \<longleftrightarrow> bs = head_bytes 4 n @ r"
  by (simp add: Decoder_array_length_def head_exact)

lemma array_exact: "Decoder_array n bs = Ok r \<longleftrightarrow> bs = head_bytes 4 n @ r"
  by (auto simp: Decoder_array_def and_then_Ok array_length_exact split: if_splits)

lemma unsigned_exact: "Decoder_unsigned bs = Ok (v, r) \<longleftrightarrow> bs = head_bytes 0 v @ r"
  by (simp add: Decoder_unsigned_def head_exact)

definition bytes_field :: "bytes \<Rightarrow> bytes" where
  "bytes_field xs = head_bytes 2 (word_of_nat (length xs)) @ xs"

definition text_field :: "string \<Rightarrow> bytes" where
  "text_field s = head_bytes 3 (word_of_nat (length s)) @ as_bytes s"

lemma write_fields:
  "write_array encoded n = encoded @ head_bytes 4 n" "write_unsigned encoded v = encoded @ head_bytes 0 v"
  "write_bytes encoded xs = encoded @ bytes_field xs" "write_text encoded s = encoded @ text_field s"
  by (simp_all add: write_array_def write_unsigned_def write_bytes_def write_text_def write_head_append
      bytes_field_def text_field_def)

lemma length_word: "n = unat (v :: u64) \<longleftrightarrow> v = word_of_nat n \<and> n < 2 ^ 64"
  using unsigned_less [of v] by (auto simp: unat_of_nat)

lemma bytes_exact: "Decoder_bytes bs = Ok (xs, r) \<longleftrightarrow> length xs < 2 ^ 64 \<and> bs = bytes_field xs @ r"
  by (auto simp: Decoder_bytes_def and_then_Ok head_exact Decoder_take_def take_bytes_Ok bytes_field_def length_word)

lemma fixed_bytes_exact:
  "n < 2 ^ 64 \<Longrightarrow> Decoder_fixed_bytes n bs = Ok (xs, r) \<longleftrightarrow> length xs = n \<and> bs = bytes_field xs @ r"
  by (auto simp: Decoder_fixed_bytes_def and_then_Ok bytes_exact split: if_splits)

lemma from_utf8_Ok: "from_utf8 e xs = Ok s \<longleftrightarrow> wf_str s \<and> xs = as_bytes s"
  by (auto simp: from_utf8_def wf_str_def)

lemma text_exact:
  "Decoder_text bs = Ok (s, r) \<longleftrightarrow> wf_str s \<and> length s < 2 ^ 64 \<and> bs = text_field s @ r"
  by (auto simp: Decoder_text_def and_then_Ok head_exact Decoder_take_def take_bytes_Ok text_field_def length_word from_utf8_Ok)

lemmas field_exact = array_length_exact array_exact unsigned_exact bytes_exact text_exact

lemma field_forward:
  "Decoder_array_length (head_bytes 4 n @ r) = Ok (n, r)" "Decoder_array n (head_bytes 4 n @ r) = Ok r"
  "Decoder_unsigned (head_bytes 0 v @ r) = Ok (v, r)"
  "length xs < 2 ^ 64 \<Longrightarrow> Decoder_bytes (bytes_field xs @ r) = Ok (xs, r)"
  "wf_str s \<Longrightarrow> length s < 2 ^ 64 \<Longrightarrow> Decoder_text (text_field s @ r) = Ok (s, r)"
  by (simp_all add: field_exact)

section \<open>Operations\<close>

text \<open>
  A host may be spelled in several ways (letter case, a final dot); everything else in an operation
  has one encoding. \<open>spelled h op\<close> is the encoding of \<open>op\<close> with its host spelled \<open>h\<close>.
\<close>

fun spelled :: "string \<Rightarrow> BrokerOperation \<Rightarrow> bytes" where
  "spelled h (PublicFetch q) = encode_operation (PublicFetch (q\<lparr>hr_host := CanonicalHost h\<rparr>))"
| "spelled h (GitHub q) = encode_operation (GitHub q)"

fun spells :: "string \<Rightarrow> BrokerOperation \<Rightarrow> bool" where
  "spells h (PublicFetch q) \<longleftrightarrow> CanonicalHost_new h = Ok (hr_host q)"
| "spells h (GitHub q) \<longleftrightarrow> True"

fun wf_operation :: "BrokerOperation \<Rightarrow> bool" where
  "wf_operation (PublicFetch q) \<longleftrightarrow> wf_host (hr_host q) \<and> wf_url_path (hr_path q)"
| "wf_operation (GitHub q) \<longleftrightarrow>
     wf_str (installation_str (gr_installation q)) \<and> wf_str (repo_str (gr_repository q)) \<and>
     wf_branch (gr_base q) \<and> wf_str (BranchName_display (gr_base q)) \<and>
     wf_branch (gr_head q) \<and> wf_str (BranchName_display (gr_head q))"

definition method_code :: "HttpFetchMethod \<Rightarrow> u64" where
  "method_code m = (case m of Get \<Rightarrow> GET_METHOD | Head \<Rightarrow> HEAD_METHOD)"

definition operation_code :: "GitHubOperation \<Rightarrow> u64" where
  "operation_code p = (case p of PublishBranch \<Rightarrow> PUBLISH_BRANCH_OPERATION | CreatePullRequest \<Rightarrow> CREATE_PULL_REQUEST_OPERATION)"

lemma method_code_exact:
  "(if c = GET_METHOD then Ok Get else if c = HEAD_METHOD then Ok Head else Err e) = Ok m \<longleftrightarrow> c = method_code m"
  by (cases m) (auto simp: method_code_def GET_METHOD_def HEAD_METHOD_def)

lemma operation_code_exact:
  "(if c = PUBLISH_BRANCH_OPERATION then Ok PublishBranch else if c = CREATE_PULL_REQUEST_OPERATION then Ok CreatePullRequest
    else Err e) = Ok p \<longleftrightarrow> c = operation_code p"
  by (cases p) (auto simp: operation_code_def PUBLISH_BRANCH_OPERATION_def CREATE_PULL_REQUEST_OPERATION_def)

lemma code_forward:
  "(if method_code m = GET_METHOD then Ok Get else if method_code m = HEAD_METHOD then Ok Head else Err e) = Ok m"
  "(if operation_code p = PUBLISH_BRANCH_OPERATION then Ok PublishBranch
    else if operation_code p = CREATE_PULL_REQUEST_OPERATION then Ok CreatePullRequest else Err e) = Ok p"
  by (simp_all only: method_code_exact operation_code_exact)

lemma encode_public_fetch:
  "encode_operation (PublicFetch q) = head_bytes 4 PUBLIC_FETCH_ITEMS @ head_bytes 0 PUBLIC_FETCH_OPERATION @
     head_bytes 0 (method_code (hr_method q)) @ text_field (host_str (hr_host q)) @
     text_field (CanonicalUrlPath_display (hr_path q)) @ head_bytes 0 (hr_max_response_bytes q)"
  by (simp add: write_fields Let_def method_code_def)

lemma encode_github:
  "encode_operation (GitHub q) = head_bytes 4 GITHUB_ITEMS @ head_bytes 0 GITHUB_OPERATION @
     text_field (installation_str (gr_installation q)) @ text_field (repo_str (gr_repository q)) @
     head_bytes 0 (operation_code (gr_operation q)) @ text_field (BranchName_display (gr_base q)) @
     text_field (BranchName_display (gr_head q))"
  by (simp add: write_fields Let_def operation_code_def)

declare encode_operation.simps [simp del]

lemma host_spelling:
  assumes "CanonicalHost_new h = Ok host"
  shows "wf_str h" "length h < 2 ^ 64" "wf_host host"
proof -
  note ok = assms [unfolded CanonicalHost_new_Ok]
  show "wf_str h" "wf_host host" using ok by (simp_all add: is_ascii_wf_str)
  have "length h \<le> Suc (length (strip_final_dot h))" by (simp add: strip_final_dot_def)
  also have "length (strip_final_dot h) = length (host_str host)"
    using ok by (metis length_to_ascii_lowercase)
  finally have "length h \<le> Suc (length (host_str host))" .
  also have "length (host_str host) \<le> 253" using ok unfolding wf_host_def by blast
  finally show "length h < 2 ^ 64" by simp
qed

lemma url_path_text:
  assumes "wf_url_path p"
  shows "wf_str (CanonicalUrlPath_display p)" "length (CanonicalUrlPath_display p) < 2 ^ 64"
proof -
  show "length (CanonicalUrlPath_display p) < 2 ^ 64"
    using assms by (simp add: wf_url_path_def MAX_CANONICAL_URL_PATH_BYTES_def)
  show "wf_str (CanonicalUrlPath_display p)"
    using assms by (intro is_ascii_wf_str)
      (auto simp: wf_url_path_def CanonicalUrlPath_display_def is_ascii_def list_all_iff url_segment_ok_def
        dest: url_char_facts(1))
qed

lemma public_fetch_exact:
  "decode_public_fetch n bs = Ok (op, r) \<longleftrightarrow>
   (\<exists>q h. op = PublicFetch q \<and> n = PUBLIC_FETCH_ITEMS \<and> CanonicalHost_new h = Ok (hr_host q) \<and> wf_url_path (hr_path q) \<and>
     bs = head_bytes 0 (method_code (hr_method q)) @ text_field h @ text_field (CanonicalUrlPath_display (hr_path q)) @
       head_bytes 0 (hr_max_response_bytes q) @ r)" (is "?decodes \<longleftrightarrow> ?shape")
proof
  assume ?decodes
  then show ?shape
    by (auto simp: decode_public_fetch_def and_then_Ok field_exact method_code_exact CanonicalUrlPath_new_Ok
        split: if_splits)
next
  assume ?shape
  then obtain q h where "op = PublicFetch q" "n = PUBLIC_FETCH_ITEMS" "CanonicalHost_new h = Ok (hr_host q)"
      "wf_url_path (hr_path q)"
      "bs = head_bytes 0 (method_code (hr_method q)) @ text_field h @ text_field (CanonicalUrlPath_display (hr_path q)) @
         head_bytes 0 (hr_max_response_bytes q) @ r"
    by blast
  then show ?decodes
    using host_spelling [of h "hr_host q"] url_path_text [of "hr_path q"]
    by (simp add: decode_public_fetch_def field_forward code_forward url_new_complete)
qed

lemma github_exact:
  "decode_github n bs = Ok (op, r) \<longleftrightarrow>
   (\<exists>q. op = GitHub q \<and> n = GITHUB_ITEMS \<and> wf_operation op \<and>
     length (installation_str (gr_installation q)) < 2 ^ 64 \<and> length (repo_str (gr_repository q)) < 2 ^ 64 \<and>
     length (BranchName_display (gr_base q)) < 2 ^ 64 \<and> length (BranchName_display (gr_head q)) < 2 ^ 64 \<and>
     bs = text_field (installation_str (gr_installation q)) @ text_field (repo_str (gr_repository q)) @
       head_bytes 0 (operation_code (gr_operation q)) @ text_field (BranchName_display (gr_base q)) @
       text_field (BranchName_display (gr_head q)) @ r)" (is "?decodes \<longleftrightarrow> ?shape")
proof
  assume ?decodes
  then show ?shape
    by (auto simp: decode_github_def and_then_Ok field_exact operation_code_exact BranchName_new_Ok split: if_splits)
next
  assume ?shape
  then obtain q where "op = GitHub q" "n = GITHUB_ITEMS" "wf_operation op"
      "length (installation_str (gr_installation q)) < 2 ^ 64" "length (repo_str (gr_repository q)) < 2 ^ 64"
      "length (BranchName_display (gr_base q)) < 2 ^ 64" "length (BranchName_display (gr_head q)) < 2 ^ 64"
      "bs = text_field (installation_str (gr_installation q)) @ text_field (repo_str (gr_repository q)) @
       head_bytes 0 (operation_code (gr_operation q)) @ text_field (BranchName_display (gr_base q)) @
       text_field (BranchName_display (gr_head q)) @ r"
    by blast
  then show ?decodes
    by (simp add: decode_github_def field_forward code_forward BranchName_new_complete)
qed

text \<open>
  Decoding an operation succeeds exactly on its spelled encodings. The lengths need no condition
  below the control-frame limit.
\<close>

lemma decode_operation_exact:
  assumes "length bs \<le> MAX_CONTROL_FRAME_BYTES"
  shows "decode_operation bs = Ok op \<longleftrightarrow> wf_operation op \<and> (\<exists>h. spells h op \<and> bs = spelled h op)"
proof
  assume "decode_operation bs = Ok op"
  then show "wf_operation op \<and> (\<exists>h. spells h op \<and> bs = spelled h op)"
    by (auto simp: decode_operation_def Decoder_finish_payload_def and_then_Ok field_exact public_fetch_exact
        github_exact encode_public_fetch encode_github GITHUB_OPERATION_def PUBLIC_FETCH_OPERATION_def
        dest: host_spelling(3) split: if_splits)
next
  assume "wf_operation op \<and> (\<exists>h. spells h op \<and> bs = spelled h op)"
  then obtain h where wf: "wf_operation op" and h: "spells h op" "bs = spelled h op" by blast
  show "decode_operation bs = Ok op"
  proof (cases op)
    case (PublicFetch q)
    let ?body = "head_bytes 0 (method_code (hr_method q)) @ text_field h @ text_field (CanonicalUrlPath_display (hr_path q)) @
         head_bytes 0 (hr_max_response_bytes q)"
    have "decode_public_fetch PUBLIC_FETCH_ITEMS (?body @ []) = Ok (op, [])"
      using wf h PublicFetch unfolding public_fetch_exact by auto
    then show ?thesis
      using h PublicFetch
      by (simp add: decode_operation_def encode_public_fetch field_forward Decoder_finish_payload_def)
  next
    case (GitHub q)
    let ?body = "text_field (installation_str (gr_installation q)) @ text_field (repo_str (gr_repository q)) @
       head_bytes 0 (operation_code (gr_operation q)) @ text_field (BranchName_display (gr_base q)) @
       text_field (BranchName_display (gr_head q))"
    have "length s < 2 ^ 64" if "length s \<le> length bs" for s :: string
      using that assms by (simp add: MAX_CONTROL_FRAME_BYTES_def)
    moreover have "length (installation_str (gr_installation q)) \<le> length bs" "length (repo_str (gr_repository q)) \<le> length bs"
        "length (BranchName_display (gr_base q)) \<le> length bs" "length (BranchName_display (gr_head q)) \<le> length bs"
      using h GitHub by (simp_all add: encode_github text_field_def)
    ultimately have "decode_github GITHUB_ITEMS (?body @ []) = Ok (op, [])"
      using wf GitHub unfolding github_exact by auto
    then show ?thesis
      using h GitHub
      by (simp add: decode_operation_def encode_github field_forward Decoder_finish_payload_def
          GITHUB_OPERATION_def PUBLIC_FETCH_OPERATION_def)
  qed
qed

section \<open>Requests\<close>

text \<open>
  The requests the codec handles: identities of the fixed widths, an envelope that binds the
  retained payload, and a payload that spells the operation.
\<close>

definition wf_broker_request :: "(bytes \<Rightarrow> bytes) \<Rightarrow> CanonicalBrokerRequest \<Rightarrow> bool" where
  "wf_broker_request sha256 r \<longleftrightarrow>
     length (session_bytes (be_session (br_envelope r))) = SESSION_ID_BYTES \<and>
     length (request_bytes (be_request (br_envelope r))) = REQUEST_ID_BYTES \<and>
     binds_canonical_payload sha256 (br_envelope r) (br_canonical_payload r) \<and>
     length (hash_bytes (be_payload_hash (br_envelope r))) = PAYLOAD_HASH_BYTES \<and>
     wf_operation (br_operation r) \<and>
     (\<exists>h. spells h (br_operation r) \<and> br_canonical_payload r = spelled h (br_operation r))"

definition request_wire :: "CanonicalBrokerRequest \<Rightarrow> bytes" where
  "request_wire r = head_bytes 4 OUTER_REQUEST_ITEMS @ head_bytes 0 BROKER_CBOR_PROTOCOL_VERSION @
     bytes_field (session_bytes (be_session (br_envelope r))) @ head_bytes 0 (be_sequence (br_envelope r)) @
     bytes_field (request_bytes (be_request (br_envelope r))) @
     bytes_field (hash_bytes (be_payload_hash (br_envelope r))) @ bytes_field (br_canonical_payload r)"

lemma encode_request_Ok:
  "CanonicalBrokerRequest_encode r = Ok bs \<longleftrightarrow> bs = request_wire r \<and> length bs \<le> MAX_CONTROL_FRAME_BYTES"
  by (auto simp: CanonicalBrokerRequest_encode_def write_fields request_wire_def Let_def)

lemma payload_le_wire: "length (br_canonical_payload r) \<le> length (request_wire r)"
  by (simp add: request_wire_def bytes_field_def)

lemma decode_request_exact:
  "CanonicalBrokerRequest_decode sha256 bs = Ok r \<longleftrightarrow>
   CanonicalBrokerRequest_encode r = Ok bs \<and> wf_broker_request sha256 r"
proof
  assume dec: "CanonicalBrokerRequest_decode sha256 bs = Ok r"
  note widths = SESSION_ID_BYTES_def REQUEST_ID_BYTES_def PAYLOAD_HASH_BYTES_def
  have shape: "bs = request_wire r" "length bs \<le> MAX_CONTROL_FRAME_BYTES"
      "length (session_bytes (be_session (br_envelope r))) = 16" "length (request_bytes (be_request (br_envelope r))) = 16"
      "length (hash_bytes (be_payload_hash (br_envelope r))) = 32"
      "binds_canonical_payload sha256 (br_envelope r) (br_canonical_payload r)"
      "decode_operation (br_canonical_payload r) = Ok (br_operation r)"
    using dec
    by (auto simp: CanonicalBrokerRequest_decode_def Decoder_finish_def and_then_Ok field_exact fixed_bytes_exact
        widths request_wire_def from_canonical_payload_def of_canonical_payload_def binds_canonical_payload_def
        split: if_splits)
  then have "length (br_canonical_payload r) \<le> MAX_CONTROL_FRAME_BYTES"
    using payload_le_wire [of r] by simp
  with shape show "CanonicalBrokerRequest_encode r = Ok bs \<and> wf_broker_request sha256 r"
    by (simp add: encode_request_Ok wf_broker_request_def widths decode_operation_exact)
next
  assume enc: "CanonicalBrokerRequest_encode r = Ok bs \<and> wf_broker_request sha256 r"
  then have bs: "bs = request_wire r" "length bs \<le> MAX_CONTROL_FRAME_BYTES"
    by (auto simp: encode_request_Ok)
  then have le: "length (br_canonical_payload r) \<le> MAX_CONTROL_FRAME_BYTES"
    using payload_le_wire [of r] by simp
  then have op: "decode_operation (br_canonical_payload r) = Ok (br_operation r)"
    using enc by (simp add: decode_operation_exact wf_broker_request_def)
  have payload: "Decoder_bytes (bytes_field (br_canonical_payload r)) = Ok (br_canonical_payload r, [])"
    using le by (simp add: bytes_exact MAX_CONTROL_FRAME_BYTES_def)
  have fixed: "Decoder_fixed_bytes SESSION_ID_BYTES (bytes_field (session_bytes (be_session (br_envelope r))) @ x) =
        Ok (session_bytes (be_session (br_envelope r)), x)"
      "Decoder_fixed_bytes REQUEST_ID_BYTES (bytes_field (request_bytes (be_request (br_envelope r))) @ x) =
        Ok (request_bytes (be_request (br_envelope r)), x)"
      "Decoder_fixed_bytes PAYLOAD_HASH_BYTES (bytes_field (hash_bytes (be_payload_hash (br_envelope r))) @ x) =
        Ok (hash_bytes (be_payload_hash (br_envelope r)), x)" for x
    using enc by (simp_all add: wf_broker_request_def fixed_bytes_exact SESSION_ID_BYTES_def REQUEST_ID_BYTES_def
        PAYLOAD_HASH_BYTES_def)
  have hash: "be_payload_hash (br_envelope r) = of_canonical_payload sha256 (br_canonical_payload r)"
    using enc by (simp add: wf_broker_request_def binds_canonical_payload_def)
  then have envelope: "from_canonical_payload sha256 (be_session (br_envelope r)) (be_sequence (br_envelope r))
      (be_request (br_envelope r)) (br_canonical_payload r) = br_envelope r"
    by (simp add: from_canonical_payload_def)
  show "CanonicalBrokerRequest_decode sha256 bs = Ok r"
    using bs(2) unfolding CanonicalBrokerRequest_decode_def
    by (simp add: bs(1) request_wire_def field_forward fixed payload Decoder_finish_def op hash [symmetric] envelope)
qed

end
