(* ===== verification/Ip_Policy.thy ===== *)
theory Ip_Policy
  imports Ip_Address
begin

text \<open>
  The destination policy of public egress (\<open>egress-broker/src/ip_policy.rs\<close>): CIDR ranges, the
  built-in denied ranges, and the all-or-nothing validation of a DNS answer.
\<close>

section \<open>Ranges\<close>

text \<open>\<open>u32::checked_shl\<close> and \<open>u128::checked_shl\<close>.\<close>

definition checked_shl :: "'w::len word \<Rightarrow> nat \<Rightarrow> 'w word option" where
  "checked_shl v n = (if n < LENGTH('w) then Some (push_bit n v) else None)"

definition mask_v4 :: "u32 \<Rightarrow> u8 \<Rightarrow> u32" where
  "mask_v4 v prefix_length =
     (if prefix_length = 0 then 0
      else v AND (case checked_shl (- 1) (unat (32 - prefix_length)) of None \<Rightarrow> 0 | Some m \<Rightarrow> m))"

definition mask_v6 :: "u128 \<Rightarrow> u8 \<Rightarrow> u128" where
  "mask_v6 v prefix_length =
     (if prefix_length = 0 then 0
      else v AND (case checked_shl (- 1) (unat (128 - prefix_length)) of None \<Rightarrow> 0 | Some m \<Rightarrow> m))"

fun mask_address :: "IpAddr \<Rightarrow> u8 \<Rightarrow> IpAddr" where
  "mask_address (V4 v) p = V4 (mask_v4 v p)"
| "mask_address (V6 v) p = V6 (mask_v6 v p)"

record IpRange =
  ir_network :: IpAddr
  ir_prefix_length :: u8

datatype IpRangeError = PrefixTooLarge (too_large: u8) (prefix_max: u8)

fun IpRangeError_display :: "IpRangeError \<Rightarrow> string" where
  "IpRangeError_display (PrefixTooLarge p m) =
     ''IP range prefix length '' @ show_nat (unat p) @ '' exceeds the address family limit '' @ show_nat (unat m)"

definition IpRange_new :: "IpAddr \<Rightarrow> u8 \<Rightarrow> (IpRangeError, IpRange) result" where
  "IpRange_new network prefix_length =
     (let max = (case network of V4 _ \<Rightarrow> 32 | V6 _ \<Rightarrow> 128) in
      if prefix_length > max then Err (PrefixTooLarge prefix_length max)
      else Ok \<lparr>ir_network = mask_address network prefix_length, ir_prefix_length = prefix_length\<rparr>)"

definition IpRange_contains :: "IpRange \<Rightarrow> IpAddr \<Rightarrow> bool" where
  "IpRange_contains r address \<longleftrightarrow> (case (ir_network r, address) of
     (V4 network, V4 a) \<Rightarrow> mask_v4 a (ir_prefix_length r) = network
   | (V6 network, V6 a) \<Rightarrow> mask_v6 a (ir_prefix_length r) = network
   | _ \<Rightarrow> False)"

section \<open>The policy\<close>

text \<open>\<open>Ipv4Addr::new\<close>, \<open>Ipv6Addr::new\<close> and \<open>Ipv6Addr::to_ipv4().is_some()\<close>.\<close>

definition ipv4 :: "nat \<Rightarrow> nat \<Rightarrow> nat \<Rightarrow> nat \<Rightarrow> IpAddr" where
  "ipv4 a b c d = V4 (word_of_nat (((a * 256 + b) * 256 + c) * 256 + d))"

definition ipv6 :: "nat list \<Rightarrow> IpAddr" where
  "ipv6 segments = V6 (word_of_nat (foldl (\<lambda>acc s. acc * 65536 + s) 0 segments))"

definition embeds_ipv4 :: "u128 \<Rightarrow> bool" where
  "embeds_ipv4 v \<longleftrightarrow> drop_bit 32 v = 0 \<or> drop_bit 32 v = 0xFFFF"

definition built_in_blocks :: "(IpAddr \<times> u8) list" where
  "built_in_blocks =
     [(ipv4 0 0 0 0, 8), (ipv4 10 0 0 0, 8), (ipv4 100 64 0 0, 10), (ipv4 127 0 0 0, 8),
      (ipv4 169 254 0 0, 16), (ipv4 172 16 0 0, 12), (ipv4 192 0 0 0, 24), (ipv4 192 0 2 0, 24),
      (ipv4 192 31 196 0, 24), (ipv4 192 52 193 0, 24), (ipv4 192 88 99 0, 24), (ipv4 192 168 0 0, 16),
      (ipv4 192 175 48 0, 24), (ipv4 198 18 0 0, 15), (ipv4 198 51 100 0, 24), (ipv4 203 0 113 0, 24),
      (ipv4 224 0 0 0, 4), (ipv4 240 0 0 0, 4),
      (ipv6 [0, 0, 0, 0, 0, 0, 0, 0], 96), (ipv6 [0, 0, 0, 0, 0, 0, 0, 0], 128),
      (ipv6 [0, 0, 0, 0, 0, 0, 0, 1], 128), (ipv6 [0x0064, 0xff9b, 0, 0, 0, 0, 0, 0], 96),
      (ipv6 [0x0064, 0xff9b, 0, 1, 0, 0, 0, 0], 48), (ipv6 [0x0100, 0, 0, 0, 0, 0, 0, 0], 64),
      (ipv6 [0x0100, 0, 0, 1, 0, 0, 0, 0], 64), (ipv6 [0x2001, 0, 0, 0, 0, 0, 0, 0], 23),
      (ipv6 [0xfc00, 0, 0, 0, 0, 0, 0, 0], 7), (ipv6 [0x2002, 0, 0, 0, 0, 0, 0, 0], 16),
      (ipv6 [0x2620, 0x004f, 0x8000, 0, 0, 0, 0, 0], 48), (ipv6 [0x3fff, 0, 0, 0, 0, 0, 0, 0], 20),
      (ipv6 [0x5f00, 0, 0, 0, 0, 0, 0, 0], 16), (ipv6 [0xfe80, 0, 0, 0, 0, 0, 0, 0], 10),
      (ipv6 [0xff00, 0, 0, 0, 0, 0, 0, 0], 8), (ipv6 [0x2001, 0xdb8, 0, 0, 0, 0, 0, 0], 32)]"

definition built_in_denied_ranges :: "(IpRangeError, IpRange list) result" where
  "built_in_denied_ranges = collect_indexed (\<lambda>_ (network, p). IpRange_new network p) 0 built_in_blocks"

record IpPolicy =
  ip_host_denied_ranges :: "IpRange list"

definition strict :: "IpRange list \<Rightarrow> (IpRangeError, IpPolicy) result" where
  "strict additional_ranges = and_then built_in_denied_ranges (\<lambda>host_denied_ranges.
     Ok \<lparr>ip_host_denied_ranges = host_denied_ranges @ additional_ranges\<rparr>)"

definition is_host_denied :: "IpPolicy \<Rightarrow> IpAddr \<Rightarrow> bool" where
  "is_host_denied policy address \<longleftrightarrow> list_ex (\<lambda>r. IpRange_contains r address) (ip_host_denied_ranges policy)"

definition is_denied :: "IpPolicy \<Rightarrow> IpAddr \<Rightarrow> bool" where
  "is_denied policy address \<longleftrightarrow> (case address of
     V4 a \<Rightarrow> is_host_denied policy (V4 a)
   | V6 a \<Rightarrow> embeds_ipv4 a \<or> is_host_denied policy (V6 a))"

datatype IpPolicyError = EmptyAnswer | DeniedAnswer

fun IpPolicyError_display :: "IpPolicyError \<Rightarrow> string" where
  "IpPolicyError_display EmptyAnswer = ''DNS returned no address for the requested host''"
| "IpPolicyError_display DeniedAnswer = ''DNS answer contains a private, special-purpose, or host-denied address''"

definition validate_dns_answer :: "IpPolicy \<Rightarrow> IpAddr list \<Rightarrow> (IpPolicyError, IpAddr) result" where
  "validate_dns_answer policy addresses = (case addresses of
     [] \<Rightarrow> Err EmptyAnswer
   | first # _ \<Rightarrow> if list_ex (is_denied policy) addresses then Err DeniedAnswer else Ok first)"

section \<open>Ranges are sets of addresses with common leading bits\<close>

text \<open>Two addresses of one family agree in their first \<open>p\<close> bits.\<close>

fun same_block :: "u8 \<Rightarrow> IpAddr \<Rightarrow> IpAddr \<Rightarrow> bool" where
  "same_block p (V4 a) (V4 b) \<longleftrightarrow> drop_bit (32 - unat p) a = drop_bit (32 - unat p) b"
| "same_block p (V6 a) (V6 b) \<longleftrightarrow> drop_bit (128 - unat p) a = drop_bit (128 - unat p) b"
| "same_block p _ _ \<longleftrightarrow> False"

lemma and_high_mask: "v AND NOT (mask n) = push_bit n (drop_bit n v)" for v :: "'w::len word"
  by (rule bit_word_eqI) (auto simp: bit_and_iff bit_push_bit_iff bit_drop_bit_eq bit_not_iff bit_mask_iff)

lemma push_drop_inject:
  "push_bit n (drop_bit n v) = push_bit n (drop_bit n w) \<longleftrightarrow> drop_bit n v = drop_bit n w" for v w :: "'w::len word"
proof
  assume "push_bit n (drop_bit n v) = push_bit n (drop_bit n w)"
  then have "bit (push_bit n (drop_bit n v)) (n + k) = bit (push_bit n (drop_bit n w)) (n + k)" for k by simp
  then show "drop_bit n v = drop_bit n w"
    by (intro bit_word_eqI) (auto simp: bit_push_bit_iff bit_drop_bit_eq dest: bit_imp_le_length)
qed simp

lemma mask_v4_drop:
  assumes "unat p \<le> 32"
  shows "mask_v4 v p = push_bit (32 - unat p) (drop_bit (32 - unat p) v)"
proof (cases "p = 0")
  case True
  then show ?thesis by (simp add: mask_v4_def)
next
  case False
  have "p \<le> 32" using assms by (simp add: word_le_nat_alt)
  then have "unat (32 - p) = 32 - unat p" by (simp add: unat_sub)
  moreover have "0 < unat p" using False by (simp add: unat_gt_0)
  ultimately show ?thesis using False by (simp add: mask_v4_def checked_shl_def and_high_mask)
qed

lemma mask_v6_drop:
  assumes "unat p \<le> 128"
  shows "mask_v6 v p = push_bit (128 - unat p) (drop_bit (128 - unat p) v)"
proof (cases "p = 0")
  case True
  then show ?thesis by (simp add: mask_v6_def)
next
  case False
  have "p \<le> 128" using assms by (simp add: word_le_nat_alt)
  then have "unat (128 - p) = 128 - unat p" by (simp add: unat_sub)
  moreover have "0 < unat p" using False by (simp add: unat_gt_0)
  ultimately show ?thesis using False by (simp add: mask_v6_def checked_shl_def and_high_mask)
qed

lemma IpRange_contains_new:
  "IpRange_new network p = Ok r \<Longrightarrow> IpRange_contains r a \<longleftrightarrow> same_block p a network"
  by (cases network; cases a)
    (auto simp: IpRange_new_def IpRange_contains_def mask_v4_drop mask_v6_drop push_drop_inject word_less_nat_alt
      Let_def split: if_splits)

text \<open>The built-in blocks are all valid, so the policy always exists.\<close>

lemma collect_ranges:
  assumes "list_all (\<lambda>(n, p). unat p \<le> (case n of V4 _ \<Rightarrow> 32 | V6 _ \<Rightarrow> 128)) blocks"
  shows "\<exists>rs. collect_indexed (\<lambda>_ (n, p). IpRange_new n p) i blocks = Ok rs \<and>
    (\<forall>a. list_ex (\<lambda>r. IpRange_contains r a) rs \<longleftrightarrow> list_ex (\<lambda>(n, p). same_block p a n) blocks)"
  using assms
proof (induction blocks arbitrary: i)
  case (Cons b blocks)
  obtain n p where b: "b = (n, p)" by (cases b)
  have "\<not> p > (case n of V4 _ \<Rightarrow> 32 | V6 _ \<Rightarrow> 128)"
    using Cons.prems b by (cases n) (simp_all add: word_less_nat_alt)
  then obtain r where r: "IpRange_new n p = Ok r" by (simp add: IpRange_new_def Let_def)
  obtain rs where rs: "collect_indexed (\<lambda>_ (n, p). IpRange_new n p) (Suc i) blocks = Ok rs"
      "\<forall>a. list_ex (\<lambda>r. IpRange_contains r a) rs \<longleftrightarrow> list_ex (\<lambda>(n, p). same_block p a n) blocks"
    using Cons.IH [of "Suc i"] Cons.prems by auto
  show ?case
    by (intro exI [of _ "r # rs"]) (simp add: b r rs IpRange_contains_new [OF r])
qed simp

lemma strict_policy:
  "\<exists>policy. strict extra = Ok policy \<and>
     (\<forall>a. is_host_denied policy a \<longleftrightarrow>
       list_ex (\<lambda>(n, p). same_block p a n) built_in_blocks \<or> list_ex (\<lambda>r. IpRange_contains r a) extra)"
proof -
  have "list_all (\<lambda>(n, p). unat p \<le> (case n of V4 _ \<Rightarrow> 32 | V6 _ \<Rightarrow> 128)) built_in_blocks"
    by (simp add: built_in_blocks_def ipv4_def ipv6_def)
  from collect_ranges [OF this, of 0] show ?thesis
    by (auto simp: strict_def built_in_denied_ranges_def is_host_denied_def)
qed

section \<open>Private addresses are denied\<close>

text \<open>
  The address ranges a guest must never reach, by the value of their leading bits: this network,
  private, loopback, link-local (with the metadata service), carrier-grade NAT, multicast and
  reserved IPv4; unspecified, loopback, embedded IPv4, unique local, link-local and multicast IPv6.
\<close>

fun private_address :: "IpAddr \<Rightarrow> bool" where
  "private_address (V4 a) \<longleftrightarrow>
     unat a div 2 ^ 24 \<in> {0, 10, 127} \<or> unat a div 2 ^ 20 = 172 * 16 + 1 \<or>
     unat a div 2 ^ 16 \<in> {192 * 256 + 168, 169 * 256 + 254} \<or> unat a div 2 ^ 22 = 100 * 4 + 1 \<or>
     unat a div 2 ^ 28 \<in> {14, 15}"
| "private_address (V6 a) \<longleftrightarrow>
     unat a div 2 ^ 32 \<in> {0, 0xFFFF} \<or> unat a div 2 ^ 121 = 0xFC div 2 \<or>
     unat a div 2 ^ 118 = 0xFE80 div 64 \<or> unat a div 2 ^ 120 = 0xFF"

lemma drop_bit_unat: "drop_bit n v = w \<longleftrightarrow> unat v div 2 ^ n = unat w" for v w :: "'w::len word"
  using unsigned_less [of v] by (simp add: word_unat_eq_iff unsigned_drop_bit_eq take_bit_nat_eq_self flip: drop_bit_eq_div)

lemma private_blocks:
  "private_address a \<Longrightarrow> (case a of V6 v \<Rightarrow> embeds_ipv4 v | _ \<Rightarrow> False) \<or> list_ex (\<lambda>(n, p). same_block p a n) built_in_blocks"
  by (cases a) (auto simp: built_in_blocks_def ipv4_def ipv6_def embeds_ipv4_def drop_bit_unat)

end
