(* ===== verification/Egress_Theorems.thy ===== *)
theory Egress_Theorems
  imports Session_Budget Cbor_Codec Control_Frame Ip_Policy
begin

text \<open>
  The properties of the egress protocol and of the destination policy.
\<close>

section \<open>The wire\<close>

text \<open>
  C28. Control frames are exact: a frame can be built from a payload exactly when the payload is
  within the limit, its encoding is the payload behind its length, and decoding accepts a byte
  string exactly when it is the encoding of one frame, whose payload and length it returns.
\<close>

theorem control_frame_exact:
  "((\<exists>f. ControlFrame_new payload = Ok f) \<longleftrightarrow> length payload \<le> MAX_CONTROL_FRAME_BYTES) \<and>
   (decode_complete bs = Ok f \<longleftrightarrow>
      ControlFrame_new (cf_payload f) = Ok f \<and> bs = ControlFrame_encode f) \<and>
   length (ControlFrame_encode f) = 4 + length (cf_payload f)"
proof (intro conjI)
  show "(\<exists>f. ControlFrame_new payload = Ok f) \<longleftrightarrow> length payload \<le> MAX_CONTROL_FRAME_BYTES"
    using ControlFrame_new_total by (auto simp: ControlFrame_new_Ok wf_frame_def)
  show "decode_complete bs = Ok f \<longleftrightarrow> ControlFrame_new (cf_payload f) = Ok f \<and> bs = ControlFrame_encode f"
    by (simp add: decode_complete_Ok ControlFrame_new_Ok)
  show "length (ControlFrame_encode f) = 4 + length (cf_payload f)"
    by (simp add: length_ControlFrame_encode encoded_len_def CONTROL_FRAME_LENGTH_PREFIX_BYTES_def)
qed

text \<open>
  C29. The broker's request codec is exact in both directions: a byte string decodes to a request
  exactly when it is that request's own encoding, and the request is well formed - identities of the
  fixed widths, an envelope whose digest is that of the retained payload, valid authority values,
  and a payload that spells the operation. The only freedom left in the payload is the spelling of
  the host (letter case and a final dot).
\<close>

theorem broker_request_exact:
  "CanonicalBrokerRequest_decode sha256 bs = Ok r \<longleftrightarrow>
   CanonicalBrokerRequest_encode r = Ok bs \<and>
   length (session_bytes (be_session (br_envelope r))) = 16 \<and>
   length (request_bytes (be_request (br_envelope r))) = 16 \<and>
   length (hash_bytes (be_payload_hash (br_envelope r))) = 32 \<and>
   be_payload_hash (br_envelope r) = of_canonical_payload sha256 (br_canonical_payload r) \<and>
   wf_operation (br_operation r) \<and>
   (\<exists>host. spells host (br_operation r) \<and> br_canonical_payload r = spelled host (br_operation r))"
  unfolding decode_request_exact
  by (auto simp: wf_broker_request_def binds_canonical_payload_def SESSION_ID_BYTES_def REQUEST_ID_BYTES_def
      PAYLOAD_HASH_BYTES_def)

section \<open>Sessions\<close>

text \<open>
  C30. The replay guard answers every sequence of envelopes as the ledger of accepted envelopes
  does: a new request is accepted once, under the next number, up to the capacity; an exact retry is
  a duplicate; everything else is refused without a change. In every reachable ledger the accepted
  requests are pairwise different and numbered 0, 1, 2, and so on.
\<close>

theorem replay_guard_refines_ledger:
  "trace (guard_step sha256) xs (SessionReplayGuard_new session capacity) =
     trace (ledger_step sha256 session capacity) xs [] \<and>
   (let es = run (ledger_step sha256 session capacity) xs [] in
     run (guard_step sha256) xs (SessionReplayGuard_new session capacity) = guard_of session capacity es \<and>
     distinct (map be_request es) \<and> map (unat \<circ> be_sequence) es = [0..<length es] \<and> length es \<le> capacity)"
  using guard.same_answers [OF wf_ledger_Nil] guard.represented [OF wf_ledger_Nil]
    ledger.run_good [OF wf_ledger_Nil, of session capacity sha256 xs]
  by (simp add: Let_def wf_ledger_def)

text \<open>
  C31. Session budgets hold for every sequence of calls: the started requests are those granted and
  at most the limit, the committed bytes are exactly those reported by accepted completions,
  committed and reserved bytes together stay within the limit without wrapping, the number of active
  requests stays within the concurrency limit, and the internal accounting error never occurs.
\<close>

theorem budget_sound:
  "let b = run budget_step xs (SessionBudget_new limits) in
   unat (sb_started_requests b) = granted_total granted_start xs (SessionBudget_new limits) \<and>
   unat (sb_started_requests b) \<le> unat (bl_requests limits) \<and>
   unat (sb_committed_response_bytes b) = granted_total granted_bytes xs (SessionBudget_new limits) \<and>
   unat (sb_reserved_response_bytes b) = reserved_bytes (sb_active b) \<and>
   unat (sb_committed_response_bytes b) + unat (sb_reserved_response_bytes b) \<le> unat (bl_response_bytes limits) \<and>
   fm_len (sb_active b) \<le> bl_concurrent limits \<and>
   Err AccountingInvariantBroken \<notin> set (trace budget_step xs (SessionBudget_new limits))"
proof -
  have "budget_inv (run budget_step xs (SessionBudget_new limits))"
    by (rule budget.run_good) simp
  with budget_run_counts [OF budget_inv_new [of limits], of xs] show ?thesis
    by (simp add: budget_inv_def SessionBudget_new_def Let_def word_le_nat_alt)
qed

text \<open>
  A request starts exactly when its identity is not active and a request token, a concurrency
  slot and enough response bytes remain, in every state a session can reach; starting then reserves
  exactly the requested bytes.
\<close>

theorem budget_start_exact:
  "let b = run budget_step xs (SessionBudget_new limits) in
   fst (start r n b) = Ok v \<longleftrightarrow>
     v = \<lparr>rr_request = r, rr_max_response_bytes = n\<rparr> \<and> fmlookup (sb_active b) r = None \<and>
     sb_started_requests b < bl_requests limits \<and> fm_len (sb_active b) < bl_concurrent limits \<and>
     unat (sb_committed_response_bytes b) + unat (sb_reserved_response_bytes b) + unat n \<le> unat (bl_response_bytes limits)"
proof -
  define b where "b = run budget_step xs (SessionBudget_new limits)"
  have inv: "budget_inv b" unfolding b_def by (rule budget.run_good) simp
  have limits: "sb_limits b = limits"
    using budget_run_counts [OF budget_inv_new [of limits], of xs] by (simp add: b_def SessionBudget_new_def)
  have "unat n \<le> remaining_bytes b \<longleftrightarrow>
      unat (sb_committed_response_bytes b) + unat (sb_reserved_response_bytes b) + unat n \<le> unat (bl_response_bytes limits)"
    using inv unfolding budget_inv_def remaining_bytes_def limits by linarith
  then show ?thesis
    unfolding Let_def b_def [symmetric] start_spec [OF inv] limits
    by (auto simp: not_le not_less)
qed

section \<open>Destinations\<close>

text \<open>
  C32. The strict policy always exists, and it accepts a DNS answer exactly when the answer is not
  empty and none of its addresses embeds an IPv4 address, lies in a built-in block or in a range the
  host added; it then returns the first address. No address of an accepted answer is private.
\<close>

theorem dns_answer_public:
  "\<exists>policy. strict extra = Ok policy \<and>
     (\<forall>answer a. validate_dns_answer policy answer = Ok a \<longleftrightarrow>
        answer \<noteq> [] \<and> a = hd answer \<and>
        \<not> list_ex (\<lambda>x. (case x of V6 v \<Rightarrow> embeds_ipv4 v | V4 _ \<Rightarrow> False) \<or>
            list_ex (\<lambda>(n, p). same_block p x n) built_in_blocks \<or> list_ex (\<lambda>r. IpRange_contains r x) extra) answer) \<and>
     \<not> (\<exists>answer a x. validate_dns_answer policy answer = Ok a \<and> x \<in> set answer \<and> private_address x)"
proof -
  define bad where "bad x \<longleftrightarrow> (case x of V6 v \<Rightarrow> embeds_ipv4 v | V4 _ \<Rightarrow> False) \<or>
      list_ex (\<lambda>(n, p). same_block p x n) built_in_blocks \<or> list_ex (\<lambda>r. IpRange_contains r x) extra" for x
  obtain policy where p: "strict extra = Ok policy"
    and denied: "\<And>a. is_host_denied policy a \<longleftrightarrow>
       list_ex (\<lambda>(n, p). same_block p a n) built_in_blocks \<or> list_ex (\<lambda>r. IpRange_contains r a) extra"
    using strict_policy [of extra] by blast
  have "is_denied policy = bad"
    by (rule ext) (simp only: is_denied_def denied bad_def split: IpAddr.split, simp)
  then have accepts: "validate_dns_answer policy answer = Ok a \<longleftrightarrow> answer \<noteq> [] \<and> a = hd answer \<and> \<not> list_ex bad answer"
    for answer a
    by (cases answer) (auto simp: validate_dns_answer_def)
  have public: "\<not> private_address x" if "validate_dns_answer policy answer = Ok a" "x \<in> set answer" for answer a x
    using that private_blocks [of x] unfolding accepts by (auto simp: list_ex_iff [of bad] bad_def)
  show ?thesis
    unfolding bad_def [symmetric]
  proof (intro exI [of _ policy] conjI allI)
    show "strict extra = Ok policy" by (rule p)
    show "\<not> (\<exists>answer a x. validate_dns_answer policy answer = Ok a \<and> x \<in> set answer \<and> private_address x)"
      using public by blast
  qed (rule accepts)
qed

end
