(* ===== verification/Namespace.thy ===== *)
theory Namespace
  imports Capability_State "HOL-Library.List_Lexorder" "HOL-Library.Char_ord"
begin

text \<open>
  The VM-wide namespace of the capability filesystem (\<open>capfs/src/namespace.rs\<close>): objects, the
  paths that name them, generations and open counts. Every operation runs under the registry's
  writer or reader lock, so it is one transition of the registry. A backing executor is an argument:
  a function from what the code hands it to the outcome it reports, so it does not panic and the
  lock-poisoning error is left out. The iteration order of a \<open>HashMap\<close> is the argument
  \<open>rank\<close>: entries are visited by increasing rank, so that every order is the order of some rank.

  Paths are compared by their segments in lexicographic byte order, as \<open>Vec<String>\<close> is.
\<close>

section \<open>Symbolic-link targets\<close>

definition MAX_SYMLINK_TARGET_BYTES :: nat where
  "MAX_SYMLINK_TARGET_BYTES = 4096"

datatype InvalidSymlinkTargetReason =
    TargetEmpty
  | TargetTooLong
  | TargetAbsolute
  | TargetContainsNul
  | TargetInteriorParent
  | TargetInvalidSegment InvalidPathSegment

record InvalidSymlinkTarget =
  ist_literal :: string
  ist_reason :: InvalidSymlinkTargetReason

record SymlinkTarget =
  sl_literal :: string
  sl_parents :: nat
  sl_segments :: "string list"

record SymlinkTargetEscape =
  ste_link :: CanonicalPath
  ste_target :: string

text \<open>The loop over the components of a target.\<close>

fun target_components ::
    "nat \<Rightarrow> string list \<Rightarrow> string list \<Rightarrow> (InvalidSymlinkTargetReason, nat \<times> string list) result" where
  "target_components parents segments [] = Ok (parents, segments)"
| "target_components parents segments (c # cs) =
     (if c = '''' \<or> c = ''.'' then target_components parents segments cs
      else if c = ''..'' then
        (if segments \<noteq> [] then Err TargetInteriorParent else target_components (parents + 1) segments cs)
      else and_then (map_err TargetInvalidSegment (CanonicalPath_new [c])) (\<lambda>_.
        target_components parents (segments @ [c]) cs))"

definition SymlinkTarget_new :: "string \<Rightarrow> (InvalidSymlinkTarget, SymlinkTarget) result" where
  "SymlinkTarget_new literal =
     (let reject = (\<lambda>r. \<lparr>ist_literal = literal, ist_reason = r\<rparr>) in
      if literal = [] then Err (reject TargetEmpty)
      else if length literal > MAX_SYMLINK_TARGET_BYTES then Err (reject TargetTooLong)
      else if hd literal = CHR ''/'' then Err (reject TargetAbsolute)
      else if CHR 0x00 \<in> set literal then Err (reject TargetContainsNul)
      else and_then (map_err reject (target_components 0 [] (split_on (CHR ''/'') literal))) (\<lambda>(parents, segments).
        Ok \<lparr>sl_literal = literal, sl_parents = parents, sl_segments = segments\<rparr>))"

text \<open>\<open>for _ in 0..n { segments.pop().ok_or(...)? }\<close>.\<close>

fun pop_parents :: "nat \<Rightarrow> string list \<Rightarrow> string list option" where
  "pop_parents 0 segments = Some segments"
| "pop_parents (Suc n) segments = (if segments = [] then None else pop_parents n (butlast segments))"

definition resolve_from :: "SymlinkTarget \<Rightarrow> CanonicalPath \<Rightarrow> (SymlinkTargetEscape, CanonicalPath) result" where
  "resolve_from t link_path =
     (let escape = \<lparr>ste_link = link_path, ste_target = sl_literal t\<rparr> in
      and_then (ok_or escape (CanonicalPath_parent link_path)) (\<lambda>parent.
      and_then (ok_or escape (pop_parents (sl_parents t) (cp_segments parent))) (\<lambda>segments.
      map_err (\<lambda>_. escape) (CanonicalPath_new (segments @ sl_segments t)))))"

section \<open>Objects\<close>

datatype NamespaceGeneration = NamespaceGeneration (generation_u64: u64)

definition checked_next :: "NamespaceGeneration \<Rightarrow> NamespaceGeneration option" where
  "checked_next g = map_option NamespaceGeneration (checked_add (generation_u64 g) 1)"

datatype NamespaceObjectKind = Directory | RegularFile | Symlink

datatype NamespaceObjectSpec = DirectorySpec | RegularFileSpec | SymlinkSpec SymlinkTarget

fun spec_kind :: "NamespaceObjectSpec \<Rightarrow> NamespaceObjectKind" where
  "spec_kind DirectorySpec = Directory"
| "spec_kind RegularFileSpec = RegularFile"
| "spec_kind (SymlinkSpec _) = Symlink"

fun spec_target :: "NamespaceObjectSpec \<Rightarrow> SymlinkTarget option" where
  "spec_target (SymlinkSpec t) = Some t"
| "spec_target _ = None"

record NamespaceObject =
  no_id :: ObjectId
  no_primary :: CanonicalPath
  no_aliases :: "CanonicalPath list"
  no_kind :: NamespaceObjectKind
  no_link_target :: "SymlinkTarget option"
  no_open_handle_count :: u64

datatype NamespaceError =
    RepositoryInDoubt
  | InvalidManifestRoot
  | ObjectIdExhausted
  | PathOccupied CanonicalPath
  | UnknownObject ObjectId
  | UnknownPath CanonicalPath
  | MissingParent CanonicalPath
  | ParentNotDirectory CanonicalPath
  | InvalidChildName InvalidPathSegment
  | NamespaceInvalidTarget InvalidSymlinkTarget
  | SymlinkTargetEscapes SymlinkTargetEscape
  | CannotAliasKind ObjectId NamespaceObjectKind
  | InconsistentAliasGroup CanonicalPath
  | AmbiguousObjectPath ObjectId
  | CannotModifyRoot
  | DestinationInsideSource
  | OpenHandleInSubtree ObjectId
  | DirectoryNotEmpty ObjectId
  | OpenHandleCountExhausted ObjectId
  | NoOpenHandle ObjectId
  | NamespaceGenerationExhausted
  | DirectoryGenerationChanged (stream_generation: NamespaceGeneration) (actual_generation: NamespaceGeneration)
  | NamespaceInvariantViolation

definition NamespaceObject_new :: "ObjectId \<Rightarrow> CanonicalPath \<Rightarrow> NamespaceObjectSpec \<Rightarrow> NamespaceObject" where
  "NamespaceObject_new i path spec =
     \<lparr>no_id = i, no_primary = path, no_aliases = [], no_kind = spec_kind spec,
      no_link_target = spec_target spec, no_open_handle_count = 0\<rparr>"

definition object_paths :: "NamespaceObject \<Rightarrow> CanonicalPath list" where
  "object_paths r = no_primary r # no_aliases r"

definition is_aliased :: "NamespaceObject \<Rightarrow> bool" where
  "is_aliased r \<longleftrightarrow> no_aliases r \<noteq> []"

definition expected_link_count :: "NamespaceObject \<Rightarrow> nat" where
  "expected_link_count r = length (no_aliases r) + 1"

definition owns_path :: "NamespaceObject \<Rightarrow> CanonicalPath \<Rightarrow> bool" where
  "owns_path r path \<longleftrightarrow> no_primary r = path \<or> path \<in> set (no_aliases r)"

definition insert_path :: "CanonicalPath \<Rightarrow> NamespaceObject \<Rightarrow> (NamespaceError, NamespaceObject) result" where
  "insert_path path r =
     (if owns_path r path then Err (PathOccupied path)
      else
        let (primary, aliases) =
          (if cp_segments path < cp_segments (no_primary r) then (path, no_aliases r @ [no_primary r])
           else (no_primary r, no_aliases r @ [path])) in
        Ok (r\<lparr>no_primary := primary, no_aliases := sort_key cp_segments aliases\<rparr>))"

datatype PathRemoval = Detached | Retired

definition remove_path :: "CanonicalPath \<Rightarrow> NamespaceObject \<Rightarrow> (NamespaceError, PathRemoval \<times> NamespaceObject) result" where
  "remove_path path r =
     (if no_primary r = path then
        (case no_aliases r of
          [] \<Rightarrow> Ok (Retired, r)
        | a # rest \<Rightarrow> Ok (Detached, r\<lparr>no_primary := a, no_aliases := rest\<rparr>))
      else if path \<in> set (no_aliases r) then Ok (Detached, r\<lparr>no_aliases := remove1 path (no_aliases r)\<rparr>)
      else Err NamespaceInvariantViolation)"

definition replace_path ::
    "CanonicalPath \<Rightarrow> CanonicalPath \<Rightarrow> NamespaceObject \<Rightarrow> (NamespaceError, NamespaceObject) result" where
  "replace_path source destination r =
     (if \<not> owns_path r source then Err NamespaceInvariantViolation
      else (case sort_key cp_segments (map (\<lambda>p. if p = source then destination else p) (object_paths r)) of
        [] \<Rightarrow> Err NamespaceInvariantViolation
      | p # ps \<Rightarrow> Ok (r\<lparr>no_primary := p, no_aliases := ps\<rparr>)))"

record NamespaceMove =
  nm_object :: ObjectId
  nm_source :: CanonicalPath
  nm_destination :: CanonicalPath
  nm_kind :: NamespaceObjectKind
  nm_expected_link_count :: nat

record RenamePlan =
  rp_source :: CanonicalPath
  rp_destination :: CanonicalPath
  rp_moved_objects :: "NamespaceMove list"

datatype 'e NamespaceOperationError = NamespaceRejected NamespaceError | ExecutorFailed 'e

datatype ('t, 'e) NamespaceExecutorOutcome =
    ExecutorCommitted 't
  | ExecutorFailedBeforeCommit 'e
  | ExecutorCommittedWithError 'e

fun outcome_of_result :: "('e, 't) result \<Rightarrow> ('t, 'e) NamespaceExecutorOutcome" where
  "outcome_of_result (Ok v) = ExecutorCommitted v"
| "outcome_of_result (Err e) = ExecutorFailedBeforeCommit e"

section \<open>State\<close>

definition ROOT_OBJECT_SEQUENCE :: u64 where
  "ROOT_OBJECT_SEQUENCE = 0"

definition object_id :: "u64 \<Rightarrow> ObjectId" where
  "object_id sequence = ObjectId (''object-'' @ show_nat (unat sequence))"

record NamespaceState =
  nss_objects :: "(ObjectId, NamespaceObject) fmap"
  nss_paths :: "(CanonicalPath, ObjectId) fmap"
  nss_next_object_sequence :: "u64 option"
  nss_generation :: NamespaceGeneration

definition with_root :: NamespaceState where
  "with_root =
     (let root = object_id ROOT_OBJECT_SEQUENCE in
      \<lparr>nss_objects = fmupd root (NamespaceObject_new root CanonicalPath_root DirectorySpec) fmempty,
       nss_paths = fmupd CanonicalPath_root root fmempty,
       nss_next_object_sequence = checked_add ROOT_OBJECT_SEQUENCE 1,
       nss_generation = NamespaceGeneration 0\<rparr>)"

definition next_generation :: "NamespaceState \<Rightarrow> (NamespaceError, NamespaceGeneration) result" where
  "next_generation s = ok_or NamespaceGenerationExhausted (checked_next (nss_generation s))"

definition validate_parent :: "CanonicalPath \<Rightarrow> NamespaceState \<Rightarrow> (NamespaceError, unit) result" where
  "validate_parent path s = (case CanonicalPath_parent path of
     None \<Rightarrow> Err CannotModifyRoot
   | Some parent_path \<Rightarrow>
       (case fmlookup (nss_paths s) parent_path of
         None \<Rightarrow> Err (MissingParent parent_path)
       | Some parent_id \<Rightarrow>
           (case fmlookup (nss_objects s) parent_id of
             None \<Rightarrow> Err NamespaceInvariantViolation
           | Some parent \<Rightarrow> if no_kind parent \<noteq> Directory then Err (ParentNotDirectory parent_path) else Ok ())))"

definition validate_new_path :: "CanonicalPath \<Rightarrow> NamespaceState \<Rightarrow> (NamespaceError, unit) result" where
  "validate_new_path path s =
     (if fmlookup (nss_paths s) path \<noteq> None then Err (PathOccupied path) else validate_parent path s)"

definition allocate_object ::
    "CanonicalPath \<Rightarrow> NamespaceObjectSpec \<Rightarrow> NamespaceState \<Rightarrow> (NamespaceError, NamespaceObject \<times> NamespaceState) result" where
  "allocate_object path spec s =
     and_then (case spec of
         SymlinkSpec target \<Rightarrow> map_err SymlinkTargetEscapes (and_then (resolve_from target path) (\<lambda>_. Ok ()))
       | _ \<Rightarrow> Ok ()) (\<lambda>_.
     and_then (ok_or ObjectIdExhausted (nss_next_object_sequence s)) (\<lambda>sequence. let i = object_id sequence in
     if fmlookup (nss_objects s) i \<noteq> None then Err NamespaceInvariantViolation
     else let object = NamespaceObject_new i path spec in
       Ok (object, s\<lparr>nss_next_object_sequence := checked_add sequence 1,
                     nss_paths := fmupd path i (nss_paths s),
                     nss_objects := fmupd i object (nss_objects s)\<rparr>)))"

definition attach_path ::
    "ObjectId \<Rightarrow> CanonicalPath \<Rightarrow> NamespaceState \<Rightarrow> (NamespaceError, NamespaceObject \<times> NamespaceState) result" where
  "attach_path object path s =
     and_then (ok_or (UnknownObject object) (fmlookup (nss_objects s) object)) (\<lambda>r.
     if no_kind r = Directory then Err (CannotAliasKind object (no_kind r))
     else and_then (insert_path path r) (\<lambda>r.
       Ok (r, s\<lparr>nss_objects := fmupd object r (nss_objects s), nss_paths := fmupd path object (nss_paths s)\<rparr>)))"

section \<open>Staged transitions\<close>

record NamespaceRegistry =
  nr_state :: NamespaceState
  nr_repository_in_doubt :: bool

record 't NamespaceObjectCreation =
  noc_object :: ObjectId
  noc_value :: 't

record NamespaceChild =
  nc_path :: CanonicalPath
  nc_object :: NamespaceObject

type_synonym ('e, 'a) registry_outcome = "(NamespaceRegistry, 'e NamespaceOperationError, 'a) outcome"

definition finish_namespace_mutation ::
    "NamespaceState \<Rightarrow> ('t, 'e) NamespaceExecutorOutcome \<Rightarrow> NamespaceRegistry \<Rightarrow> ('e, 't) registry_outcome" where
  "finish_namespace_mutation next_state out r = (case out of
     ExecutorCommitted v \<Rightarrow> (Ok v, r\<lparr>nr_state := next_state\<rparr>)
   | ExecutorFailedBeforeCommit e \<Rightarrow> (Err (ExecutorFailed e), r)
   | ExecutorCommittedWithError e \<Rightarrow>
       (Err (ExecutorFailed e), r\<lparr>nr_state := next_state, nr_repository_in_doubt := True\<rparr>))"

text \<open>An early return before the executor's outcome leaves the registry as it was; otherwise the
  staged state and the outcome are finished.\<close>

definition staged ::
    "(NamespaceError, NamespaceState \<times> ('t, 'e) NamespaceExecutorOutcome) result \<Rightarrow> NamespaceRegistry \<Rightarrow>
     ('e, 't) registry_outcome" where
  "staged res r = (case res of
     Err e \<Rightarrow> (Err (NamespaceRejected e), r)
   | Ok (next_state, out) \<Rightarrow> finish_namespace_mutation next_state out r)"

definition close_object_in_state ::
    "ObjectId \<Rightarrow> (NamespaceObject \<Rightarrow> ('e, 't) result) \<Rightarrow> NamespaceState \<Rightarrow>
     (NamespaceState, 'e NamespaceOperationError, 't) outcome" where
  "close_object_in_state object operation s = (case fmlookup (nss_objects s) object of
     None \<Rightarrow> (Err (NamespaceRejected (UnknownObject object)), s)
   | Some rec \<Rightarrow>
       if no_open_handle_count rec = 0 then (Err (NamespaceRejected (NoOpenHandle object)), s)
       else (case operation rec of
           Ok v \<Rightarrow> (Ok v, s\<lparr>nss_objects :=
             fmupd object (rec\<lparr>no_open_handle_count := no_open_handle_count rec - 1\<rparr>) (nss_objects s)\<rparr>)
         | Err e \<Rightarrow> (Err (ExecutorFailed e), s\<lparr>nss_objects :=
             fmupd object (rec\<lparr>no_open_handle_count := no_open_handle_count rec - 1 + 1\<rparr>) (nss_objects s)\<rparr>)))"

definition remove_record ::
    "NamespaceObject \<Rightarrow> CanonicalPath \<Rightarrow> (NamespaceObject \<Rightarrow> CanonicalPath \<Rightarrow> ('t, 'e) NamespaceExecutorOutcome) \<Rightarrow>
     NamespaceState \<Rightarrow> (NamespaceError, NamespaceState \<times> ('t, 'e) NamespaceExecutorOutcome) result" where
  "remove_record object_record removed_path operation s =
     (if CanonicalPath_is_root removed_path then Err CannotModifyRoot
      else if \<not> owns_path object_record removed_path then Err NamespaceInvariantViolation
      else if \<not> is_aliased object_record \<and> no_open_handle_count object_record \<noteq> 0 then
        Err (OpenHandleInSubtree (no_id object_record))
      else if \<not> is_aliased object_record \<and>
          fBex (fmdom (nss_paths s)) (\<lambda>c. c \<noteq> removed_path \<and> CanonicalPath_is_at_or_below c removed_path) then
        Err (DirectoryNotEmpty (no_id object_record))
      else and_then (next_generation s) (\<lambda>g.
        if fmlookup (nss_paths s) removed_path = None then Err NamespaceInvariantViolation
        else let paths = fmdrop removed_path (nss_paths s) in
        and_then (ok_or NamespaceInvariantViolation (fmlookup (nss_objects s) (no_id object_record))) (\<lambda>rec.
        and_then (remove_path removed_path rec) (\<lambda>(removal, rec).
        let objects = (case removal of
            Retired \<Rightarrow> fmdrop (no_id object_record) (nss_objects s)
          | Detached \<Rightarrow> fmupd (no_id object_record) rec (nss_objects s)) in
        Ok (s\<lparr>nss_paths := paths, nss_objects := objects, nss_generation := g\<rparr>,
            operation object_record removed_path)))))"

text \<open>The entries of the path index in an order given by \<open>rank\<close>.\<close>

definition hash_order :: "(string list \<Rightarrow> nat) \<Rightarrow> (CanonicalPath, ObjectId) fmap \<Rightarrow> (CanonicalPath \<times> ObjectId) list" where
  "hash_order rank m =
     map (\<lambda>ws. (\<lparr>cp_segments = ws\<rparr>, the (fmlookup m \<lparr>cp_segments = ws\<rparr>)))
       (sort_key rank (sorted_list_of_fset (cp_segments |`| fmdom m)))"

text \<open>The loops of \<open>rename_records\<close>: collecting the moves, clearing the old names, entering the new.\<close>

fun plan_moves ::
    "CanonicalPath \<Rightarrow> CanonicalPath \<Rightarrow> (ObjectId, NamespaceObject) fmap \<Rightarrow> (CanonicalPath \<times> ObjectId) list \<Rightarrow>
     (NamespaceError, NamespaceMove list) result" where
  "plan_moves source destination objects [] = Ok []"
| "plan_moves source destination objects ((path, i) # entries) =
     and_then (ok_or NamespaceInvariantViolation (fmlookup objects i)) (\<lambda>object.
     if no_open_handle_count object \<noteq> 0 then Err (OpenHandleInSubtree (no_id object))
     else (case CanonicalPath_rebase path source destination of
         None \<Rightarrow> Err NamespaceInvariantViolation
       | Some rebased_path \<Rightarrow>
           and_then (plan_moves source destination objects entries) (\<lambda>moves.
           Ok (\<lparr>nm_object = no_id object, nm_source = path, nm_destination = rebased_path,
                nm_kind = no_kind object, nm_expected_link_count = expected_link_count object\<rparr> # moves))))"

fun clear_sources ::
    "NamespaceMove list \<Rightarrow> (CanonicalPath, ObjectId) fmap \<Rightarrow> (NamespaceError, (CanonicalPath, ObjectId) fmap) result" where
  "clear_sources [] paths = Ok paths"
| "clear_sources (m # ms) paths =
     (if fmlookup paths (nm_source m) = None then Err NamespaceInvariantViolation
      else clear_sources ms (fmdrop (nm_source m) paths))"

fun enter_destinations :: "NamespaceMove list \<Rightarrow> NamespaceState \<Rightarrow> (NamespaceError, NamespaceState) result" where
  "enter_destinations [] s = Ok s"
| "enter_destinations (m # ms) s =
     (if fmlookup (nss_paths s) (nm_destination m) \<noteq> None then Err (PathOccupied (nm_destination m))
      else and_then (ok_or NamespaceInvariantViolation (fmlookup (nss_objects s) (nm_object m))) (\<lambda>object.
        and_then (replace_path (nm_source m) (nm_destination m) object) (\<lambda>object.
        enter_destinations ms
          (s\<lparr>nss_objects := fmupd (nm_object m) object (nss_objects s),
             nss_paths := fmupd (nm_destination m) (nm_object m) (nss_paths s)\<rparr>))))"

definition rename_records ::
    "(string list \<Rightarrow> nat) \<Rightarrow> CanonicalPath \<Rightarrow> CanonicalPath \<Rightarrow> (RenamePlan \<Rightarrow> ('t, 'e) NamespaceExecutorOutcome) \<Rightarrow>
     NamespaceState \<Rightarrow> (NamespaceError, NamespaceState \<times> ('t, 'e) NamespaceExecutorOutcome) result" where
  "rename_records rank source destination operation s =
     (if CanonicalPath_is_root source then Err CannotModifyRoot
      else if fmlookup (nss_paths s) source = None then Err (UnknownPath source)
      else if fmlookup (nss_paths s) destination \<noteq> None then Err (PathOccupied destination)
      else if CanonicalPath_is_at_or_below destination source then Err DestinationInsideSource
      else and_then (validate_parent destination s) (\<lambda>_.
        and_then (plan_moves source destination (nss_objects s)
          (filter (\<lambda>(path, _). CanonicalPath_is_at_or_below path source) (hash_order rank (nss_paths s)))) (\<lambda>moves.
        let moved_objects = sort_key (\<lambda>m. cp_segments (nm_source m)) moves in
        and_then (next_generation s) (\<lambda>g.
        let plan = \<lparr>rp_source = source, rp_destination = destination, rp_moved_objects = moved_objects\<rparr> in
        and_then (clear_sources moved_objects (nss_paths s)) (\<lambda>paths.
        and_then (enter_destinations moved_objects (s\<lparr>nss_paths := paths\<rparr>)) (\<lambda>next_state.
        Ok (next_state\<lparr>nss_generation := g\<rparr>, operation plan)))))))"

section \<open>The registry\<close>

definition NamespaceRegistry_new :: NamespaceRegistry where
  "NamespaceRegistry_new = \<lparr>nr_state = with_root, nr_repository_in_doubt = False\<rparr>"

definition mark_in_doubt :: "NamespaceRegistry \<Rightarrow> NamespaceRegistry" where
  "mark_in_doubt r = r\<lparr>nr_repository_in_doubt := True\<rparr>"

definition ensure_operational :: "NamespaceRegistry \<Rightarrow> (NamespaceError, unit) result" where
  "ensure_operational r = (if nr_repository_in_doubt r then Err RepositoryInDoubt else Ok ())"

definition read_operational_state :: "NamespaceRegistry \<Rightarrow> (NamespaceError, NamespaceState) result" where
  "read_operational_state r = and_then (ensure_operational r) (\<lambda>_. Ok (nr_state r))"

definition write_operational_state :: "NamespaceRegistry \<Rightarrow> (NamespaceError, NamespaceState) result" where
  "write_operational_state r = and_then (ensure_operational r) (\<lambda>_. Ok (nr_state r))"

subsection \<open>Import of a scanned repository\<close>

datatype AliasGroup = AliasGroup u64

record ManifestEntry =
  me_path :: CanonicalPath
  me_spec :: NamespaceObjectSpec
  me_alias_group :: AliasGroup

fun import_entries ::
    "ManifestEntry list \<Rightarrow> (AliasGroup, ObjectId) fmap \<Rightarrow> NamespaceState \<Rightarrow> (NamespaceError, NamespaceState) result" where
  "import_entries [] groups s = Ok s"
| "import_entries (entry # entries) groups s =
     and_then (validate_new_path (me_path entry) s) (\<lambda>_.
     case fmlookup groups (me_alias_group entry) of
       Some object \<Rightarrow>
         and_then (ok_or NamespaceInvariantViolation (fmlookup (nss_objects s) object)) (\<lambda>rec.
         if no_kind rec \<noteq> spec_kind (me_spec entry) \<or> no_link_target rec \<noteq> spec_target (me_spec entry) then
           Err (InconsistentAliasGroup (me_path entry))
         else and_then (attach_path object (me_path entry) s) (\<lambda>(_, s). import_entries entries groups s))
     | None \<Rightarrow>
         and_then (allocate_object (me_path entry) (me_spec entry) s) (\<lambda>(created, s).
         import_entries entries (fmupd (me_alias_group entry) (no_id created) groups) s))"

definition from_manifest :: "ManifestEntry list \<Rightarrow> (NamespaceError, NamespaceRegistry) result" where
  "from_manifest entries = (case entries of
     [] \<Rightarrow> Err InvalidManifestRoot
   | root # entries \<Rightarrow>
       if \<not> CanonicalPath_is_root (me_path root) \<or> me_spec root \<noteq> DirectorySpec then Err InvalidManifestRoot
       else and_then (import_entries entries fmempty with_root) (\<lambda>s.
         Ok \<lparr>nr_state = s, nr_repository_in_doubt = False\<rparr>))"

subsection \<open>Reads\<close>

definition registry_generation :: "NamespaceRegistry \<Rightarrow> (NamespaceError, NamespaceGeneration) result" where
  "registry_generation r = and_then (read_operational_state r) (\<lambda>s. Ok (nss_generation s))"

definition object_count :: "NamespaceRegistry \<Rightarrow> (NamespaceError, nat) result" where
  "object_count r = and_then (read_operational_state r) (\<lambda>s. Ok (fm_len (nss_objects s)))"

definition object_snapshot :: "ObjectId \<Rightarrow> NamespaceRegistry \<Rightarrow> (NamespaceError, NamespaceObject option) result" where
  "object_snapshot object r = and_then (read_operational_state r) (\<lambda>s. Ok (fmlookup (nss_objects s) object))"

definition object_at_path_snapshot ::
    "CanonicalPath \<Rightarrow> NamespaceRegistry \<Rightarrow> (NamespaceError, NamespaceObject option) result" where
  "object_at_path_snapshot path r = and_then (read_operational_state r) (\<lambda>s.
     Ok (case fmlookup (nss_paths s) path of None \<Rightarrow> None | Some object \<Rightarrow> fmlookup (nss_objects s) object))"

text \<open>The record of a live directory, as every parent-relative operation resolves it first, and the
  path of a child.\<close>

definition directory_record :: "ObjectId \<Rightarrow> NamespaceState \<Rightarrow> (NamespaceError, NamespaceObject) result" where
  "directory_record parent s =
     and_then (ok_or (UnknownObject parent) (fmlookup (nss_objects s) parent)) (\<lambda>rec.
     if no_kind rec \<noteq> Directory then Err (ParentNotDirectory (no_primary rec)) else Ok rec)"

definition child_path :: "NamespaceObject \<Rightarrow> string \<Rightarrow> (NamespaceError, CanonicalPath) result" where
  "child_path parent child_name = map_err InvalidChildName (CanonicalPath_child (no_primary parent) child_name)"

definition resolve_child :: "NamespaceObject \<Rightarrow> string \<Rightarrow> NamespaceState \<Rightarrow> (NamespaceError, CanonicalPath \<times> NamespaceObject) result" where
  "resolve_child parent child_name s =
     and_then (child_path parent child_name) (\<lambda>path.
     and_then (ok_or (UnknownPath path) (fmlookup (nss_paths s) path)) (\<lambda>child_id.
     and_then (ok_or NamespaceInvariantViolation (fmlookup (nss_objects s) child_id)) (\<lambda>child.
     Ok (path, child))))"

text \<open>A read hands a view to its executor and keeps the registry.\<close>

definition executed :: "('v \<Rightarrow> ('e, 't) result) \<Rightarrow> (NamespaceError, 'v) result \<Rightarrow> ('e NamespaceOperationError, 't) result" where
  "executed operation view = and_then (map_err NamespaceRejected view) (\<lambda>v. map_err ExecutorFailed (operation v))"

definition with_object ::
    "ObjectId \<Rightarrow> (NamespaceObject \<Rightarrow> ('e, 't) result) \<Rightarrow> NamespaceRegistry \<Rightarrow> ('e NamespaceOperationError, 't) result" where
  "with_object object operation r = executed operation
     (and_then (read_operational_state r) (\<lambda>s. ok_or (UnknownObject object) (fmlookup (nss_objects s) object)))"

definition with_object_mutation ::
    "ObjectId \<Rightarrow> (NamespaceObject \<Rightarrow> ('e, 't) result) \<Rightarrow> NamespaceRegistry \<Rightarrow> ('e NamespaceOperationError, 't) result" where
  "with_object_mutation object operation r = executed operation
     (and_then (write_operational_state r) (\<lambda>s. ok_or (UnknownObject object) (fmlookup (nss_objects s) object)))"

definition with_child ::
    "ObjectId \<Rightarrow> string \<Rightarrow> (NamespaceObject \<Rightarrow> ('e, 't) result) \<Rightarrow> NamespaceRegistry \<Rightarrow>
     ('e NamespaceOperationError, 't) result" where
  "with_child parent child_name operation r = executed operation
     (and_then (read_operational_state r) (\<lambda>s.
      and_then (directory_record parent s) (\<lambda>parent.
      and_then (resolve_child parent child_name s) (\<lambda>(_, child). Ok child))))"

fun collect_children ::
    "(ObjectId, NamespaceObject) fmap \<Rightarrow> (CanonicalPath \<times> ObjectId) list \<Rightarrow> (NamespaceError, NamespaceChild list) result" where
  "collect_children objects [] = Ok []"
| "collect_children objects ((path, i) # entries) =
     and_then (ok_or NamespaceInvariantViolation (fmlookup objects i)) (\<lambda>object.
     and_then (collect_children objects entries) (\<lambda>children.
     Ok (\<lparr>nc_path = path, nc_object = object\<rparr> # children)))"

definition directory_view ::
    "(string list \<Rightarrow> nat) \<Rightarrow> ObjectId \<Rightarrow> NamespaceGeneration option \<Rightarrow> NamespaceState \<Rightarrow>
     (NamespaceError, NamespaceObject \<times> NamespaceObject \<times> NamespaceChild list) result" where
  "directory_view rank object expected s =
     and_then (case expected of
         Some g \<Rightarrow> if nss_generation s \<noteq> g then Err (DirectoryGenerationChanged g (nss_generation s)) else Ok ()
       | None \<Rightarrow> Ok ()) (\<lambda>_.
     and_then (directory_record object s) (\<lambda>directory.
     and_then (case CanonicalPath_parent (no_primary directory) of
         Some parent_path \<Rightarrow>
           and_then (ok_or (MissingParent parent_path) (fmlookup (nss_paths s) parent_path)) (\<lambda>parent_id.
           ok_or NamespaceInvariantViolation (fmlookup (nss_objects s) parent_id))
       | None \<Rightarrow> Ok directory) (\<lambda>parent.
     let child_depth = length (cp_segments (no_primary directory)) + 1 in
     and_then (collect_children (nss_objects s)
       (filter (\<lambda>(path, _). length (cp_segments path) = child_depth \<and>
            CanonicalPath_is_at_or_below path (no_primary directory)) (hash_order rank (nss_paths s)))) (\<lambda>children.
     Ok (directory, parent, sort_key (\<lambda>c. last (cp_segments (nc_path c))) children)))))"

definition with_directory_children_checked ::
    "(string list \<Rightarrow> nat) \<Rightarrow> ObjectId \<Rightarrow> NamespaceGeneration option \<Rightarrow>
     (NamespaceObject \<times> NamespaceObject \<times> NamespaceChild list \<Rightarrow> ('e, 't) result) \<Rightarrow> NamespaceRegistry \<Rightarrow>
     ('e NamespaceOperationError, 't) result" where
  "with_directory_children_checked rank object expected operation r =
     executed operation (and_then (read_operational_state r) (directory_view rank object expected))"

subsection \<open>Opens and closes\<close>

definition open_object_with_commit_outcome ::
    "ObjectId \<Rightarrow> (NamespaceObject \<Rightarrow> ('t, 'e) NamespaceExecutorOutcome) \<Rightarrow> NamespaceRegistry \<Rightarrow> ('e, 't) registry_outcome" where
  "open_object_with_commit_outcome object operation r = (case write_operational_state r of
     Err e \<Rightarrow> (Err (NamespaceRejected e), r)
   | Ok s \<Rightarrow>
      (case fmlookup (nss_objects s) object of
        None \<Rightarrow> (Err (NamespaceRejected (UnknownObject object)), r)
      | Some rec \<Rightarrow>
         (case checked_add (no_open_handle_count rec) 1 of
           None \<Rightarrow> (Err (NamespaceRejected (OpenHandleCountExhausted object)), r)
         | Some next_count \<Rightarrow>
            let with_count = (\<lambda>n. r\<lparr>nr_state := s\<lparr>nss_objects :=
              fmupd object (rec\<lparr>no_open_handle_count := n\<rparr>) (nss_objects s)\<rparr>\<rparr>) in
            (case operation rec of
              ExecutorCommitted v \<Rightarrow> (Ok v, with_count next_count)
            | ExecutorFailedBeforeCommit e \<Rightarrow> (Err (ExecutorFailed e), with_count (next_count - 1))
            | ExecutorCommittedWithError e \<Rightarrow>
                (Err (ExecutorFailed e), mark_in_doubt (with_count (next_count - 1)))))))"

definition close_object_for_cleanup ::
    "ObjectId \<Rightarrow> (NamespaceObject \<Rightarrow> ('e, 't) result) \<Rightarrow> NamespaceRegistry \<Rightarrow> ('e, 't) registry_outcome" where
  "close_object_for_cleanup object operation r =
     (let (res, s) = close_object_in_state object operation (nr_state r) in (res, r\<lparr>nr_state := s\<rparr>))"

definition close_object ::
    "ObjectId \<Rightarrow> (NamespaceObject \<Rightarrow> ('e, 't) result) \<Rightarrow> NamespaceRegistry \<Rightarrow> ('e, 't) registry_outcome" where
  "close_object object operation r = (case write_operational_state r of
     Err e \<Rightarrow> (Err (NamespaceRejected e), r)
   | Ok s \<Rightarrow>
      (let (res, s) = close_object_in_state object operation s in (res, r\<lparr>nr_state := s\<rparr>)))"

subsection \<open>Namespace mutations\<close>

definition create_object_with_commit_outcome ::
    "CanonicalPath \<Rightarrow> NamespaceObjectSpec \<Rightarrow> (NamespaceObject \<Rightarrow> ('t, 'e) NamespaceExecutorOutcome) \<Rightarrow>
     NamespaceRegistry \<Rightarrow> ('e, 't NamespaceObjectCreation) registry_outcome" where
  "create_object_with_commit_outcome path spec operation r = staged
     (and_then (write_operational_state r) (\<lambda>s.
      and_then (validate_new_path path s) (\<lambda>_.
      and_then (next_generation s) (\<lambda>g.
      and_then (allocate_object path spec s) (\<lambda>(object, next_state).
      Ok (next_state\<lparr>nss_generation := g\<rparr>,
          map_NamespaceExecutorOutcome (\<lambda>v. \<lparr>noc_object = no_id object, noc_value = v\<rparr>) id (operation object))))))) r"

text \<open>The end of \<open>create_child_with_open_count\<close>, from the staged object on: its open count, the
  executor, and the count withdrawn after a committed error.\<close>

definition stage_open_count ::
    "u64 \<Rightarrow> (NamespaceObject \<Rightarrow> ('t, 'e) NamespaceExecutorOutcome) \<Rightarrow> NamespaceGeneration \<Rightarrow> ObjectId \<Rightarrow> NamespaceState \<Rightarrow>
     (NamespaceError, NamespaceState \<times> ('t NamespaceObjectCreation, 'e) NamespaceExecutorOutcome) result" where
  "stage_open_count open_handle_count operation g i next_state =
     (let counted = (\<lambda>n st. and_then (ok_or NamespaceInvariantViolation (fmlookup (nss_objects st) i)) (\<lambda>rec.
            Ok (st\<lparr>nss_objects := fmupd i (rec\<lparr>no_open_handle_count := n\<rparr>) (nss_objects st)\<rparr>))) in
      and_then (if open_handle_count \<noteq> 0 then counted open_handle_count next_state else Ok next_state) (\<lambda>next_state.
      and_then (ok_or NamespaceInvariantViolation (fmlookup (nss_objects next_state) i)) (\<lambda>object.
      let next_state = next_state\<lparr>nss_generation := g\<rparr>;
          out = operation object in
      and_then (if (case out of ExecutorCommittedWithError _ \<Rightarrow> True | _ \<Rightarrow> False) \<and> open_handle_count \<noteq> 0
          then counted 0 next_state else Ok next_state) (\<lambda>next_state.
      Ok (next_state, map_NamespaceExecutorOutcome (\<lambda>v. \<lparr>noc_object = i, noc_value = v\<rparr>) id out)))))"

definition create_child_with_open_count ::
    "ObjectId \<Rightarrow> string \<Rightarrow> NamespaceObjectSpec \<Rightarrow> u64 \<Rightarrow>
     (NamespaceObject \<Rightarrow> NamespaceObject \<Rightarrow> ('t, 'e) NamespaceExecutorOutcome) \<Rightarrow>
     NamespaceRegistry \<Rightarrow> ('e, 't NamespaceObjectCreation) registry_outcome" where
  "create_child_with_open_count parent child_name spec open_handle_count operation r = staged
     (and_then (write_operational_state r) (\<lambda>s.
      and_then (directory_record parent s) (\<lambda>parent.
      and_then (child_path parent child_name) (\<lambda>path.
      and_then (validate_new_path path s) (\<lambda>_.
      and_then (next_generation s) (\<lambda>g.
      and_then (allocate_object path spec s) (\<lambda>(object, next_state).
      stage_open_count open_handle_count (operation parent) g (no_id object) next_state))))))) r"

definition create_child_with_commit_outcome ::
    "ObjectId \<Rightarrow> string \<Rightarrow> NamespaceObjectSpec \<Rightarrow>
     (NamespaceObject \<Rightarrow> NamespaceObject \<Rightarrow> ('t, 'e) NamespaceExecutorOutcome) \<Rightarrow>
     NamespaceRegistry \<Rightarrow> ('e, 't NamespaceObjectCreation) registry_outcome" where
  "create_child_with_commit_outcome parent child_name spec operation =
     create_child_with_open_count parent child_name spec 0 operation"

definition create_open_child_with_commit_outcome ::
    "ObjectId \<Rightarrow> string \<Rightarrow> NamespaceObjectSpec \<Rightarrow>
     (NamespaceObject \<Rightarrow> NamespaceObject \<Rightarrow> ('t, 'e) NamespaceExecutorOutcome) \<Rightarrow>
     NamespaceRegistry \<Rightarrow> ('e, 't NamespaceObjectCreation) registry_outcome" where
  "create_open_child_with_commit_outcome parent child_name spec operation =
     create_child_with_open_count parent child_name spec 1 operation"

definition link_child_with_commit_outcome ::
    "ObjectId \<Rightarrow> string \<Rightarrow> ObjectId \<Rightarrow>
     (NamespaceObject \<Rightarrow> NamespaceObject \<Rightarrow> CanonicalPath \<Rightarrow> ('t, 'e) NamespaceExecutorOutcome) \<Rightarrow>
     NamespaceRegistry \<Rightarrow> ('e, 't) registry_outcome" where
  "link_child_with_commit_outcome parent child_name source operation r = staged
     (and_then (write_operational_state r) (\<lambda>s.
      and_then (directory_record parent s) (\<lambda>parent.
      if fmlookup (nss_objects s) source = None then Err (UnknownObject source)
      else and_then (child_path parent child_name) (\<lambda>path.
      and_then (validate_new_path path s) (\<lambda>_.
      and_then (next_generation s) (\<lambda>g.
      and_then (attach_path source path s) (\<lambda>(linked, next_state).
      Ok (next_state\<lparr>nss_generation := g\<rparr>, operation parent linked path)))))))) r"

definition remove_object_with_commit_outcome ::
    "ObjectId \<Rightarrow> (NamespaceObject \<Rightarrow> ('t, 'e) NamespaceExecutorOutcome) \<Rightarrow> NamespaceRegistry \<Rightarrow> ('e, 't) registry_outcome" where
  "remove_object_with_commit_outcome object operation r = staged
     (and_then (write_operational_state r) (\<lambda>s.
      and_then (ok_or (UnknownObject object) (fmlookup (nss_objects s) object)) (\<lambda>rec.
      if is_aliased rec then Err (AmbiguousObjectPath object)
      else remove_record rec (no_primary rec) (\<lambda>rec _. operation rec) s))) r"

definition remove_child_with_commit_outcome ::
    "ObjectId \<Rightarrow> string \<Rightarrow> (NamespaceObject \<Rightarrow> NamespaceObject \<Rightarrow> CanonicalPath \<Rightarrow> ('t, 'e) NamespaceExecutorOutcome) \<Rightarrow>
     NamespaceRegistry \<Rightarrow> ('e, 't) registry_outcome" where
  "remove_child_with_commit_outcome parent child_name operation r = staged
     (and_then (write_operational_state r) (\<lambda>s.
      and_then (directory_record parent s) (\<lambda>parent.
      and_then (resolve_child parent child_name s) (\<lambda>(path, child).
      remove_record child path (operation parent) s)))) r"

definition rename_subtree_with_commit_outcome ::
    "(string list \<Rightarrow> nat) \<Rightarrow> CanonicalPath \<Rightarrow> CanonicalPath \<Rightarrow> (RenamePlan \<Rightarrow> ('t, 'e) NamespaceExecutorOutcome) \<Rightarrow>
     NamespaceRegistry \<Rightarrow> ('e, 't) registry_outcome" where
  "rename_subtree_with_commit_outcome rank source destination operation r = staged
     (and_then (write_operational_state r) (rename_records rank source destination operation)) r"

definition rename_child_with_commit_outcome ::
    "(string list \<Rightarrow> nat) \<Rightarrow> ObjectId \<Rightarrow> string \<Rightarrow> ObjectId \<Rightarrow> string \<Rightarrow>
     (RenamePlan \<Rightarrow> ('t, 'e) NamespaceExecutorOutcome) \<Rightarrow> NamespaceRegistry \<Rightarrow> ('e, 't) registry_outcome" where
  "rename_child_with_commit_outcome rank source_parent source_name destination_parent destination_name operation r = staged
     (and_then (write_operational_state r) (\<lambda>s.
      and_then (directory_record source_parent s) (\<lambda>source_parent.
      and_then (child_path source_parent source_name) (\<lambda>source.
      and_then (directory_record destination_parent s) (\<lambda>destination_parent.
      and_then (child_path destination_parent destination_name) (\<lambda>destination.
      rename_records rank source destination operation s)))))) r"

end
