(* ===== verification/Namespace_Invariant.thy ===== *)
theory Namespace_Invariant
  imports Namespace Interfaces
begin

text \<open>
  The invariant of the namespace. The two indexes describe one tree: every path of an object is in
  the path index and nothing else is, every name other than the root lies in a live directory, the
  names of an object are in strictly increasing order, a directory has one name, and every identity
  has been issued. Each staged transition keeps it.
\<close>

section \<open>The names of an object\<close>

definition names :: "NamespaceObject \<Rightarrow> CanonicalPath set" where
  "names r = set (object_paths r)"

definition ordered_names :: "NamespaceObject \<Rightarrow> bool" where
  "ordered_names r \<longleftrightarrow> sorted_wrt (<) (map cp_segments (object_paths r))"

text \<open>Two records that differ at most in their names.\<close>

definition same_object :: "NamespaceObject \<Rightarrow> NamespaceObject \<Rightarrow> bool" where
  "same_object r r' \<longleftrightarrow> no_id r' = no_id r \<and> no_kind r' = no_kind r \<and> no_link_target r' = no_link_target r \<and>
     no_open_handle_count r' = no_open_handle_count r"

lemma same_object_refl [simp]: "same_object r r"
  by (simp add: same_object_def)

lemma same_object_trans: "same_object r r' \<Longrightarrow> same_object r' r'' \<Longrightarrow> same_object r r''"
  by (simp add: same_object_def)

lemma names_simps [simp]:
  "names (r\<lparr>no_open_handle_count := n\<rparr>) = names r"
  "names (r\<lparr>no_primary := p, no_aliases := ps\<rparr>) = insert p (set ps)"
  "names (NamespaceObject_new i p spec) = {p}"
  by (simp_all add: names_def object_paths_def NamespaceObject_new_def)

lemma ordered_names_simps [simp]:
  "ordered_names (r\<lparr>no_open_handle_count := n\<rparr>) = ordered_names r"
  "ordered_names (NamespaceObject_new i p spec)"
  by (simp_all add: ordered_names_def object_paths_def NamespaceObject_new_def)

lemma owns_path_names: "owns_path r p \<longleftrightarrow> p \<in> names r"
  by (auto simp: owns_path_def names_def object_paths_def)

lemma inj_cp_segments: "inj_on cp_segments (A :: CanonicalPath set)"
  by (auto intro!: inj_onI path_eqI)

lemma ordered_namesI:
  assumes "sorted (map cp_segments (object_paths r))" "distinct (object_paths r)"
  shows "ordered_names r"
  using assms by (simp add: ordered_names_def strict_sorted_iff distinct_map inj_cp_segments)

lemma ordered_distinct: "ordered_names r \<Longrightarrow> distinct (object_paths r)"
  by (auto simp: ordered_names_def strict_sorted_iff distinct_map)

lemma ordered_names_iff:
  "ordered_names r \<longleftrightarrow> sorted (map cp_segments (object_paths r)) \<and> distinct (object_paths r)"
  using ordered_namesI ordered_distinct by (auto simp: ordered_names_def strict_sorted_iff)

text \<open>The names, as a set, determine the order in which a record holds them.\<close>

lemma ordered_names_unique:
  assumes "ordered_names r" "ordered_names r'" "names r = names r'"
  shows "object_paths r = object_paths r'"
proof -
  have "map cp_segments (object_paths r) = map cp_segments (object_paths r')"
    using assms by (intro sorted_distinct_set_unique) (auto simp: ordered_names_def strict_sorted_iff names_def)
  then show ?thesis by (rule map_injective) (auto intro: injI path_eqI)
qed

lemma insert_path_spec:
  assumes "ordered_names r" "p \<notin> names r"
  obtains r' where "insert_path p r = Ok r'" "ordered_names r'" "names r' = insert p (names r)" "same_object r r'"
proof -
  define r' where "r' = (if cp_segments p < cp_segments (no_primary r)
    then r\<lparr>no_primary := p, no_aliases := sort_key cp_segments (no_aliases r @ [no_primary r])\<rparr>
    else r\<lparr>no_aliases := sort_key cp_segments (no_aliases r @ [p])\<rparr>)"
  have ins: "insert_path p r = Ok r'"
    using assms(2) by (simp add: insert_path_def owns_path_names r'_def)
  have names: "names r' = insert p (names r)"
    by (auto simp: r'_def names_def object_paths_def)
  have less: "\<forall>q\<in>set (no_aliases r). cp_segments (no_primary r) < cp_segments q"
    using assms(1) by (simp add: ordered_names_def object_paths_def)
  have neq: "cp_segments (no_primary r) \<noteq> cp_segments p"
    using assms(2) path_eqI by (fastforce simp: names_def object_paths_def)
  have "sorted (map cp_segments (object_paths r'))"
    using less neq by (auto simp: r'_def object_paths_def less_imp_le intro: order.trans less_imp_le)
  moreover have "distinct (object_paths r')"
    using assms(2) ordered_distinct [OF assms(1)]
    by (auto simp: r'_def object_paths_def names_def)
  ultimately have "ordered_names r'" by (rule ordered_namesI)
  moreover have "same_object r r'" by (simp add: r'_def same_object_def)
  ultimately show ?thesis using ins names that by blast
qed

lemma replace_path_spec:
  assumes "ordered_names r" "a \<in> names r" "b \<notin> names r"
  obtains r' where "replace_path a b r = Ok r'" "ordered_names r'" "names r' = insert b (names r - {a})"
    "same_object r r'"
proof -
  define ps where "ps = map (\<lambda>p. if p = a then b else p) (object_paths r)"
  obtain q qs where q: "sort_key cp_segments ps = q # qs"
    by (cases "sort_key cp_segments ps") (auto simp: ps_def object_paths_def dest: arg_cong [of _ _ length])
  define r' where "r' = r\<lparr>no_primary := q, no_aliases := qs\<rparr>"
  have paths: "object_paths r' = sort_key cp_segments ps"
    by (simp add: r'_def object_paths_def q)
  have "inj_on (\<lambda>p. if p = a then b else p) (set (object_paths r))"
    using assms(3) by (auto simp: inj_on_def names_def)
  then have "distinct (object_paths r')"
    using ordered_distinct [OF assms(1)] by (simp add: paths ps_def distinct_map)
  then have "ordered_names r'"
    by (intro ordered_namesI) (simp_all add: paths)
  moreover have "names r' = insert b (names r - {a})"
    using assms(2) by (auto simp: names_def paths ps_def)
  moreover have "replace_path a b r = Ok r'"
    using assms(2) q by (simp add: replace_path_def owns_path_names r'_def ps_def)
  moreover have "same_object r r'" by (simp add: r'_def same_object_def)
  ultimately show ?thesis using that by blast
qed

lemma remove_path_spec:
  assumes "ordered_names r" "p \<in> names r"
  obtains r' where "remove_path p r = Ok (if is_aliased r then Detached else Retired, r')" "same_object r r'"
    "is_aliased r \<Longrightarrow> ordered_names r' \<and> names r' = names r - {p}" "\<not> is_aliased r \<Longrightarrow> names r = {p}"
proof (cases "no_primary r = p")
  case True
  then show ?thesis
    using assms that by (cases "no_aliases r")
      (auto simp: remove_path_def is_aliased_def same_object_def names_def object_paths_def ordered_names_iff)
next
  case False
  let ?r = "r\<lparr>no_aliases := remove1 p (no_aliases r)\<rparr>"
  have p: "p \<in> set (no_aliases r)" using False assms(2) by (auto simp: names_def object_paths_def)
  have "ordered_names ?r"
    using assms(1) set_remove1_subset [of p "no_aliases r"]
    by (auto simp: ordered_names_iff object_paths_def sorted_map_remove1)
  moreover have "names ?r = names r - {p}"
    using False ordered_distinct [OF assms(1)] by (auto simp: names_def object_paths_def)
  moreover have "remove_path p r = Ok (Detached, ?r)" "is_aliased r"
    using False p by (auto simp: remove_path_def is_aliased_def)
  ultimately show ?thesis using that [of ?r] by (simp add: same_object_def)
qed

section \<open>The invariant\<close>

abbreviation path_object :: "NamespaceState \<Rightarrow> CanonicalPath \<Rightarrow> ObjectId option" where
  "path_object s \<equiv> fmlookup (nss_paths s)"

abbreviation live_object :: "NamespaceState \<Rightarrow> ObjectId \<Rightarrow> NamespaceObject option" where
  "live_object s \<equiv> fmlookup (nss_objects s)"

definition is_directory :: "NamespaceState \<Rightarrow> CanonicalPath \<Rightarrow> bool" where
  "is_directory s p \<longleftrightarrow> (\<exists>i d. path_object s p = Some i \<and> live_object s i = Some d \<and> no_kind d = Directory)"

text \<open>The identities that have been given out.\<close>

definition issued :: "NamespaceState \<Rightarrow> ObjectId \<Rightarrow> bool" where
  "issued s i \<longleftrightarrow> (\<exists>k. i = object_id k \<and> (case nss_next_object_sequence s of None \<Rightarrow> True | Some n \<Rightarrow> k < n))"

definition object_ok :: "NamespaceState \<Rightarrow> ObjectId \<Rightarrow> NamespaceObject \<Rightarrow> bool" where
  "object_ok s i r \<longleftrightarrow> no_id r = i \<and> issued s i \<and> ordered_names r \<and> (no_kind r = Directory \<longrightarrow> \<not> is_aliased r) \<and>
     (no_kind r = Symlink \<longleftrightarrow> no_link_target r \<noteq> None)"

definition ns_inv :: "NamespaceState \<Rightarrow> bool" where
  "ns_inv s \<longleftrightarrow>
     (\<forall>i r. live_object s i = Some r \<longrightarrow> object_ok s i r) \<and>
     (\<forall>p i. path_object s p = Some i \<longleftrightarrow> (\<exists>r. live_object s i = Some r \<and> p \<in> names r)) \<and>
     (\<forall>p i. path_object s p = Some i \<longrightarrow> wf_path p) \<and>
     (\<forall>p q i. path_object s p = Some i \<longrightarrow> CanonicalPath_parent p = Some q \<longrightarrow> is_directory s q) \<and>
     is_directory s CanonicalPath_root"

lemma ns_invD:
  assumes "ns_inv s"
  shows "live_object s i = Some r \<Longrightarrow> object_ok s i r"
    and "path_object s p = Some i \<longleftrightarrow> (\<exists>r. live_object s i = Some r \<and> p \<in> names r)"
    and "path_object s p = Some i \<Longrightarrow> wf_path p"
    and "path_object s p = Some i \<Longrightarrow> CanonicalPath_parent p = Some q \<Longrightarrow> is_directory s q"
    and "is_directory s CanonicalPath_root"
  using assms unfolding ns_inv_def by blast+

lemma ns_inv_path:
  assumes "ns_inv s" "path_object s p = Some i"
  obtains r where "live_object s i = Some r" "p \<in> names r" "object_ok s i r"
  using assms ns_invD(1,2) by blast

lemma ns_inv_names: "ns_inv s \<Longrightarrow> live_object s i = Some r \<Longrightarrow> p \<in> names r \<Longrightarrow> path_object s p = Some i"
  using ns_invD(2) by blast

lemma ns_inv_generation [simp]: "ns_inv (s\<lparr>nss_generation := g\<rparr>) = ns_inv s"
  by (simp add: ns_inv_def is_directory_def object_ok_def issued_def)

lemma directory_name:
  assumes "object_ok s i r" "no_kind r = Directory"
  shows "names r = {no_primary r}"
  using assms by (simp add: object_ok_def names_def object_paths_def is_aliased_def)

lemma primary_in_names [simp]: "no_primary r \<in> names r"
  by (simp add: names_def object_paths_def)

lemma primary_path: "ns_inv s \<Longrightarrow> live_object s i = Some r \<Longrightarrow> path_object s (no_primary r) = Some i"
  by (rule ns_inv_names) auto

lemma validate_parent_Ok:
  "validate_parent p s = Ok u \<longleftrightarrow> (\<exists>q. CanonicalPath_parent p = Some q \<and> is_directory s q)"
  by (auto simp: validate_parent_def is_directory_def split: option.splits if_splits)

lemma validate_new_path_Ok:
  "validate_new_path p s = Ok u \<longleftrightarrow>
     path_object s p = None \<and> (\<exists>q. CanonicalPath_parent p = Some q \<and> is_directory s q)"
  by (auto simp: validate_new_path_def validate_parent_Ok)

lemma object_id_inject [simp]: "object_id a = object_id b \<longleftrightarrow> a = b"
  by (auto simp: object_id_def word_unat_eq_iff)

lemma path_eta [simp]: "\<lparr>cp_segments = cp_segments p\<rparr> = (p :: CanonicalPath)"
  by (rule path_eqI) simp

text \<open>Every ancestor of a name is a live directory.\<close>

lemma ancestors_live:
  assumes "ns_inv s" "path_object s p = Some i" "prefix (cp_segments q) (cp_segments p)" "q \<noteq> p"
  shows "is_directory s q"
proof -
  have walk: "\<lbrakk>path_object s \<lparr>cp_segments = cp_segments q @ ws\<rparr> = Some i; ws \<noteq> []\<rbrakk> \<Longrightarrow> is_directory s q" for ws i
  proof (induction ws arbitrary: i rule: rev_induct)
    case (snoc w ws)
    have "is_directory s \<lparr>cp_segments = cp_segments q @ ws\<rparr>"
      using snoc.prems by (intro ns_invD(4) [OF assms(1) snoc.prems(1)]) (simp add: CanonicalPath_parent_def butlast_append)
    then show ?case
      using snoc.IH by (cases "ws = []") (auto simp: is_directory_def)
  qed simp
  obtain ws where ws: "cp_segments p = cp_segments q @ ws" using assms(3) by (auto simp: prefix_def)
  have "p = \<lparr>cp_segments = cp_segments q @ ws\<rparr>" by (rule path_eqI) (simp add: ws)
  with assms(2,4) walk [of ws i] show ?thesis by (cases "ws = []") auto
qed

section \<open>Creation\<close>

lemma issued_next: "nss_next_object_sequence s = Some n \<Longrightarrow> \<not> issued s (object_id n)"
  by (auto simp: issued_def)

lemma issued_mono:
  assumes "nss_next_object_sequence s = Some n"
  shows "issued (s\<lparr>nss_next_object_sequence := checked_add n 1\<rparr>) i \<longleftrightarrow> issued s i \<or> i = object_id n"
proof -
  have less: "k < c \<longleftrightarrow> k < n \<or> k = n" if "checked_add n 1 = Some c" for k c :: u64
    using that by (auto simp: checked_add_Some_iff word_less_nat_alt word_unat_eq_iff)
  have top: "k < n \<or> k = n" if "checked_add n 1 = None" for k :: u64
  proof -
    have "unat k < 2 ^ 64" using unsigned_less [of k] by simp
    with that show ?thesis by (auto simp: checked_add_None_iff word_less_nat_alt word_unat_eq_iff)
  qed
  show ?thesis
    using assms less top by (auto simp: issued_def split: option.splits)
qed

lemma allocate_object_Ok:
  "allocate_object p spec s = Ok (r, t) \<Longrightarrow>
     \<exists>n. nss_next_object_sequence s = Some n \<and> live_object s (object_id n) = None \<and>
       r = NamespaceObject_new (object_id n) p spec \<and>
       (case spec of SymlinkSpec target \<Rightarrow> \<exists>q. resolve_from target p = Ok q | _ \<Rightarrow> True) \<and>
       t = s\<lparr>nss_next_object_sequence := checked_add n 1, nss_paths := fmupd p (object_id n) (nss_paths s),
             nss_objects := fmupd (object_id n) r (nss_objects s)\<rparr>"
  by (auto simp: allocate_object_def and_then_Ok Let_def split: if_splits NamespaceObjectSpec.splits)

lemma allocate_not_violated:
  assumes "ns_inv s"
  shows "allocate_object p spec s \<noteq> Err NamespaceInvariantViolation"
proof -
  have "live_object s (object_id n) = None" if "nss_next_object_sequence s = Some n" for n
    using ns_invD(1) [OF assms, of "object_id n"] issued_next [OF that]
    by (cases "live_object s (object_id n)") (auto simp: object_ok_def)
  then show ?thesis
    by (auto simp: allocate_object_def and_then_def map_err_def ok_or_def Let_def split: sum.splits option.splits
        NamespaceObjectSpec.splits if_splits)
qed

lemma ns_inv_allocate:
  assumes inv: "ns_inv s" and p: "validate_new_path p s = Ok ()" "wf_path p" and alloc: "allocate_object p spec s = Ok (r, t)"
  shows "ns_inv t"
proof -
  obtain n where n: "nss_next_object_sequence s = Some n" "live_object s (object_id n) = None"
    and r: "r = NamespaceObject_new (object_id n) p spec"
    and t: "t = s\<lparr>nss_next_object_sequence := checked_add n 1, nss_paths := fmupd p (object_id n) (nss_paths s),
             nss_objects := fmupd (object_id n) r (nss_objects s)\<rparr>"
    using allocate_object_Ok [OF alloc] by blast
  have iss: "issued t i \<longleftrightarrow> issued s i \<or> i = object_id n" for i
    using issued_mono [OF n(1), of i] by (simp add: issued_def t)
  have free: "path_object s p = None" and parent: "CanonicalPath_parent p = Some q \<Longrightarrow> is_directory s q" for q
    using p(1) by (auto simp: validate_new_path_Ok)
  have dir: "is_directory s q \<Longrightarrow> is_directory t q" for q
    using free n(2) by (auto simp: is_directory_def t)
  have new: "object_ok t (object_id n) r"
    by (cases spec) (auto simp: object_ok_def r iss NamespaceObject_new_def is_aliased_def ordered_names_def object_paths_def)
  show ?thesis
    unfolding ns_inv_def
  proof (intro conjI allI impI)
    show "object_ok t i r'" if "live_object t i = Some r'" for i r'
      using that new ns_invD(1) [OF inv, of i r'] by (auto simp: t object_ok_def iss [unfolded t] split: if_splits)
    show "path_object t q = Some i \<longleftrightarrow> (\<exists>r. live_object t i = Some r \<and> q \<in> names r)" for q i
      using free n(2) ns_invD(2) [OF inv, of q i] by (auto simp: t r)
    show "wf_path q" if "path_object t q = Some i" for q i
      using that p(2) ns_invD(3) [OF inv, of q i] by (auto simp: t split: if_splits)
    show "is_directory t q'" if "path_object t q = Some i" "CanonicalPath_parent q = Some q'" for q q' i
      using that parent ns_invD(4) [OF inv, of q i q'] by (auto simp: t [THEN arg_cong, of nss_paths] intro!: dir split: if_splits)
    show "is_directory t CanonicalPath_root" by (rule dir [OF ns_invD(5) [OF inv]])
  qed
qed

section \<open>Aliases, removals and open counts\<close>

lemma same_object_ok:
  "same_object r r' \<Longrightarrow> object_ok s i r \<Longrightarrow> ordered_names r' \<Longrightarrow> (no_kind r = Directory \<Longrightarrow> \<not> is_aliased r') \<Longrightarrow>
     object_ok s i r'"
  by (auto simp: same_object_def object_ok_def)

lemma object_ok_cong: "nss_next_object_sequence t = nss_next_object_sequence s \<Longrightarrow> object_ok t i r = object_ok s i r"
  by (simp add: object_ok_def issued_def)

lemma attach_path_spec:
  assumes inv: "ns_inv s" and p: "path_object s p = None"
  obtains (unknown) "live_object s i = None" "attach_path i p s = Err (UnknownObject i)"
  | (directory) r where "live_object s i = Some r" "no_kind r = Directory" "attach_path i p s = Err (CannotAliasKind i Directory)"
  | (attached) r r' where "live_object s i = Some r" "no_kind r \<noteq> Directory" "ordered_names r'" "names r' = insert p (names r)"
      "same_object r r'"
      "attach_path i p s = Ok (r', s\<lparr>nss_objects := fmupd i r' (nss_objects s), nss_paths := fmupd p i (nss_paths s)\<rparr>)"
proof (cases "live_object s i")
  case None
  then show ?thesis using unknown by (simp add: attach_path_def)
next
  case (Some r)
  show ?thesis
  proof (cases "no_kind r = Directory")
    case True
    then show ?thesis using directory Some by (simp add: attach_path_def)
  next
    case False
    have "p \<notin> names r" using p ns_inv_names [OF inv Some, of p] by auto
    then obtain r' where "insert_path p r = Ok r'" "ordered_names r'" "names r' = insert p (names r)" "same_object r r'"
      using insert_path_spec ns_invD(1) [OF inv Some] by (metis object_ok_def)
    then show ?thesis using attached Some False by (simp add: attach_path_def)
  qed
qed

lemma ns_inv_attach:
  assumes inv: "ns_inv s" and p: "validate_new_path p s = Ok ()" "wf_path p" and att: "attach_path i p s = Ok (r', t)"
  shows "ns_inv t"
proof -
  have free: "path_object s p = None" and parent: "CanonicalPath_parent p = Some q \<Longrightarrow> is_directory s q" for q
    using p(1) by (auto simp: validate_new_path_Ok)
  obtain r where r: "live_object s i = Some r" "no_kind r \<noteq> Directory" "ordered_names r'" "names r' = insert p (names r)"
      "same_object r r'"
    and t: "t = s\<lparr>nss_objects := fmupd i r' (nss_objects s), nss_paths := fmupd p i (nss_paths s)\<rparr>"
    using att by (cases rule: attach_path_spec [OF inv free, of i]) auto
  have dir: "is_directory s q \<Longrightarrow> is_directory t q" for q
    using free r(1,2) by (auto simp: is_directory_def t)
  have ok: "object_ok s i r'"
    using same_object_ok [OF r(5) ns_invD(1) [OF inv r(1)] r(3)] r(2) by simp
  show ?thesis
    unfolding ns_inv_def
  proof (intro conjI allI impI)
    show "object_ok t j x" if "live_object t j = Some x" for j x
      using that ok ns_invD(1) [OF inv, of j x] by (auto simp: t object_ok_cong [of t s, unfolded t] split: if_splits)
    show "path_object t q = Some j \<longleftrightarrow> (\<exists>x. live_object t j = Some x \<and> q \<in> names x)" for q j
      using free r(1,4) ns_invD(2) [OF inv, of q j] ns_invD(2) [OF inv, of p j] by (auto simp: t)
    show "wf_path q" if "path_object t q = Some j" for q j
      using that p(2) ns_invD(3) [OF inv, of q j] by (auto simp: t split: if_splits)
    show "is_directory t q'" if "path_object t q = Some j" "CanonicalPath_parent q = Some q'" for q q' j
      using that parent ns_invD(4) [OF inv, of q j q'] by (auto simp: t [THEN arg_cong, of nss_paths] intro!: dir split: if_splits)
    show "is_directory t CanonicalPath_root" by (rule dir [OF ns_invD(5) [OF inv]])
  qed
qed

lemma ns_inv_count:
  assumes inv: "ns_inv s" and r: "live_object s i = Some r"
  shows "ns_inv (s\<lparr>nss_objects := fmupd i (r\<lparr>no_open_handle_count := n\<rparr>) (nss_objects s)\<rparr>)" (is "ns_inv ?t")
proof -
  have dir: "is_directory ?t q = is_directory s q" for q
    using r by (auto simp: is_directory_def)
  have ok: "object_ok s i (r\<lparr>no_open_handle_count := n\<rparr>)"
    using ns_invD(1) [OF inv r] by (simp add: object_ok_def is_aliased_def)
  show ?thesis
    unfolding ns_inv_def dir
  proof (intro conjI allI impI)
    show "object_ok ?t j x" if "live_object ?t j = Some x" for j x
      using that ok ns_invD(1) [OF inv, of j x] by (auto simp: object_ok_cong [of ?t s] split: if_splits)
    show "path_object ?t q = Some j \<longleftrightarrow> (\<exists>x. live_object ?t j = Some x \<and> q \<in> names x)" for q j
      using r ns_invD(2) [OF inv, of q j] by auto
  qed (use ns_invD(3-5) [OF inv] in auto)
qed

text \<open>What a removal that reaches the executor does, and that the internal error never arises.\<close>

lemma next_generation_Ok:
  "next_generation s = Ok g \<longleftrightarrow> unat (generation_u64 g) = unat (generation_u64 (nss_generation s)) + 1"
  by (cases g) (auto simp: next_generation_def checked_next_def checked_add_Some_iff)

lemma remove_record_spec:
  assumes inv: "ns_inv s" and r: "live_object s i = Some r" "p \<in> names r"
  shows "remove_record r p operation s \<noteq> Err NamespaceInvariantViolation"
    and "remove_record r p operation s = Ok (t, out) \<Longrightarrow>
      \<exists>g r'. next_generation s = Ok g \<and> out = operation r p \<and> \<not> CanonicalPath_is_root p \<and>
        t = s\<lparr>nss_paths := fmdrop p (nss_paths s), nss_generation := g, nss_objects :=
          if is_aliased r then fmupd i r' (nss_objects s) else fmdrop i (nss_objects s)\<rparr> \<and>
        (is_aliased r \<longrightarrow> same_object r r' \<and> ordered_names r' \<and> names r' = names r - {p}) \<and>
        (\<not> is_aliased r \<longrightarrow> names r = {p} \<and> no_open_handle_count r = 0 \<and>
          (\<forall>q. path_object s q \<noteq> None \<longrightarrow> CanonicalPath_is_at_or_below q p \<longrightarrow> q = p))"
proof -
  have ok: "object_ok s i r" by (rule ns_invD(1) [OF inv r(1)])
  then have i: "no_id r = i" and ord: "ordered_names r" by (simp_all add: object_ok_def)
  have p: "path_object s p = Some i" by (rule ns_inv_names [OF inv r])
  obtain r' where r': "remove_path p r = Ok (if is_aliased r then Detached else Retired, r')" "same_object r r'"
    "is_aliased r \<Longrightarrow> ordered_names r' \<and> names r' = names r - {p}" "\<not> is_aliased r \<Longrightarrow> names r = {p}"
    using remove_path_spec [OF ord r(2)] by blast
  have owns: "owns_path r p" using r(2) by (simp add: owns_path_names)
  show "remove_record r p operation s \<noteq> Err NamespaceInvariantViolation"
    using p r(1) r'(1) by (auto simp: remove_record_def owns i next_generation_def and_then_def ok_or_def Let_def
        split: option.splits)
  show "\<exists>g r'. next_generation s = Ok g \<and> out = operation r p \<and> \<not> CanonicalPath_is_root p \<and>
        t = s\<lparr>nss_paths := fmdrop p (nss_paths s), nss_generation := g, nss_objects :=
          if is_aliased r then fmupd i r' (nss_objects s) else fmdrop i (nss_objects s)\<rparr> \<and>
        (is_aliased r \<longrightarrow> same_object r r' \<and> ordered_names r' \<and> names r' = names r - {p}) \<and>
        (\<not> is_aliased r \<longrightarrow> names r = {p} \<and> no_open_handle_count r = 0 \<and>
          (\<forall>q. path_object s q \<noteq> None \<longrightarrow> CanonicalPath_is_at_or_below q p \<longrightarrow> q = p))"
    if "remove_record r p operation s = Ok (t, out)"
  proof -
    from that obtain g where g: "next_generation s = Ok g" "out = operation r p" "\<not> CanonicalPath_is_root p"
      and t: "t = s\<lparr>nss_paths := fmdrop p (nss_paths s), nss_generation := g, nss_objects :=
          if is_aliased r then fmupd i r' (nss_objects s) else fmdrop i (nss_objects s)\<rparr>"
      and empty: "\<not> is_aliased r \<Longrightarrow> no_open_handle_count r = 0 \<and>
          \<not> fBex (fmdom (nss_paths s)) (\<lambda>c. c \<noteq> p \<and> CanonicalPath_is_at_or_below c p)"
      using p r(1) r'(1) by (auto simp: remove_record_def owns i and_then_Ok Let_def split: if_splits)
    have "\<forall>q. path_object s q \<noteq> None \<longrightarrow> CanonicalPath_is_at_or_below q p \<longrightarrow> q = p" if "\<not> is_aliased r"
      using empty [OF that] by (auto simp: fmlookup_dom_iff)
    then show ?thesis using g t r' empty by blast
  qed
qed

lemma parent_below: 
  assumes "CanonicalPath_parent q = Some p"
  shows "CanonicalPath_is_at_or_below q p \<and> q \<noteq> p"
proof -
  have seg: "cp_segments p = butlast (cp_segments q)" "cp_segments q \<noteq> []"
    using assms by (auto simp: CanonicalPath_parent_def split: if_splits)
  then have "length (cp_segments p) < length (cp_segments q)" by simp
  then have "q \<noteq> p" by auto
  then show ?thesis using seg(1) by (auto simp: CanonicalPath_is_at_or_below_def prefixeq_butlast)
qed

lemma ns_inv_remove:
  assumes inv: "ns_inv s" and r: "live_object s i = Some r" "p \<in> names r"
    and rem: "remove_record r p operation s = Ok (t, out)"
  shows "ns_inv t"
proof -
  obtain g r' where root: "\<not> CanonicalPath_is_root p"
    and t: "t = s\<lparr>nss_paths := fmdrop p (nss_paths s), nss_generation := g, nss_objects :=
          if is_aliased r then fmupd i r' (nss_objects s) else fmdrop i (nss_objects s)\<rparr>"
    and many: "is_aliased r \<longrightarrow> same_object r r' \<and> ordered_names r' \<and> names r' = names r - {p}"
    and last: "\<not> is_aliased r \<longrightarrow> names r = {p} \<and> no_open_handle_count r = 0 \<and>
          (\<forall>q. path_object s q \<noteq> None \<longrightarrow> CanonicalPath_is_at_or_below q p \<longrightarrow> q = p)"
    using remove_record_spec(2) [OF inv r rem] by blast
  have ok: "object_ok s i r" by (rule ns_invD(1) [OF inv r(1)])
  have p: "path_object s p = Some i" by (rule ns_inv_names [OF inv r])
  have kind: "is_aliased r \<Longrightarrow> no_kind r \<noteq> Directory" using ok by (auto simp: object_ok_def)
  have dir: "is_directory t q" if q: "is_directory s q" "q \<noteq> p" for q
  proof -
    obtain j d where d: "path_object s q = Some j" "live_object s j = Some d" "no_kind d = Directory"
      using q(1) by (auto simp: is_directory_def)
    have "q \<in> names d" using ns_inv_path [OF inv d(1)] d(2) by auto
    then have "j \<noteq> i" using d r(1) kind last q(2) by auto
    then show ?thesis using d q(2) by (auto simp: is_directory_def t)
  qed
  have live: "live_object t j = (if j = i then (if is_aliased r then Some r' else None) else live_object s j)" for j
    by (simp add: t)
  have ok': "is_aliased r \<Longrightarrow> object_ok s i r'"
    using many kind by (intro same_object_ok [OF _ ok]) auto
  show ?thesis
    unfolding ns_inv_def
  proof (intro conjI allI impI)
    show "object_ok t j x" if "live_object t j = Some x" for j x
      using that ok' ns_invD(1) [OF inv, of j x] by (auto simp: live object_ok_cong [of t s] t [THEN arg_cong, of nss_next_object_sequence] split: if_splits)
    show "path_object t q = Some j \<longleftrightarrow> (\<exists>x. live_object t j = Some x \<and> q \<in> names x)" for q j
      using many last r p ns_invD(2) [OF inv, of q j] ns_invD(2) [OF inv, of p j] by (auto simp: live t [THEN arg_cong, of nss_paths])
    show "wf_path q" if "path_object t q = Some j" for q j
      using that ns_invD(3) [OF inv, of q j] by (auto simp: t split: if_splits)
    show "is_directory t q'" if "path_object t q = Some j" "CanonicalPath_parent q = Some q'" for q q' j
    proof (rule dir)
      have q: "path_object s q = Some j" using that(1) by (auto simp: t split: if_splits)
      show d: "is_directory s q'" by (rule ns_invD(4) [OF inv q that(2)])
      show "q' \<noteq> p"
        using d p r(1) kind last parent_below [OF that(2)] q by (auto simp: is_directory_def)
    qed
    show "is_directory t CanonicalPath_root"
      using root by (intro dir [OF ns_invD(5) [OF inv]]) (auto simp: CanonicalPath_is_root_def CanonicalPath_root_def)
  qed
qed

end
