(* ===== verification/Namespace_Rename.thy ===== *)
theory Namespace_Rename
  imports Namespace_Invariant
begin

text \<open>
  Renames of the namespace: the loops of \<open>rename_records\<close> move exactly the names at or below the
  source, each to the same place below the destination, and keep everything else; whether and how a
  rename is refused does not depend on the iteration order except for which open object is named.
\<close>

section \<open>The iteration order\<close>

lemma set_hash_order: "(p, i) \<in> set (hash_order rank m) \<longleftrightarrow> fmlookup m p = Some i"
  by (force simp: hash_order_def fmlookup_dom_iff image_iff)

lemma distinct_hash_order: "distinct (map fst (hash_order rank m))"
  by (auto simp: hash_order_def comp_def distinct_map inj_on_def sorted_list_of_fset.rep_eq)

section \<open>Moving names\<close>

definition relabel :: "CanonicalPath \<Rightarrow> CanonicalPath \<Rightarrow> CanonicalPath \<Rightarrow> CanonicalPath" where
  "relabel source destination p =
     \<lparr>cp_segments = cp_segments destination @ drop (length (cp_segments source)) (cp_segments p)\<rparr>"

text \<open>Where a name is after the rename.\<close>

definition moved_name :: "CanonicalPath \<Rightarrow> CanonicalPath \<Rightarrow> CanonicalPath \<Rightarrow> CanonicalPath" where
  "moved_name source destination p =
     (if CanonicalPath_is_at_or_below p source then relabel source destination p else p)"

lemma below_iff: "CanonicalPath_is_at_or_below p a \<longleftrightarrow> (\<exists>ws. cp_segments p = cp_segments a @ ws)"
  by (auto simp: CanonicalPath_is_at_or_below_def prefix_def)

lemma relabel_below [simp]: "CanonicalPath_is_at_or_below (relabel source destination p) destination"
  by (auto simp: below_iff relabel_def)

lemma relabel_back:
  "CanonicalPath_is_at_or_below p source \<Longrightarrow> relabel destination source (relabel source destination p) = p"
  by (auto simp: below_iff relabel_def intro: path_eqI)

lemma relabel_source [simp]: "relabel source destination source = destination"
  by (rule path_eqI) (simp add: relabel_def)

lemma relabel_inject:
  "CanonicalPath_is_at_or_below p source \<Longrightarrow> CanonicalPath_is_at_or_below q source \<Longrightarrow>
     relabel source destination p = relabel source destination q \<longleftrightarrow> p = q"
  by (metis relabel_back)

lemma rebase_relabel:
  assumes "wf_path p" "wf_path destination" "CanonicalPath_rebase p source destination = Some q"
  shows "q = relabel source destination p \<and> wf_path q"
  using assms CanonicalPath_rebase_Some [of p destination source q] by (auto simp: relabel_def intro: path_eqI)

lemma at_or_below_trans:
  "CanonicalPath_is_at_or_below p q \<Longrightarrow> CanonicalPath_is_at_or_below q a \<Longrightarrow> CanonicalPath_is_at_or_below p a"
  by (auto simp: CanonicalPath_is_at_or_below_def intro: prefix_order.trans)

lemma at_or_below_refl [simp]: "CanonicalPath_is_at_or_below p p"
  by (simp add: CanonicalPath_is_at_or_below_def)

section \<open>Planning\<close>

definition move_of ::
    "CanonicalPath \<Rightarrow> CanonicalPath \<Rightarrow> (ObjectId, NamespaceObject) fmap \<Rightarrow> CanonicalPath \<times> ObjectId \<Rightarrow> NamespaceMove" where
  "move_of source destination objects e =
     (let r = the (fmlookup objects (snd e)) in
      \<lparr>nm_object = no_id r, nm_source = fst e, nm_destination = the (CanonicalPath_rebase (fst e) source destination),
       nm_kind = no_kind r, nm_expected_link_count = expected_link_count r\<rparr>)"

text \<open>The reason an entry cannot be moved, if there is one.\<close>

definition move_error ::
    "CanonicalPath \<Rightarrow> CanonicalPath \<Rightarrow> (ObjectId, NamespaceObject) fmap \<Rightarrow> CanonicalPath \<times> ObjectId \<Rightarrow> NamespaceError option" where
  "move_error source destination objects e = (case fmlookup objects (snd e) of
     None \<Rightarrow> Some NamespaceInvariantViolation
   | Some r \<Rightarrow> if no_open_handle_count r \<noteq> 0 then Some (OpenHandleInSubtree (no_id r))
       else if CanonicalPath_rebase (fst e) source destination = None then Some NamespaceInvariantViolation else None)"

lemma plan_moves_exact:
  "plan_moves source destination objects es =
     (case List.find (\<lambda>e. move_error source destination objects e \<noteq> None) es of
        None \<Rightarrow> Ok (map (move_of source destination objects) es)
      | Some e \<Rightarrow> Err (the (move_error source destination objects e)))"
proof (induction es)
  case (Cons e es)
  have "plan_moves source destination objects (e # es) = (case move_error source destination objects e of
      Some x \<Rightarrow> Err x
    | None \<Rightarrow> and_then (plan_moves source destination objects es) (\<lambda>ms. Ok (move_of source destination objects e # ms)))"
    by (cases e) (auto simp: move_error_def move_of_def Let_def split: option.splits)
  with Cons.IH show ?case
    by (cases "move_error source destination objects e") (simp_all split: option.split)
qed simp

lemma plan_moves_Ok:
  "plan_moves source destination objects es = Ok ms \<longleftrightarrow>
     (\<forall>e\<in>set es. move_error source destination objects e = None) \<and> ms = map (move_of source destination objects) es"
  by (auto simp: plan_moves_exact find_None_iff find_Some_iff split: option.splits)

lemma plan_moves_Err:
  "plan_moves source destination objects es = Err x \<Longrightarrow> \<exists>e\<in>set es. move_error source destination objects e = Some x"
  by (auto simp: plan_moves_exact find_Some_iff split: option.splits)

section \<open>Entering the new names\<close>

definition moved_from :: "NamespaceMove list \<Rightarrow> ObjectId \<Rightarrow> CanonicalPath set" where
  "moved_from ms i = nm_source ` {m \<in> set ms. nm_object m = i}"

definition moved_to :: "NamespaceMove list \<Rightarrow> ObjectId \<Rightarrow> CanonicalPath set" where
  "moved_to ms i = nm_destination ` {m \<in> set ms. nm_object m = i}"

definition ready :: "NamespaceMove list \<Rightarrow> NamespaceState \<Rightarrow> bool" where
  "ready ms s \<longleftrightarrow> distinct (map nm_source ms) \<and> distinct (map nm_destination ms) \<and>
     nm_source ` set ms \<inter> nm_destination ` set ms = {} \<and>
     (\<forall>i r. live_object s i = Some r \<longrightarrow> ordered_names r \<and> names r \<inter> nm_destination ` set ms = {}) \<and>
     (\<forall>m\<in>set ms. path_object s (nm_destination m) = None \<and>
        (\<exists>r. live_object s (nm_object m) = Some r \<and> nm_source m \<in> names r))"

definition entered :: "NamespaceMove list \<Rightarrow> NamespaceState \<Rightarrow> NamespaceState \<Rightarrow> bool" where
  "entered ms s t \<longleftrightarrow>
     (\<forall>p i. path_object t p = Some i \<longleftrightarrow> path_object s p = Some i \<or> p \<in> moved_to ms i) \<and>
     (\<forall>i. live_object t i = None \<longleftrightarrow> live_object s i = None) \<and>
     (\<forall>i r r'. live_object s i = Some r \<longrightarrow> live_object t i = Some r' \<longrightarrow>
        same_object r r' \<and> ordered_names r' \<and> names r' = (names r - moved_from ms i) \<union> moved_to ms i) \<and>
     nss_next_object_sequence t = nss_next_object_sequence s \<and> nss_generation t = nss_generation s"

lemma enteredD:
  assumes "entered ms s t"
  shows "path_object t p = Some i \<longleftrightarrow> path_object s p = Some i \<or> p \<in> moved_to ms i"
    and "live_object t i = None \<longleftrightarrow> live_object s i = None"
    and "live_object s i = Some r \<Longrightarrow> live_object t i = Some r' \<Longrightarrow>
      same_object r r' \<and> ordered_names r' \<and> names r' = (names r - moved_from ms i) \<union> moved_to ms i"
    and "nss_next_object_sequence t = nss_next_object_sequence s" "nss_generation t = nss_generation s"
  using assms unfolding entered_def by blast+

lemma moved_Cons:
  "moved_from (m # ms) i = (if nm_object m = i then insert (nm_source m) (moved_from ms i) else moved_from ms i)"
  "moved_to (m # ms) i = (if nm_object m = i then insert (nm_destination m) (moved_to ms i) else moved_to ms i)"
  by (auto simp: moved_from_def moved_to_def)

lemma enter_destinations_spec:
  "ready ms s \<Longrightarrow> \<exists>t. enter_destinations ms s = Ok t \<and> entered ms s t"
proof (induction ms arbitrary: s)
  case Nil
  then show ?case by (auto simp: entered_def ready_def moved_from_def moved_to_def)
next
  case (Cons m ms)
  obtain r where r: "live_object s (nm_object m) = Some r" "nm_source m \<in> names r"
    and free: "path_object s (nm_destination m) = None"
    using Cons.prems by (auto simp: ready_def)
  have "ordered_names r" "nm_destination m \<notin> names r"
    using Cons.prems r(1) by (auto simp: ready_def)
  then obtain r' where r': "replace_path (nm_source m) (nm_destination m) r = Ok r'" "ordered_names r'"
      "names r' = insert (nm_destination m) (names r - {nm_source m})" "same_object r r'"
    using replace_path_spec r(2) by blast
  define s1 where "s1 = s\<lparr>nss_objects := fmupd (nm_object m) r' (nss_objects s),
    nss_paths := fmupd (nm_destination m) (nm_object m) (nss_paths s)\<rparr>"
  note prems = Cons.prems [unfolded ready_def]
  have dest: "nm_destination m \<notin> nm_destination ` set ms" "nm_source m \<notin> nm_source ` set ms"
    "nm_source m \<notin> nm_destination ` set ms" "nm_destination m \<notin> nm_source ` set ms"
    using prems by auto
  have "ready ms s1"
    unfolding ready_def
  proof (intro conjI allI impI ballI)
    show "distinct (map nm_source ms)" "distinct (map nm_destination ms)"
      "nm_source ` set ms \<inter> nm_destination ` set ms = {}"
      using prems by auto
    show "ordered_names x" if "live_object s1 i = Some x" for i x
      using that prems r'(2) by (auto simp: s1_def split: if_splits)
    have names: "names x \<inter> nm_destination ` set ms = {}" if "live_object s i = Some x" for i x
      using that prems by auto
    show "names x \<inter> nm_destination ` set ms = {}" if "live_object s1 i = Some x" for i x
      using that names [of i x] names [OF r(1)] r'(3) dest(1) by (auto simp: s1_def split: if_splits)
    show "path_object s1 (nm_destination n) = None" if "n \<in> set ms" for n
      using that prems dest(1) by (auto simp: s1_def)
    show "\<exists>x. live_object s1 (nm_object n) = Some x \<and> nm_source n \<in> names x" if n: "n \<in> set ms" for n
    proof -
      obtain x where x: "live_object s (nm_object n) = Some x" "nm_source n \<in> names x" using n prems by auto
      have "nm_source n \<noteq> nm_source m" using n dest(2) by (metis imageI)
      then show ?thesis using x r(1) r'(3) by (cases "nm_object n = nm_object m") (auto simp: s1_def)
    qed
  qed
  then obtain t where t: "enter_destinations ms s1 = Ok t" "entered ms s1 t"
    using Cons.IH by blast
  have step: "enter_destinations (m # ms) s = Ok t"
    using t(1) free r(1) r'(1) by (simp add: s1_def)
  have disj: "nm_destination m \<notin> moved_from ms i" "nm_source m \<notin> moved_to ms i" for i
    using Cons.prems by (auto simp: ready_def moved_from_def moved_to_def)
  note t' = t(2) [unfolded entered_def]
  have "entered (m # ms) s t"
    unfolding entered_def
  proof (intro conjI allI impI)
    show "path_object t p = Some i \<longleftrightarrow> path_object s p = Some i \<or> p \<in> moved_to (m # ms) i" for p i
    proof -
      have "path_object t p = Some i \<longleftrightarrow> path_object s1 p = Some i \<or> p \<in> moved_to ms i" using t' by blast
      then show ?thesis using free by (auto simp: s1_def moved_Cons split: if_splits)
    qed
    show "live_object t i = None \<longleftrightarrow> live_object s i = None" for i
    proof -
      have "live_object t i = None \<longleftrightarrow> live_object s1 i = None" using t' by blast
      then show ?thesis using r(1) by (auto simp: s1_def)
    qed
    fix i x x'
    assume x: "live_object s i = Some x" "live_object t i = Some x'"
    define y where "y = (if i = nm_object m then r' else x)"
    have "live_object s1 i = Some y" using x(1) by (simp add: s1_def y_def)
    with x(2) have y: "same_object y x'" "ordered_names x'" "names x' = (names y - moved_from ms i) \<union> moved_to ms i"
      using t' by blast+
    show "ordered_names x'" by (rule y(2))
    show "same_object x x'"
      using y(1) x(1) r(1) r'(4) by (auto simp: y_def intro: same_object_trans split: if_splits)
    show "names x' = (names x - moved_from (m # ms) i) \<union> moved_to (m # ms) i"
      using y(3) x(1) r(1) r'(3) disj [of i] by (auto simp: y_def moved_Cons split: if_splits)
  qed (use t' in \<open>auto simp: s1_def\<close>)
  with step show ?case by blast
qed

lemma clear_sources_spec:
  assumes "distinct (map nm_source ms)" "\<forall>m\<in>set ms. fmlookup paths (nm_source m) \<noteq> None"
  shows "\<exists>q. clear_sources ms paths = Ok q \<and> (\<forall>p. fmlookup q p = (if p \<in> nm_source ` set ms then None else fmlookup paths p))"
  using assms
proof (induction ms arbitrary: paths)
  case (Cons m ms)
  have "nm_source n \<noteq> nm_source m" if "n \<in> set ms" for n
    using that Cons.prems(1) by (metis distinct.simps(2) imageI list.simps(9) set_map)
  then have "\<forall>n\<in>set ms. fmlookup (fmdrop (nm_source m) paths) (nm_source n) \<noteq> None"
    using Cons.prems(2) by simp
  moreover have "distinct (map nm_source ms)" using Cons.prems(1) by simp
  ultimately obtain q where q: "clear_sources ms (fmdrop (nm_source m) paths) = Ok q"
      "\<forall>p. fmlookup q p = (if p \<in> nm_source ` set ms then None else fmlookup (fmdrop (nm_source m) paths) p)"
    using Cons.IH by blast
  have "clear_sources (m # ms) paths = Ok q" using Cons.prems(2) q(1) by simp
  moreover have "fmlookup q p = (if p \<in> nm_source ` set (m # ms) then None else fmlookup paths p)" for p
    using q(2) by simp
  ultimately show ?case by blast
qed simp

section \<open>The whole rename\<close>

text \<open>The moves a rename hands to the executor: one for each name at or below the source, in path order.\<close>

definition planned :: "CanonicalPath \<Rightarrow> CanonicalPath \<Rightarrow> NamespaceState \<Rightarrow> NamespaceMove list \<Rightarrow> bool" where
  "planned source destination s ms \<longleftrightarrow>
     sorted_wrt (<) (map (\<lambda>m. cp_segments (nm_source m)) ms) \<and>
     (\<forall>m. m \<in> set ms \<longleftrightarrow> (\<exists>p i r. path_object s p = Some i \<and> CanonicalPath_is_at_or_below p source \<and> live_object s i = Some r \<and>
        m = \<lparr>nm_object = i, nm_source = p, nm_destination = relabel source destination p, nm_kind = no_kind r,
             nm_expected_link_count = expected_link_count r\<rparr>))"

text \<open>The namespace after a rename.\<close>

definition renamed :: "CanonicalPath \<Rightarrow> CanonicalPath \<Rightarrow> NamespaceState \<Rightarrow> NamespaceState \<Rightarrow> bool" where
  "renamed source destination s t \<longleftrightarrow>
     (\<forall>p. path_object t p =
        (if CanonicalPath_is_at_or_below p destination then path_object s (relabel destination source p)
         else if CanonicalPath_is_at_or_below p source then None else path_object s p)) \<and>
     (\<forall>i. live_object t i = None \<longleftrightarrow> live_object s i = None) \<and>
     (\<forall>i r r'. live_object s i = Some r \<longrightarrow> live_object t i = Some r' \<longrightarrow>
        same_object r r' \<and> ordered_names r' \<and> names r' = moved_name source destination ` names r) \<and>
     nss_next_object_sequence t = nss_next_object_sequence s"

text \<open>The entries at or below the source that cannot be moved.\<close>

definition blocked :: "CanonicalPath \<Rightarrow> CanonicalPath \<Rightarrow> NamespaceState \<Rightarrow> NamespaceError \<Rightarrow> bool" where
  "blocked source destination s e \<longleftrightarrow>
     (\<exists>p i r. path_object s p = Some i \<and> CanonicalPath_is_at_or_below p source \<and> live_object s i = Some r \<and>
        (if no_open_handle_count r \<noteq> 0 then e = OpenHandleInSubtree i
         else CanonicalPath_rebase p source destination = None \<and> e = NamespaceInvariantViolation))"

definition subtree_entries :: "(string list \<Rightarrow> nat) \<Rightarrow> CanonicalPath \<Rightarrow> NamespaceState \<Rightarrow> (CanonicalPath \<times> ObjectId) list" where
  "subtree_entries rank source s =
     filter (\<lambda>(path, _). CanonicalPath_is_at_or_below path source) (hash_order rank (nss_paths s))"

lemma set_subtree_entries:
  "(p, i) \<in> set (subtree_entries rank source s) \<longleftrightarrow> path_object s p = Some i \<and> CanonicalPath_is_at_or_below p source"
  by (auto simp: subtree_entries_def set_hash_order)

lemma move_error_blocked:
  assumes "ns_inv s" "e \<in> set (subtree_entries rank source s)" "move_error source destination (nss_objects s) e = Some x"
  shows "blocked source destination s x"
proof -
  obtain p i where e: "e = (p, i)" "path_object s p = Some i" "CanonicalPath_is_at_or_below p source"
    using assms(2) set_subtree_entries [of "fst e" "snd e" rank source s] by (metis prod.collapse)
  obtain r where "live_object s i = Some r" "no_id r = i"
    using ns_inv_path [OF assms(1) e(2)] by (auto simp: object_ok_def)
  then show ?thesis
    using assms(3) e unfolding blocked_def by (intro exI [of _ p] exI [of _ i] exI [of _ r])
      (auto simp: move_error_def split: if_splits)
qed

lemma move_error_none:
  assumes "ns_inv s" "wf_path destination" "path_object s p = Some i" "CanonicalPath_is_at_or_below p source"
    "move_error source destination (nss_objects s) (p, i) = None"
  obtains r where "live_object s i = Some r" "no_open_handle_count r = 0" "wf_path (relabel source destination p)"
    "move_of source destination (nss_objects s) (p, i) = \<lparr>nm_object = i, nm_source = p,
       nm_destination = relabel source destination p, nm_kind = no_kind r, nm_expected_link_count = expected_link_count r\<rparr>"
proof -
  obtain r where r: "live_object s i = Some r" "no_id r = i"
    using ns_inv_path [OF assms(1,3)] by (auto simp: object_ok_def)
  obtain q where q: "CanonicalPath_rebase p source destination = Some q" "no_open_handle_count r = 0"
    using assms(5) r by (auto simp: move_error_def split: if_splits)
  then have "q = relabel source destination p" "wf_path q"
    using rebase_relabel [OF ns_invD(3) [OF assms(1,3)] assms(2) q(1)] by auto
  then show ?thesis using that [OF r(1) q(2)] r q(1) by (simp add: move_of_def Let_def)
qed

lemma planned_moves:
  assumes inv: "ns_inv s" and wf: "wf_path destination"
    and plan: "plan_moves source destination (nss_objects s) (subtree_entries rank source s) = Ok ms"
  shows "planned source destination s (sort_key (\<lambda>m. cp_segments (nm_source m)) ms)"
    and "path_object s p = Some i \<Longrightarrow> CanonicalPath_is_at_or_below p source \<Longrightarrow> wf_path (relabel source destination p)"
    and "path_object s p = Some i \<Longrightarrow> CanonicalPath_is_at_or_below p source \<Longrightarrow> live_object s i = Some r \<Longrightarrow>
      no_open_handle_count r = 0"
proof -
  have ok: "move_error source destination (nss_objects s) e = None" if "e \<in> set (subtree_entries rank source s)" for e
    using plan that by (simp add: plan_moves_Ok)
  have ms: "ms = map (move_of source destination (nss_objects s)) (subtree_entries rank source s)"
    using plan by (simp add: plan_moves_Ok)
  have entry: "\<exists>r. live_object s i = Some r \<and> no_open_handle_count r = 0 \<and> wf_path (relabel source destination p) \<and>
      move_of source destination (nss_objects s) (p, i) = \<lparr>nm_object = i, nm_source = p,
        nm_destination = relabel source destination p, nm_kind = no_kind r, nm_expected_link_count = expected_link_count r\<rparr>"
    if "path_object s p = Some i" "CanonicalPath_is_at_or_below p source" for p i
    using move_error_none [OF inv wf that ok] that by (metis set_subtree_entries)
  show "path_object s p = Some i \<Longrightarrow> CanonicalPath_is_at_or_below p source \<Longrightarrow> wf_path (relabel source destination p)"
    "path_object s p = Some i \<Longrightarrow> CanonicalPath_is_at_or_below p source \<Longrightarrow> live_object s i = Some r \<Longrightarrow>
      no_open_handle_count r = 0"
    using entry [of p i] by auto
  have sources: "map nm_source ms = map fst (subtree_entries rank source s)"
    by (simp add: ms move_of_def Let_def comp_def)
  have "distinct (map fst (subtree_entries rank source s))"
    using distinct_hash_order [of rank "nss_paths s"] by (simp add: subtree_entries_def distinct_map_filter)
  then have "distinct (map nm_source (sort_key (\<lambda>m. cp_segments (nm_source m)) ms))"
    unfolding sources [symmetric] by (simp add: distinct_map)
  then have "distinct (map cp_segments (map nm_source (sort_key (\<lambda>m. cp_segments (nm_source m)) ms)))"
    by (simp only: distinct_map inj_cp_segments simp_thms)
  then have "sorted_wrt (<) (map (\<lambda>m. cp_segments (nm_source m)) (sort_key (\<lambda>m. cp_segments (nm_source m)) ms))"
    unfolding strict_sorted_iff by (simp add: comp_def)
  moreover have "m \<in> set ms \<longleftrightarrow> (\<exists>p i r. path_object s p = Some i \<and> CanonicalPath_is_at_or_below p source \<and> live_object s i = Some r \<and>
        m = \<lparr>nm_object = i, nm_source = p, nm_destination = relabel source destination p, nm_kind = no_kind r,
             nm_expected_link_count = expected_link_count r\<rparr>)" for m
  proof -
    have "m \<in> set ms \<longleftrightarrow> (\<exists>p i. path_object s p = Some i \<and> CanonicalPath_is_at_or_below p source \<and>
        m = move_of source destination (nss_objects s) (p, i))"
      by (auto simp: ms image_iff set_subtree_entries Bex_def)
    then show ?thesis using entry by fastforce
  qed
  ultimately show "planned source destination s (sort_key (\<lambda>m. cp_segments (nm_source m)) ms)"
    by (simp add: planned_def)
qed

lemma validate_not_violated:
  assumes "ns_inv s"
  shows "validate_parent p s \<noteq> Err NamespaceInvariantViolation" and "validate_new_path p s \<noteq> Err NamespaceInvariantViolation"
proof -
  show parent: "validate_parent p s \<noteq> Err NamespaceInvariantViolation"
  proof (cases "\<exists>q i. CanonicalPath_parent p = Some q \<and> path_object s q = Some i")
    case True
    then obtain q i where q: "CanonicalPath_parent p = Some q" "path_object s q = Some i" by blast
    obtain r where "live_object s i = Some r" using ns_inv_path [OF assms q(2)] .
    with q show ?thesis by (simp add: validate_parent_def)
  next
    case False
    then show ?thesis by (auto simp: validate_parent_def split: option.splits)
  qed
  then show "validate_new_path p s \<noteq> Err NamespaceInvariantViolation"
    by (simp add: validate_new_path_def)
qed

lemma is_root_iff: "CanonicalPath_is_root p \<longleftrightarrow> p = CanonicalPath_root"
  by (cases p) (simp add: CanonicalPath_is_root_def CanonicalPath_root_def)

lemma option_eqI: "(\<And>x. a = Some x \<longleftrightarrow> b = Some x) \<Longrightarrow> a = b"
  by (cases a; cases b) auto

lemma destination_free:
  assumes "ns_inv s" "path_object s destination = None" "path_object s p = Some i"
  shows "\<not> CanonicalPath_is_at_or_below p destination"
proof
  assume below: "CanonicalPath_is_at_or_below p destination"
  have "is_directory s destination"
    using assms below by (intro ancestors_live [OF assms(1,3)]) (auto simp: CanonicalPath_is_at_or_below_def)
  with assms(2) show False by (simp add: is_directory_def)
qed

lemma planned_ready:
  assumes inv: "ns_inv s" and plan: "planned source destination s ms" and free: "path_object s destination = None"
    and away: "\<not> CanonicalPath_is_at_or_below destination source"
  shows "ready ms (s\<lparr>nss_paths := paths\<rparr>) \<longleftrightarrow> (\<forall>m\<in>set ms. fmlookup paths (nm_destination m) = None)"
proof -
  have mem: "\<exists>p i r. path_object s p = Some i \<and> CanonicalPath_is_at_or_below p source \<and> live_object s i = Some r \<and>
      nm_object m = i \<and> nm_source m = p \<and> nm_destination m = relabel source destination p" if "m \<in> set ms" for m
    using plan that by (auto simp: planned_def)
  have distinct: "distinct (map nm_source ms)"
    using plan by (auto simp: planned_def strict_sorted_iff distinct_map inj_on_def)
  have "inj_on nm_destination (set ms)"
    using distinct mem by (fastforce simp: distinct_map inj_on_def relabel_inject)
  then have "distinct (map nm_destination ms)" using distinct by (simp add: distinct_map)
  moreover have fresh: "path_object s (nm_destination m) = None" if "m \<in> set ms" for m
    using mem [OF that] destination_free [OF inv free, of "nm_destination m"]
    by (cases "path_object s (nm_destination m)") auto
  then have "nm_source ` set ms \<inter> nm_destination ` set ms = {}" using mem by fastforce
  moreover have "ordered_names r" "names r \<inter> nm_destination ` set ms = {}" if "live_object s i = Some r" for i r
    using ns_invD(1) [OF inv that] ns_inv_names [OF inv that] fresh by (fastforce simp: object_ok_def)+
  moreover have "\<exists>r. live_object s (nm_object m) = Some r \<and> nm_source m \<in> names r" if "m \<in> set ms" for m
    using mem [OF that] ns_invD(2) [OF inv] by blast
  ultimately show ?thesis using distinct by (auto simp: ready_def)
qed

lemma planned_moved:
  assumes inv: "ns_inv s" and plan: "planned source destination s ms"
  shows "nm_source ` set ms = {p. path_object s p \<noteq> None \<and> CanonicalPath_is_at_or_below p source}"
    and "p \<in> moved_to ms i \<longleftrightarrow>
      (\<exists>q. path_object s q = Some i \<and> CanonicalPath_is_at_or_below q source \<and> p = relabel source destination q)"
    and "p \<in> moved_from ms i \<longleftrightarrow> path_object s p = Some i \<and> CanonicalPath_is_at_or_below p source"
proof -
  have live: "\<exists>r. live_object s i = Some r" if "path_object s p = Some i" for p i
    using ns_inv_path [OF inv that] by blast
  have mem: "m \<in> set ms \<longleftrightarrow> (\<exists>p i r. path_object s p = Some i \<and> CanonicalPath_is_at_or_below p source \<and> live_object s i = Some r \<and>
        m = \<lparr>nm_object = i, nm_source = p, nm_destination = relabel source destination p, nm_kind = no_kind r,
             nm_expected_link_count = expected_link_count r\<rparr>)" for m
    using plan by (auto simp: planned_def)
  have in_ms: "\<exists>m\<in>set ms. nm_source m = q \<and> nm_object m = j \<and> nm_destination m = relabel source destination q"
    if q: "path_object s q = Some j" "CanonicalPath_is_at_or_below q source" for q j
  proof -
    obtain r where "live_object s j = Some r" using live [OF q(1)] by blast
    then have "\<lparr>nm_object = j, nm_source = q, nm_destination = relabel source destination q, nm_kind = no_kind r,
        nm_expected_link_count = expected_link_count r\<rparr> \<in> set ms"
      unfolding mem using q by blast
    then show ?thesis by (rule bexI [rotated]) simp
  qed
  show "nm_source ` set ms = {p. path_object s p \<noteq> None \<and> CanonicalPath_is_at_or_below p source}"
    using in_ms by (fastforce simp: mem image_iff)
  show "p \<in> moved_to ms i \<longleftrightarrow>
      (\<exists>q. path_object s q = Some i \<and> CanonicalPath_is_at_or_below q source \<and> p = relabel source destination q)"
    using in_ms by (fastforce simp: moved_to_def mem image_iff)
  show "p \<in> moved_from ms i \<longleftrightarrow> path_object s p = Some i \<and> CanonicalPath_is_at_or_below p source"
    using in_ms by (fastforce simp: moved_from_def mem image_iff)
qed

lemma rename_steps:
  assumes inv: "ns_inv s" and plan: "planned source destination s ms" and free: "path_object s destination = None"
    and away: "\<not> CanonicalPath_is_at_or_below destination source"
  shows "\<exists>paths t. clear_sources ms (nss_paths s) = Ok paths \<and>
    enter_destinations ms (s\<lparr>nss_paths := paths\<rparr>) = Ok t \<and> renamed source destination s t \<and> nss_generation t = nss_generation s"
proof -
  note moved = planned_moved [OF inv plan]
  have distinct: "distinct (map nm_source ms)"
    using plan by (auto simp: planned_def strict_sorted_iff distinct_map inj_on_def)
  have "\<forall>m\<in>set ms. path_object s (nm_source m) \<noteq> None" using moved(1) by blast
  then obtain paths where clear: "clear_sources ms (nss_paths s) = Ok paths"
    and paths: "\<And>p. fmlookup paths p = (if p \<in> nm_source ` set ms then None else path_object s p)"
    using clear_sources_spec [OF distinct] by blast
  have free': "path_object s p = None" if "CanonicalPath_is_at_or_below p destination" for p
    using destination_free [OF inv free, of p] that by (cases "path_object s p") auto
  have "fmlookup paths (nm_destination m) = None" if "m \<in> set ms" for m
  proof -
    have "nm_destination m \<in> moved_to ms (nm_object m)" using that by (auto simp: moved_to_def)
    then show ?thesis using free' [of "nm_destination m"] by (auto simp: moved(2) paths)
  qed
  then obtain t where enter: "enter_destinations ms (s\<lparr>nss_paths := paths\<rparr>) = Ok t" "entered ms (s\<lparr>nss_paths := paths\<rparr>) t"
    using enter_destinations_spec planned_ready [OF inv plan free away, of paths] by blast
  note entered = enteredD [OF enter(2), simplified]
  have path_t: "path_object t p = Some i \<longleftrightarrow>
      (\<not> CanonicalPath_is_at_or_below p source \<and> path_object s p = Some i) \<or> p \<in> moved_to ms i" for p i
    unfolding entered(1) by (auto simp: paths moved(1))
  have "path_object t p = (if CanonicalPath_is_at_or_below p destination then path_object s (relabel destination source p)
         else if CanonicalPath_is_at_or_below p source then None else path_object s p)" for p
  proof (cases "CanonicalPath_is_at_or_below p destination")
    case True
    have "p = relabel source destination q \<longleftrightarrow> q = relabel destination source p"
      if "CanonicalPath_is_at_or_below q source" for q
      using relabel_back [OF True] relabel_back [OF that] by auto
    then have "path_object t p = Some i \<longleftrightarrow> path_object s (relabel destination source p) = Some i" for i
      unfolding path_t moved(2) using free' [OF True] by (auto simp: relabel_back)
    then have "path_object t p = path_object s (relabel destination source p)" by (rule option_eqI)
    with True show ?thesis by simp
  next
    case False
    then have "path_object t p = Some i \<longleftrightarrow> \<not> CanonicalPath_is_at_or_below p source \<and> path_object s p = Some i" for i
      unfolding path_t moved(2) by auto
    then have "path_object t p = Some i \<longleftrightarrow> (if CanonicalPath_is_at_or_below p source then None else path_object s p) = Some i" for i
      by simp
    then have "path_object t p = (if CanonicalPath_is_at_or_below p source then None else path_object s p)" by (rule option_eqI)
    with False show ?thesis by simp
  qed
  moreover have "names r' = moved_name source destination ` names r"
    if "live_object s i = Some r" "live_object t i = Some r'" for i r r'
  proof -
    have own: "p \<in> names r \<longleftrightarrow> path_object s p = Some i" for p
      using ns_invD(2) [OF inv, of p i] that(1) by auto
    have "names r' = (names r - moved_from ms i) \<union> moved_to ms i" using entered(3) [OF that] by blast
    then have "x \<in> names r' \<longleftrightarrow> (path_object s x = Some i \<and> \<not> CanonicalPath_is_at_or_below x source) \<or>
        (\<exists>q. path_object s q = Some i \<and> CanonicalPath_is_at_or_below q source \<and> x = relabel source destination q)" for x
      by (simp add: moved(2,3) own) blast
    moreover have "x \<in> moved_name source destination ` names r \<longleftrightarrow>
        (\<exists>q. path_object s q = Some i \<and> x = moved_name source destination q)" for x
      by (auto simp: own image_iff Bex_def)
    ultimately show ?thesis
      by (auto simp: set_eq_iff moved_name_def)
  qed
  moreover have "live_object t i = None \<longleftrightarrow> live_object s i = None" for i by (rule entered(2))
  moreover have "same_object r r' \<and> ordered_names r'" if "live_object s i = Some r" "live_object t i = Some r'" for i r r'
    using entered(3) [OF that] by blast
  ultimately have "renamed source destination s t"
    using entered(4) unfolding renamed_def by simp
  then show ?thesis using clear enter(1) entered(5) by blast
qed

text \<open>A rename is refused for a stated reason or hands the plan to the executor; the internal error
  arises only when a moved path would not be a valid path.\<close>

lemma rename_records_spec:
  assumes inv: "ns_inv s" and wf: "wf_path destination"
  shows "rename_records rank source destination operation s = Err NamespaceInvariantViolation \<Longrightarrow>
      blocked source destination s NamespaceInvariantViolation"
    and "rename_records rank source destination operation s = Ok (t, out) \<Longrightarrow>
      \<exists>ms g. planned source destination s ms \<and> next_generation s = Ok g \<and> nss_generation t = g \<and>
        renamed source destination s t \<and> (\<nexists>e. blocked source destination s e) \<and>
        source \<noteq> CanonicalPath_root \<and> path_object s source \<noteq> None \<and> path_object s destination = None \<and>
        \<not> CanonicalPath_is_at_or_below destination source \<and> validate_parent destination s = Ok () \<and>
        (\<forall>p i. path_object s p = Some i \<longrightarrow> CanonicalPath_is_at_or_below p source \<longrightarrow> wf_path (relabel source destination p)) \<and>
        out = operation \<lparr>rp_source = source, rp_destination = destination, rp_moved_objects = ms\<rparr>"
proof -
  define rest where "rest ms = (let moved_objects = sort_key (\<lambda>m. cp_segments (nm_source m)) ms in
        and_then (next_generation s) (\<lambda>g.
        let plan = \<lparr>rp_source = source, rp_destination = destination, rp_moved_objects = moved_objects\<rparr> in
        and_then (clear_sources moved_objects (nss_paths s)) (\<lambda>paths.
        and_then (enter_destinations moved_objects (s\<lparr>nss_paths := paths\<rparr>)) (\<lambda>next_state.
        Ok (next_state\<lparr>nss_generation := g\<rparr>, operation plan)))))" for ms
  have def: "rename_records rank source destination operation s =
     (if CanonicalPath_is_root source then Err CannotModifyRoot
      else if fmlookup (nss_paths s) source = None then Err (UnknownPath source)
      else if fmlookup (nss_paths s) destination \<noteq> None then Err (PathOccupied destination)
      else if CanonicalPath_is_at_or_below destination source then Err DestinationInsideSource
      else and_then (validate_parent destination s) (\<lambda>_.
        and_then (plan_moves source destination (nss_objects s) (subtree_entries rank source s)) rest))"
    by (simp add: rename_records_def rest_def [abs_def] subtree_entries_def)
  have rest: "\<exists>t. renamed source destination s t \<and> nss_generation t = nss_generation s \<and>
      rest ms = and_then (next_generation s) (\<lambda>g. Ok (t\<lparr>nss_generation := g\<rparr>, operation
        \<lparr>rp_source = source, rp_destination = destination, rp_moved_objects = sort_key (\<lambda>m. cp_segments (nm_source m)) ms\<rparr>))"
    if "plan_moves source destination (nss_objects s) (subtree_entries rank source s) = Ok ms"
      "path_object s destination = None" "\<not> CanonicalPath_is_at_or_below destination source" for ms
    using rename_steps [OF inv planned_moves(1) [OF inv wf that(1)] that(2,3)]
    by (auto simp: rest_def Let_def)
  note parent = validate_not_violated(1) [OF inv, of destination]
  have gen: "next_generation s \<noteq> Err NamespaceInvariantViolation"
    by (simp add: next_generation_def ok_or_def split: option.split)
  show "blocked source destination s NamespaceInvariantViolation"
    if "rename_records rank source destination operation s = Err NamespaceInvariantViolation"
  proof (cases "plan_moves source destination (nss_objects s) (subtree_entries rank source s)")
    case (Inl e)
    then have "e = NamespaceInvariantViolation"
      using that parent by (auto simp: def and_then_def split: if_splits sum.splits)
    then show ?thesis using plan_moves_Err [OF Inl] move_error_blocked [OF inv] by blast
  next
    case (Inr ms)
    then have "rest ms = Err NamespaceInvariantViolation \<and> path_object s destination = None \<and>
        \<not> CanonicalPath_is_at_or_below destination source"
      using that parent by (auto simp: def and_then_def split: if_splits sum.splits)
    then show ?thesis using rest [OF Inr] gen by (cases "next_generation s") auto
  qed
  assume ok: "rename_records rank source destination operation s = Ok (t, out)"
  then obtain ms where ms: "plan_moves source destination (nss_objects s) (subtree_entries rank source s) = Ok ms"
      "rest ms = Ok (t, out)"
    and guards: "source \<noteq> CanonicalPath_root" "path_object s source \<noteq> None" "path_object s destination = None"
      "\<not> CanonicalPath_is_at_or_below destination source" "validate_parent destination s = Ok ()"
    by (auto simp: def and_then_Ok is_root_iff split: if_splits)
  obtain t' g where t': "renamed source destination s t'" "next_generation s = Ok g" "t = t'\<lparr>nss_generation := g\<rparr>"
      "out = operation \<lparr>rp_source = source, rp_destination = destination,
         rp_moved_objects = sort_key (\<lambda>m. cp_segments (nm_source m)) ms\<rparr>"
    using rest [OF ms(1) guards(3,4)] ms(2) by (cases "next_generation s") auto
  note moves = planned_moves [OF inv wf ms(1)]
  have "\<nexists>e. blocked source destination s e"
  proof
    assume "\<exists>e. blocked source destination s e"
    then obtain e p i r where p: "path_object s p = Some i" "CanonicalPath_is_at_or_below p source" "live_object s i = Some r"
      and e: "if no_open_handle_count r \<noteq> 0 then e = OpenHandleInSubtree i
         else CanonicalPath_rebase p source destination = None \<and> e = NamespaceInvariantViolation"
      unfolding blocked_def by blast
    have "(p, i) \<in> set (subtree_entries rank source s)" using p by (simp add: set_subtree_entries)
    then have "move_error source destination (nss_objects s) (p, i) = None" using ms(1) by (simp add: plan_moves_Ok)
    with moves(3) [OF p] p(3) e show False by (simp add: move_error_def split: if_splits)
  qed
  moreover have "renamed source destination s t" using t'(1,3) by (simp add: renamed_def)
  ultimately show "\<exists>ms g. planned source destination s ms \<and> next_generation s = Ok g \<and> nss_generation t = g \<and>
        renamed source destination s t \<and> (\<nexists>e. blocked source destination s e) \<and>
        source \<noteq> CanonicalPath_root \<and> path_object s source \<noteq> None \<and> path_object s destination = None \<and>
        \<not> CanonicalPath_is_at_or_below destination source \<and> validate_parent destination s = Ok () \<and>
        (\<forall>p i. path_object s p = Some i \<longrightarrow> CanonicalPath_is_at_or_below p source \<longrightarrow> wf_path (relabel source destination p)) \<and>
        out = operation \<lparr>rp_source = source, rp_destination = destination, rp_moved_objects = ms\<rparr>"
    using guards t'(2-4) moves(1,2) by (intro exI [of _ "sort_key (\<lambda>m. cp_segments (nm_source m)) ms"] exI [of _ g]) simp
qed

lemma renamedD:
  assumes "renamed source destination s t"
  shows "path_object t p =
        (if CanonicalPath_is_at_or_below p destination then path_object s (relabel destination source p)
         else if CanonicalPath_is_at_or_below p source then None else path_object s p)"
    and "live_object s i = Some r \<Longrightarrow> \<exists>r'. live_object t i = Some r' \<and> same_object r r' \<and> ordered_names r' \<and>
        names r' = moved_name source destination ` names r"
    and "live_object t i = Some r' \<Longrightarrow> \<exists>r. live_object s i = Some r \<and> same_object r r' \<and> ordered_names r' \<and>
        names r' = moved_name source destination ` names r"
    and "nss_next_object_sequence t = nss_next_object_sequence s"
proof -
  note ren = assms [unfolded renamed_def]
  show "path_object t p =
        (if CanonicalPath_is_at_or_below p destination then path_object s (relabel destination source p)
         else if CanonicalPath_is_at_or_below p source then None else path_object s p)"
    "nss_next_object_sequence t = nss_next_object_sequence s"
    using ren by blast+
  have both: "live_object t i = None \<longleftrightarrow> live_object s i = None" and same: "live_object s i = Some r \<Longrightarrow> live_object t i = Some r' \<Longrightarrow>
      same_object r r' \<and> ordered_names r' \<and> names r' = moved_name source destination ` names r" for i r r'
    using ren by blast+
  show "\<exists>r'. live_object t i = Some r' \<and> same_object r r' \<and> ordered_names r' \<and>
        names r' = moved_name source destination ` names r" if "live_object s i = Some r"
    using both [of i] same [OF that] that by (cases "live_object t i") simp_all
  show "\<exists>r. live_object s i = Some r \<and> same_object r r' \<and> ordered_names r' \<and>
        names r' = moved_name source destination ` names r" if "live_object t i = Some r'"
    using both [of i] same [OF _ that] that by (cases "live_object s i") simp_all
qed

lemma single_name: "ordered_names r \<Longrightarrow> names r = {p} \<Longrightarrow> \<not> is_aliased r"
  using ordered_distinct [of r] by (cases "no_aliases r") (auto simp: is_aliased_def names_def object_paths_def)

lemma renamed_parent:
  assumes inv: "ns_inv s" and came: "\<exists>p. path_object s p = Some i \<and> q = moved_name source destination p"
    and away: "\<not> CanonicalPath_is_at_or_below destination source" and parent: "validate_parent destination s = Ok ()"
    and dir: "\<And>q. is_directory s q \<Longrightarrow> is_directory t (moved_name source destination q)"
    and outside: "\<And>q. is_directory s q \<Longrightarrow> \<not> CanonicalPath_is_at_or_below q source \<Longrightarrow> is_directory t q"
    and q: "CanonicalPath_parent q = Some q'"
  shows "is_directory t q'"
proof -
  obtain p where p: "path_object s p = Some i" "q = moved_name source destination p" using came by blast
  have up: "CanonicalPath_is_at_or_below a source" if "CanonicalPath_parent a = Some b" "CanonicalPath_is_at_or_below b source" for a b
    using parent_below [OF that(1)] that(2) at_or_below_trans by blast
  consider "\<not> CanonicalPath_is_at_or_below p source" | "p = source" | w where "cp_segments p = cp_segments source @ w" "w \<noteq> []"
    by (metis append_Nil2 below_iff path_eqI)
  then show ?thesis
  proof cases
    case 1
    then have "q = p" using p(2) by (simp add: moved_name_def)
    with 1 q up show ?thesis using ns_invD(4) [OF inv p(1)] by (blast intro: outside)
  next
    case 2
    then have "q = destination" using p(2) by (simp add: moved_name_def)
    with q have "is_directory s q'" "\<not> CanonicalPath_is_at_or_below q' source"
      using parent away up by (auto simp: validate_parent_Ok)
    then show ?thesis by (rule outside)
  next
    case (3 w)
    define b where "b = \<lparr>cp_segments = cp_segments source @ butlast w\<rparr>"
    have "CanonicalPath_parent p = Some b" using 3 by (simp add: CanonicalPath_parent_def b_def butlast_append)
    then have "is_directory s b" by (rule ns_invD(4) [OF inv p(1)])
    moreover have "q' = moved_name source destination b"
      using q p(2) 3 by (auto simp: moved_name_def below_iff b_def relabel_def CanonicalPath_parent_def butlast_append)
    ultimately show ?thesis using dir by simp
  qed
qed

lemma ns_inv_renamed:
  assumes inv: "ns_inv s" and ren: "renamed source destination s t"
    and guards: "source \<noteq> CanonicalPath_root" "path_object s destination = None" 
      "\<not> CanonicalPath_is_at_or_below destination source" "validate_parent destination s = Ok ()"
    and wf: "\<And>p i. path_object s p = Some i \<Longrightarrow> CanonicalPath_is_at_or_below p source \<Longrightarrow> wf_path (relabel source destination p)"
  shows "ns_inv t"
proof -
  let ?move = "moved_name source destination"
  have go: "path_object t (?move p) = Some i" if p: "path_object s p = Some i" for p i
  proof -
    have "\<not> CanonicalPath_is_at_or_below p destination" by (rule destination_free [OF inv guards(2) p])
    then show ?thesis using p by (simp add: renamedD(1) [OF ren] moved_name_def relabel_back)
  qed
  have came: "\<exists>p. path_object s p = Some i \<and> q = ?move p" if q: "path_object t q = Some i" for q i
  proof (cases "CanonicalPath_is_at_or_below q destination")
    case True
    then have "path_object s (relabel destination source q) = Some i" using q by (simp add: renamedD(1) [OF ren])
    moreover have "q = ?move (relabel destination source q)" using True by (simp add: moved_name_def relabel_back)
    ultimately show ?thesis by blast
  next
    case False
    then have "path_object s q = Some i \<and> q = ?move q" using q by (simp add: renamedD(1) [OF ren] moved_name_def split: if_splits)
    then show ?thesis by blast
  qed
  note live = renamedD(2) [OF ren] and keep = renamedD(3) [OF ren]
  have dir: "is_directory t (?move q)" if "is_directory s q" for q
    using that go live by (fastforce simp: is_directory_def same_object_def)
  have outside: "is_directory t q" if "is_directory s q" "\<not> CanonicalPath_is_at_or_below q source" for q
    using dir [OF that(1)] that(2) by (simp add: moved_name_def)
  show ?thesis
    unfolding ns_inv_def
  proof (intro conjI allI impI)
    show "object_ok t i r'" if r': "live_object t i = Some r'" for i r'
    proof -
      obtain r where r: "live_object s i = Some r" "same_object r r'" "ordered_names r'" "names r' = ?move ` names r"
        using keep [OF r'] by blast
      have ok: "object_ok s i r" by (rule ns_invD(1) [OF inv r(1)])
      have "\<not> is_aliased r'" if "no_kind r = Directory"
        using directory_name [OF ok that] r(3,4) by (auto dest: single_name)
      then show ?thesis
        using same_object_ok [OF r(2) ok r(3)] object_ok_cong [OF renamedD(4) [OF ren]] by simp
    qed
    show "path_object t q = Some i \<longleftrightarrow> (\<exists>r. live_object t i = Some r \<and> q \<in> names r)" for q i
    proof
      assume "path_object t q = Some i"
      then obtain p where p: "path_object s p = Some i" "q = ?move p" using came by blast
      obtain r where r: "live_object s i = Some r" "p \<in> names r" using ns_inv_path [OF inv p(1)] .
      show "\<exists>r. live_object t i = Some r \<and> q \<in> names r" using live [OF r(1)] r(2) p(2) by auto
    next
      assume "\<exists>r. live_object t i = Some r \<and> q \<in> names r"
      then obtain r' where r': "live_object t i = Some r'" "q \<in> names r'" by blast
      obtain r where r: "live_object s i = Some r" "names r' = ?move ` names r" using keep [OF r'(1)] by blast
      then obtain p where "p \<in> names r" "q = ?move p" using r'(2) by auto
      then show "path_object t q = Some i" using go [OF ns_inv_names [OF inv r(1)]] by simp
    qed
    show "wf_path q" if "path_object t q = Some i" for q i
      using came [OF that] wf ns_invD(3) [OF inv] by (auto simp: moved_name_def)
    show "is_directory t q'" if q: "path_object t q = Some i" "CanonicalPath_parent q = Some q'" for q q' i
      by (rule renamed_parent [OF inv came [OF q(1)] guards(3,4) dir outside q(2)])
    show "is_directory t CanonicalPath_root"
      using guards(1) by (intro outside [OF ns_invD(5) [OF inv]])
        (auto simp: CanonicalPath_is_at_or_below_def CanonicalPath_root_def intro: path_eqI)
  qed
qed

end
