(* ===== verification/Namespace_Machine.thy ===== *)
theory Namespace_Machine
  imports Namespace_Rename
begin

text \<open>
  Sequences of calls on a namespace registry. Every call is one of a few changes of the state; they
  keep the invariant, never lower the generation, change the path index only with the generation,
  and never give an identity out twice. A quarantined registry keeps its names.
\<close>

section \<open>Changes\<close>

text \<open>What is staged does not depend on the executor.\<close>

abbreviation committed :: "(unit, unit) NamespaceExecutorOutcome" where
  "committed \<equiv> ExecutorCommitted ()"

lemma remove_record_staged:
  "remove_record r p operation s = Ok (t, out) \<Longrightarrow> remove_record r p (\<lambda>_ _. committed) s = Ok (t, committed)"
  by (auto simp: remove_record_def and_then_Ok Let_def split: if_splits)

lemma rename_records_staged:
  "rename_records rank source destination operation s = Ok (t, out) \<Longrightarrow>
     rename_records rank source destination (\<lambda>_. committed) s = Ok (t, committed)"
  by (auto simp: rename_records_def and_then_Ok Let_def split: if_splits)

inductive ns_change :: "NamespaceState \<Rightarrow> NamespaceState \<Rightarrow> bool" where
  stay: "ns_change s s"
| count: "live_object s i = Some r \<Longrightarrow>
    ns_change s (s\<lparr>nss_objects := fmupd i (r\<lparr>no_open_handle_count := n\<rparr>) (nss_objects s)\<rparr>)"
| create: "validate_new_path p s = Ok () \<Longrightarrow> wf_path p \<Longrightarrow> next_generation s = Ok g \<Longrightarrow> allocate_object p spec s = Ok (r, t) \<Longrightarrow>
    ns_change s (t\<lparr>nss_objects := fmupd (no_id r) (r\<lparr>no_open_handle_count := n\<rparr>) (nss_objects t), nss_generation := g\<rparr>)"
| link: "validate_new_path p s = Ok () \<Longrightarrow> wf_path p \<Longrightarrow> next_generation s = Ok g \<Longrightarrow> attach_path i p s = Ok (r, t) \<Longrightarrow>
    ns_change s (t\<lparr>nss_generation := g\<rparr>)"
| remove: "live_object s i = Some r \<Longrightarrow> p \<in> names r \<Longrightarrow> remove_record r p (\<lambda>_ _. committed) s = Ok (t, committed) \<Longrightarrow>
    ns_change s t"
| rename: "wf_path destination \<Longrightarrow>
    rename_records rank source destination (\<lambda>_. committed) s = Ok (t, committed) \<Longrightarrow> ns_change s t"

lemma ns_inv_change: "ns_change s t \<Longrightarrow> ns_inv s \<Longrightarrow> ns_inv t"
proof (induction rule: ns_change.induct)
  case (create p s g spec r t n)
  have t: "ns_inv t" by (rule ns_inv_allocate [OF create(5,1,2,4)])
  have "live_object t (no_id r) = Some r"
    using allocate_object_Ok [OF create(4)] by (auto simp: NamespaceObject_new_def)
  from ns_inv_count [OF t this, of n] show ?case by simp
next
  case (link p s g i r t)
  then show ?case using ns_inv_attach by simp
next
  case (remove s i r p t)
  then show ?case using ns_inv_remove by blast
next
  case (rename destination rank source s t)
  from rename_records_spec(2) [OF rename(3,1,2)] show ?case
    using ns_inv_renamed [OF rename(3)] by blast
qed (auto intro: ns_inv_count)

section \<open>What later states keep\<close>

definition spent_id :: "NamespaceState \<Rightarrow> ObjectId \<Rightarrow> bool" where
  "spent_id s i \<longleftrightarrow> issued s i \<or> live_object s i \<noteq> None"

definition same_inode :: "NamespaceObject \<Rightarrow> NamespaceObject \<Rightarrow> bool" where
  "same_inode r r' \<longleftrightarrow> no_kind r' = no_kind r \<and> no_link_target r' = no_link_target r"

definition ns_later :: "NamespaceState \<Rightarrow> NamespaceState \<Rightarrow> bool" where
  "ns_later s t \<longleftrightarrow>
     generation_u64 (nss_generation s) \<le> generation_u64 (nss_generation t) \<and>
     (nss_generation s = nss_generation t \<longrightarrow> nss_paths s = nss_paths t) \<and>
     (\<forall>i. spent_id s i \<longrightarrow> spent_id t i \<and> (live_object s i = None \<longrightarrow> live_object t i = None) \<and>
        (\<forall>r r'. live_object s i = Some r \<longrightarrow> live_object t i = Some r' \<longrightarrow> same_inode r r'))"

lemma ns_later_refl [simp]: "ns_later s s"
  by (auto simp: ns_later_def same_inode_def)

lemma ns_later_trans:
  assumes "ns_later s t" "ns_later t u"
  shows "ns_later s u"
proof -
  have gen: "generation_u64 (nss_generation s) \<le> generation_u64 (nss_generation t)"
      "generation_u64 (nss_generation t) \<le> generation_u64 (nss_generation u)"
    using assms by (simp_all add: ns_later_def)
  have "nss_paths s = nss_paths u" if eq: "nss_generation s = nss_generation u"
  proof -
    have "nss_generation s = nss_generation t" using gen eq by (auto intro: NamespaceGeneration.expand)
    then show ?thesis using assms eq by (simp add: ns_later_def)
  qed
  moreover have "spent_id u i \<and> (live_object s i = None \<longrightarrow> live_object u i = None) \<and>
      (\<forall>r r'. live_object s i = Some r \<longrightarrow> live_object u i = Some r' \<longrightarrow> same_inode r r')" if i: "spent_id s i" for i
  proof -
    have st: "spent_id t i" "live_object s i = None \<longrightarrow> live_object t i = None"
        "\<And>r r'. live_object s i = Some r \<Longrightarrow> live_object t i = Some r' \<Longrightarrow> same_inode r r'"
      using assms(1) i unfolding ns_later_def by blast+
    have tu: "spent_id u i" "live_object t i = None \<longrightarrow> live_object u i = None"
        "\<And>r r'. live_object t i = Some r \<Longrightarrow> live_object u i = Some r' \<Longrightarrow> same_inode r r'"
      using assms(2) st(1) unfolding ns_later_def by blast+
    have "same_inode r r'" if r: "live_object s i = Some r" "live_object u i = Some r'" for r r'
    proof -
      obtain x where x: "live_object t i = Some x" using tu(2) r(2) by (cases "live_object t i") auto
      show ?thesis using st(3) [OF r(1) x] tu(3) [OF x r(2)] by (simp add: same_inode_def)
    qed
    then show ?thesis using st(2) tu(1,2) by blast
  qed
  ultimately show ?thesis unfolding ns_later_def using gen order.trans by blast
qed

lemma ns_laterI:
  assumes "next_generation s = Ok (nss_generation t)"
    and "\<And>i. issued s i \<Longrightarrow> issued t i"
    and "\<And>i r'. live_object t i = Some r' \<Longrightarrow> (\<exists>r. live_object s i = Some r \<and> same_inode r r') \<or> \<not> spent_id s i"
    and "ns_inv s"
  shows "ns_later s t"
proof -
  have gen: "unat (generation_u64 (nss_generation t)) = unat (generation_u64 (nss_generation s)) + 1"
    using assms(1) by (simp add: next_generation_Ok)
  have iss: "issued s i" if "spent_id s i" for i
    using that ns_invD(1) [OF assms(4), of i] by (auto simp: spent_id_def object_ok_def)
  have "live_object t i = None" if "spent_id s i" "live_object s i = None" for i
    using assms(3) [of i] that by (cases "live_object t i") auto
  moreover have "same_inode r r'" if "spent_id s i" "live_object s i = Some r" "live_object t i = Some r'" for i r r'
    using assms(3) [OF that(3)] that by auto
  moreover have "spent_id t i" if "spent_id s i" for i
    using assms(2) [OF iss [OF that]] by (simp add: spent_id_def)
  moreover have "generation_u64 (nss_generation s) \<le> generation_u64 (nss_generation t)" "nss_generation s \<noteq> nss_generation t"
    using gen by (auto simp: word_le_nat_alt)
  ultimately show ?thesis
    unfolding ns_later_def by blast
qed

lemma same_object_inode: "same_object r r' \<Longrightarrow> same_inode r r'"
  by (simp add: same_object_def same_inode_def)

lemma same_inode_refl [simp]: "same_inode r r"
  by (simp add: same_inode_def)

lemma ns_later_change: "ns_change s t \<Longrightarrow> ns_inv s \<Longrightarrow> ns_later s t"
proof (induction rule: ns_change.induct)
  case (count s i r n)
  then show ?case by (auto simp: ns_later_def spent_id_def issued_def same_inode_def)
next
  case (create p s g spec r t n)
  obtain k where k: "nss_next_object_sequence s = Some k" "live_object s (object_id k) = None" "no_id r = object_id k"
    and t: "t = s\<lparr>nss_next_object_sequence := checked_add k 1, nss_paths := fmupd p (object_id k) (nss_paths s),
             nss_objects := fmupd (object_id k) r (nss_objects s)\<rparr>"
    using allocate_object_Ok [OF create(4)] by (auto simp: NamespaceObject_new_def)
  have fresh: "\<not> spent_id s (object_id k)" using issued_next [OF k(1)] k(2) by (simp add: spent_id_def)
  show ?case
  proof (rule ns_laterI [OF _ _ _ create(5)])
    fix i assume "issued s i"
    then show "issued (t\<lparr>nss_objects := fmupd (no_id r) (r\<lparr>no_open_handle_count := n\<rparr>) (nss_objects t), nss_generation := g\<rparr>) i"
      using issued_mono [OF k(1), of i] by (simp add: issued_def t)
  qed (use create(3) fresh k(3) in \<open>auto simp: t split: if_splits\<close>)
next
  case (link p s g i r t)
  have free: "path_object s p = None" using link(1) by (simp add: validate_new_path_Ok)
  show ?case
    using link(4) by (cases rule: attach_path_spec [OF link(5) free, of i])
      (use link(3) in \<open>auto intro!: ns_laterI [OF _ _ _ link(5)] simp: issued_def same_object_inode split: if_splits\<close>)
next
  case (remove s i r p t)
  from remove_record_spec(2) [OF remove(4,1-3)] obtain g r' where
    g: "next_generation s = Ok g" and
    t: "t = s\<lparr>nss_paths := fmdrop p (nss_paths s), nss_generation := g, nss_objects :=
          if is_aliased r then fmupd i r' (nss_objects s) else fmdrop i (nss_objects s)\<rparr>"
    and same: "is_aliased r \<longrightarrow> same_object r r'"
    by blast
  show ?case
    using remove(1) g same by (intro ns_laterI [OF _ _ _ remove(4)])
      (auto simp: t issued_def same_object_inode split: if_splits)
next
  case (rename destination rank source s t)
  from rename_records_spec(2) [OF rename(3,1,2)]
  have ren: "renamed source destination s t" and gen: "next_generation s = Ok (nss_generation t)" by blast+
  have "\<exists>r. live_object s i = Some r \<and> same_inode r r'" if "live_object t i = Some r'" for i r'
    using renamedD(3) [OF ren that] same_object_inode by blast
  moreover have "issued t i = issued s i" for i by (simp add: issued_def renamedD(4) [OF ren])
  ultimately show ?case using gen by (intro ns_laterI [OF _ _ _ rename(3)]) blast+
qed simp

section \<open>Calls\<close>

text \<open>A path given by a caller was built by \<open>CanonicalPath::new\<close>; a call whose path is not valid
  does not reach the registry.\<close>

datatype ('t, 'e) NsOp =
    NsMark
  | NsOpen ObjectId "NamespaceObject \<Rightarrow> ('t, 'e) NamespaceExecutorOutcome"
  | NsClose ObjectId "NamespaceObject \<Rightarrow> ('e, 't) result"
  | NsCleanup ObjectId "NamespaceObject \<Rightarrow> ('e, 't) result"
  | NsCreate "string list" NamespaceObjectSpec "NamespaceObject \<Rightarrow> ('t, 'e) NamespaceExecutorOutcome"
  | NsCreateChild ObjectId string NamespaceObjectSpec
      "NamespaceObject \<Rightarrow> NamespaceObject \<Rightarrow> ('t, 'e) NamespaceExecutorOutcome"
  | NsCreateOpen ObjectId string NamespaceObjectSpec
      "NamespaceObject \<Rightarrow> NamespaceObject \<Rightarrow> ('t, 'e) NamespaceExecutorOutcome"
  | NsLink ObjectId string ObjectId
      "NamespaceObject \<Rightarrow> NamespaceObject \<Rightarrow> CanonicalPath \<Rightarrow> ('t, 'e) NamespaceExecutorOutcome"
  | NsRemove ObjectId "NamespaceObject \<Rightarrow> ('t, 'e) NamespaceExecutorOutcome"
  | NsRemoveChild ObjectId string
      "NamespaceObject \<Rightarrow> NamespaceObject \<Rightarrow> CanonicalPath \<Rightarrow> ('t, 'e) NamespaceExecutorOutcome"
  | NsRename "string list \<Rightarrow> nat" "string list" "string list" "RenamePlan \<Rightarrow> ('t, 'e) NamespaceExecutorOutcome"
  | NsRenameChild "string list \<Rightarrow> nat" ObjectId string ObjectId string
      "RenamePlan \<Rightarrow> ('t, 'e) NamespaceExecutorOutcome"

datatype 't NsAnswer = NsMarked | NsBadPath InvalidPathSegment | NsReturned 't | NsCreated ObjectId 't

definition created :: "'t NamespaceObjectCreation \<Rightarrow> 't NsAnswer" where
  "created c = NsCreated (noc_object c) (noc_value c)"

definition with_path ::
    "string list \<Rightarrow> (CanonicalPath \<Rightarrow> NamespaceRegistry \<Rightarrow> ('e, 't NsAnswer) registry_outcome) \<Rightarrow>
     NamespaceRegistry \<Rightarrow> ('e, 't NsAnswer) registry_outcome" where
  "with_path ws f r = (case CanonicalPath_new ws of Err e \<Rightarrow> (Ok (NsBadPath e), r) | Ok p \<Rightarrow> f p r)"

abbreviation answer :: "('t \<Rightarrow> 'u) \<Rightarrow> ('e, 't) registry_outcome \<Rightarrow> ('e, 'u) registry_outcome" where
  "answer f \<equiv> map_prod (map_sum id f) id"

fun ns_step :: "('t, 'e) NsOp \<Rightarrow> NamespaceRegistry \<Rightarrow> ('e, 't NsAnswer) registry_outcome" where
  "ns_step NsMark r = (Ok NsMarked, mark_in_doubt r)"
| "ns_step (NsOpen i f) r = answer NsReturned (open_object_with_commit_outcome i f r)"
| "ns_step (NsClose i f) r = answer NsReturned (close_object i f r)"
| "ns_step (NsCleanup i f) r = answer NsReturned (close_object_for_cleanup i f r)"
| "ns_step (NsCreate ws spec f) r = with_path ws (\<lambda>p r. answer created (create_object_with_commit_outcome p spec f r)) r"
| "ns_step (NsCreateChild i n spec f) r = answer created (create_child_with_commit_outcome i n spec f r)"
| "ns_step (NsCreateOpen i n spec f) r = answer created (create_open_child_with_commit_outcome i n spec f r)"
| "ns_step (NsLink i n j f) r = answer NsReturned (link_child_with_commit_outcome i n j f r)"
| "ns_step (NsRemove i f) r = answer NsReturned (remove_object_with_commit_outcome i f r)"
| "ns_step (NsRemoveChild i n f) r = answer NsReturned (remove_child_with_commit_outcome i n f r)"
| "ns_step (NsRename rank ws vs f) r = with_path ws (\<lambda>p. with_path vs (\<lambda>q r.
     answer NsReturned (rename_subtree_with_commit_outcome rank p q f r))) r"
| "ns_step (NsRenameChild rank i n j m f) r =
     answer NsReturned (rename_child_with_commit_outcome rank i n j m f r)"

text \<open>A staged call either publishes what was staged or keeps the state; quarantine is never lifted.\<close>

lemma staged_state:
  assumes "\<And>t out. res = Ok (t, out) \<Longrightarrow> ns_change (nr_state r) t"
  shows "ns_change (nr_state r) (nr_state (snd (staged res r)))"
  using assms by (auto simp: staged_def finish_namespace_mutation_def intro: ns_change.stay
      split: sum.split prod.split NamespaceExecutorOutcome.split)

lemma operational_Ok:
  "write_operational_state r = Ok s \<longleftrightarrow> \<not> nr_repository_in_doubt r \<and> s = nr_state r"
  by (auto simp: write_operational_state_def ensure_operational_def)

lemma directory_record_Ok:
  "directory_record i s = Ok d \<longleftrightarrow> live_object s i = Some d \<and> no_kind d = Directory"
  by (auto simp: directory_record_def and_then_Ok)

lemma child_path_wf:
  assumes "ns_inv s" "live_object s i = Some d" "child_path d n = Ok p"
  shows "wf_path p \<and> cp_segments p = cp_segments (no_primary d) @ [n]"
proof -
  have "wf_path (no_primary d)" by (rule ns_invD(3) [OF assms(1) primary_path [OF assms(1,2)]])
  with assms(3) show ?thesis by (simp add: child_path_def wf_path_child)
qed

lemma resolve_child_Ok:
  assumes "ns_inv s" "resolve_child d n s = Ok (p, c)"
  obtains i where "path_object s p = Some i" "live_object s i = Some c" "p \<in> names c"
proof -
  obtain i where i: "path_object s p = Some i" "live_object s i = Some c"
    using assms(2) by (auto simp: resolve_child_def and_then_Ok)
  obtain r where "live_object s i = Some r" "p \<in> names r" using ns_inv_path [OF assms(1) i(1)] .
  with i that show ?thesis by simp
qed

section \<open>Every call is a change\<close>

lemma count_back: "live_object s i = Some r \<Longrightarrow> fmupd i r (nss_objects s) = nss_objects s"
  by (rule fmap_ext) auto

lemma open_change: "ns_change (nr_state r) (nr_state (snd (open_object_with_commit_outcome i f r)))"
proof (cases "nr_repository_in_doubt r \<or> live_object (nr_state r) i = None")
  case True
  then show ?thesis
    by (cases "nr_repository_in_doubt r")
      (simp_all add: open_object_with_commit_outcome_def write_operational_state_def ensure_operational_def ns_change.stay)
next
  case False
  then obtain x where x: "write_operational_state r = Ok (nr_state r)" "live_object (nr_state r) i = Some x"
    by (auto simp: operational_Ok)
  show ?thesis
    by (simp add: open_object_with_commit_outcome_def x mark_in_doubt_def Let_def ns_change.stay ns_change.count [OF x(2)]
        split: option.split NamespaceExecutorOutcome.split)
qed

lemma close_state_change: "ns_change s (snd (close_object_in_state i f s))"
  by (auto simp: close_object_in_state_def count_back intro: ns_change.stay ns_change.count split: option.split sum.split)

lemma close_change: "ns_change (nr_state r) (nr_state (snd (close_object i f r)))"
    "ns_change (nr_state r) (nr_state (snd (close_object_for_cleanup i f r)))"
  using close_state_change [of "nr_state r" i f]
  by (auto simp: close_object_def close_object_for_cleanup_def operational_Ok intro: ns_change.stay
      split: sum.split prod.split)

lemma create_object_change:
  assumes "wf_path p"
  shows "ns_change (nr_state r) (nr_state (snd (create_object_with_commit_outcome p spec f r)))"
  unfolding create_object_with_commit_outcome_def
proof (rule staged_state, goal_cases)
  case (1 t out)
  then obtain g o' n where g: "validate_new_path p (nr_state r) = Ok ()" "next_generation (nr_state r) = Ok g"
      "allocate_object p spec (nr_state r) = Ok (o', n)" "t = n\<lparr>nss_generation := g\<rparr>"
    by (auto simp: and_then_Ok operational_Ok)
  have "o'\<lparr>no_open_handle_count := 0\<rparr> = o'" "live_object n (no_id o') = Some o'"
    using allocate_object_Ok [OF g(3)] by (auto simp: NamespaceObject_new_def)
  with ns_change.create [OF g(1) assms g(2,3), of 0] show ?case by (simp add: g(4) count_back)
qed

lemma stage_open_count_spec:
  assumes "live_object n i = Some x" "no_open_handle_count x = 0"
  shows "stage_open_count k f g i n =
    (let y = x\<lparr>no_open_handle_count := k\<rparr>; out = f y in
     Ok (n\<lparr>nss_objects := fmupd i (if (case out of ExecutorCommittedWithError _ \<Rightarrow> True | _ \<Rightarrow> False) then x else y) (nss_objects n),
           nss_generation := g\<rparr>, map_NamespaceExecutorOutcome (\<lambda>v. \<lparr>noc_object = i, noc_value = v\<rparr>) id out))"
proof -
  have x: "x\<lparr>no_open_handle_count := 0\<rparr> = x" using assms(2) by (cases x) simp
  show ?thesis
    using assms(1) x by (cases "k = 0") (simp_all add: stage_open_count_def Let_def count_back split: NamespaceExecutorOutcome.split)
qed

lemma create_child_change:
  assumes "ns_inv (nr_state r)"
  shows "ns_change (nr_state r) (nr_state (snd (create_child_with_open_count i name spec k f r)))"
  unfolding create_child_with_open_count_def
proof (rule staged_state, goal_cases)
  case (1 t out)
  then obtain d p g o' n where d: "directory_record i (nr_state r) = Ok d" "child_path d name = Ok p"
    and g: "validate_new_path p (nr_state r) = Ok ()" "next_generation (nr_state r) = Ok g"
      "allocate_object p spec (nr_state r) = Ok (o', n)"
    and t: "stage_open_count k (f d) g (no_id o') n = Ok (t, out)"
    by (auto simp: and_then_Ok operational_Ok)
  have o': "no_open_handle_count o' = 0" "live_object n (no_id o') = Some o'" "o'\<lparr>no_open_handle_count := 0\<rparr> = o'"
    using allocate_object_Ok [OF g(3)] by (auto simp: NamespaceObject_new_def)
  have wf: "wf_path p" using child_path_wf [OF assms _ d(2)] d(1) by (auto simp: directory_record_Ok)
  note new = ns_change.create [OF g(1) wf g(2,3)]
  from t show ?case
    using new [of k] new [of 0] by (auto simp: stage_open_count_spec [OF o'(2,1)] o'(3) Let_def)
qed

lemma link_change:
  assumes "ns_inv (nr_state r)"
  shows "ns_change (nr_state r) (nr_state (snd (link_child_with_commit_outcome i name j f r)))"
  unfolding link_child_with_commit_outcome_def
proof (rule staged_state, goal_cases)
  case (1 t out)
  then obtain d p g o' n where d: "directory_record i (nr_state r) = Ok d" "child_path d name = Ok p"
    and g: "validate_new_path p (nr_state r) = Ok ()" "next_generation (nr_state r) = Ok g"
      "attach_path j p (nr_state r) = Ok (o', n)" "t = n\<lparr>nss_generation := g\<rparr>"
    by (auto simp: and_then_Ok operational_Ok split: if_splits)
  have "wf_path p" using child_path_wf [OF assms _ d(2)] d(1) by (auto simp: directory_record_Ok)
  then show ?case using ns_change.link [OF g(1) _ g(2,3)] g(4) by simp
qed

lemma remove_object_change: "ns_change (nr_state r) (nr_state (snd (remove_object_with_commit_outcome i f r)))"
  unfolding remove_object_with_commit_outcome_def
proof (rule staged_state, goal_cases)
  case (1 t out)
  then obtain x where x: "live_object (nr_state r) i = Some x"
      "remove_record x (no_primary x) (\<lambda>rec _. f rec) (nr_state r) = Ok (t, out)"
    by (auto simp: and_then_Ok operational_Ok split: if_splits)
  show ?case by (rule ns_change.remove [OF x(1) primary_in_names remove_record_staged [OF x(2)]])
qed

lemma remove_child_change:
  assumes "ns_inv (nr_state r)"
  shows "ns_change (nr_state r) (nr_state (snd (remove_child_with_commit_outcome i name f r)))"
  unfolding remove_child_with_commit_outcome_def
proof (rule staged_state, goal_cases)
  case (1 t out)
  then obtain d p c where c: "resolve_child d name (nr_state r) = Ok (p, c)"
      "remove_record c p (f d) (nr_state r) = Ok (t, out)"
    by (auto simp: and_then_Ok operational_Ok)
  obtain j where "live_object (nr_state r) j = Some c" "p \<in> names c" using resolve_child_Ok [OF assms c(1)] .
  then show ?case by (rule ns_change.remove [OF _ _ remove_record_staged [OF c(2)]])
qed

lemma rename_subtree_change:
  assumes "wf_path q"
  shows "ns_change (nr_state r) (nr_state (snd (rename_subtree_with_commit_outcome rank p q f r)))"
  unfolding rename_subtree_with_commit_outcome_def
proof (rule staged_state, goal_cases)
  case (1 t out)
  then have "rename_records rank p q f (nr_state r) = Ok (t, out)" by (auto simp: and_then_Ok operational_Ok)
  then show ?case by (rule ns_change.rename [OF assms rename_records_staged])
qed

lemma rename_child_change:
  assumes "ns_inv (nr_state r)"
  shows "ns_change (nr_state r) (nr_state (snd (rename_child_with_commit_outcome rank i n j m f r)))"
  unfolding rename_child_with_commit_outcome_def
proof (rule staged_state, goal_cases)
  case (1 t out)
  then obtain p d q where d: "directory_record j (nr_state r) = Ok d" "child_path d m = Ok q"
    and ren: "rename_records rank p q f (nr_state r) = Ok (t, out)"
    by (auto simp: and_then_Ok operational_Ok)
  have "wf_path q" using child_path_wf [OF assms _ d(2)] d(1) by (auto simp: directory_record_Ok)
  then show ?case by (rule ns_change.rename [OF _ rename_records_staged [OF ren]])
qed

lemma ns_step_change:
  assumes "ns_inv (nr_state r)"
  shows "ns_change (nr_state r) (nr_state (snd (ns_step x r)))"
  by (cases x)
    (simp_all add: mark_in_doubt_def with_path_def CanonicalPath_new_Ok create_child_with_commit_outcome_def
      create_open_child_with_commit_outcome_def ns_change.stay open_change close_change create_object_change
      create_child_change [OF assms] link_change [OF assms] remove_object_change remove_child_change [OF assms]
      rename_subtree_change rename_child_change [OF assms] split: sum.split)

section \<open>Quarantine\<close>

lemma staged_rejected: "staged (Err e) r = (Err (NamespaceRejected e), r)"
  by (simp add: staged_def)

lemma in_doubt_write: "nr_repository_in_doubt r \<Longrightarrow> write_operational_state r = Err RepositoryInDoubt"
  by (simp add: write_operational_state_def ensure_operational_def)

text \<open>The calls that a quarantined registry still takes.\<close>

fun cleanup_call :: "('t, 'e) NsOp \<Rightarrow> bool" where
  "cleanup_call NsMark = True"
| "cleanup_call (NsCleanup _ _) = True"
| "cleanup_call _ = False"

fun bad_path :: "('t, 'e) NsOp \<Rightarrow> bool" where
  "bad_path (NsCreate ws _ _) = (\<exists>e. CanonicalPath_new ws = Err e)"
| "bad_path (NsRename _ ws vs _) = ((\<exists>e. CanonicalPath_new ws = Err e) \<or> (\<exists>e. CanonicalPath_new vs = Err e))"
| "bad_path _ = False"

lemma quarantined_step:
  assumes "nr_repository_in_doubt r" "\<not> cleanup_call x" "\<not> bad_path x"
  shows "ns_step x r = (Err (NamespaceRejected RepositoryInDoubt), r)"
  using assms
  by (cases x) (auto simp: in_doubt_write staged_rejected open_object_with_commit_outcome_def close_object_def
      create_object_with_commit_outcome_def create_child_with_commit_outcome_def create_open_child_with_commit_outcome_def
      create_child_with_open_count_def link_child_with_commit_outcome_def remove_object_with_commit_outcome_def
      remove_child_with_commit_outcome_def rename_subtree_with_commit_outcome_def rename_child_with_commit_outcome_def
      with_path_def split: sum.splits)

text \<open>A later registry: the state has moved on, and a quarantined registry has kept its names and
  its quarantine.\<close>

definition registry_later :: "NamespaceRegistry \<Rightarrow> NamespaceRegistry \<Rightarrow> bool" where
  "registry_later r r' \<longleftrightarrow> ns_later (nr_state r) (nr_state r') \<and>
     (nr_repository_in_doubt r \<longrightarrow> nr_repository_in_doubt r' \<and>
        nss_paths (nr_state r') = nss_paths (nr_state r) \<and> nss_generation (nr_state r') = nss_generation (nr_state r))"

lemma cleanup_keeps:
  "nss_paths (nr_state (snd (close_object_for_cleanup i f r))) = nss_paths (nr_state r) \<and>
   nss_generation (nr_state (snd (close_object_for_cleanup i f r))) = nss_generation (nr_state r) \<and>
   nr_repository_in_doubt (snd (close_object_for_cleanup i f r)) = nr_repository_in_doubt r"
  by (auto simp: close_object_for_cleanup_def close_object_in_state_def split: option.split sum.split)

lemma bad_path_keeps: "bad_path x \<Longrightarrow> snd (ns_step x r) = r"
  by (cases x) (auto simp: with_path_def split: sum.split)

lemma in_doubt_later:
  assumes "nr_repository_in_doubt r"
  shows "nr_repository_in_doubt (snd (ns_step x r)) \<and> nss_paths (nr_state (snd (ns_step x r))) = nss_paths (nr_state r) \<and>
    nss_generation (nr_state (snd (ns_step x r))) = nss_generation (nr_state r)"
proof (cases "cleanup_call x")
  case True
  then show ?thesis using assms cleanup_keeps by (cases x) (auto simp: mark_in_doubt_def)
next
  case False
  then show ?thesis using assms quarantined_step [OF assms False] bad_path_keeps [of x r] by (cases "bad_path x") simp_all
qed

interpretation namespace: machine ns_step "\<lambda>r. ns_inv (nr_state r)" registry_later
proof unfold_locales
  show "registry_later s u" if "registry_later s t" "registry_later t u" for s t u
    using that ns_later_trans unfolding registry_later_def by force
qed (auto simp: registry_later_def intro: ns_inv_change ns_later_change ns_step_change dest: in_doubt_later)

section \<open>Starting points\<close>

lemma ns_inv_with_root: "ns_inv with_root"
  by (auto simp: ns_inv_def with_root_def Let_def is_directory_def object_ok_def issued_def NamespaceObject_new_def
      is_aliased_def ordered_names_def object_paths_def names_def CanonicalPath_parent_def CanonicalPath_root_def
      wf_root [unfolded CanonicalPath_root_def] ROOT_OBJECT_SEQUENCE_def checked_add_def split: if_splits)

lemma ns_inv_import:
  "ns_inv s \<Longrightarrow> list_all (\<lambda>e. wf_path (me_path e)) es \<Longrightarrow> import_entries es groups s = Ok t \<Longrightarrow> ns_inv t"
proof (induction es groups s rule: import_entries.induct)
  case (2 entry entries groups s)
  have v: "validate_new_path (me_path entry) s = Ok ()" and wf: "wf_path (me_path entry)" "list_all (\<lambda>e. wf_path (me_path e)) entries"
    using "2.prems" by (auto simp: and_then_Ok)
  show ?case
  proof (cases "fmlookup groups (me_alias_group entry)")
    case None
    then obtain c n where c: "allocate_object (me_path entry) (me_spec entry) s = Ok (c, n)"
        "import_entries entries (fmupd (me_alias_group entry) (no_id c) groups) n = Ok t"
      using "2.prems"(3) v by (auto simp: and_then_Ok)
    show ?thesis
      using "2.IH"(1) [OF v None c(1) refl ns_inv_allocate [OF "2.prems"(1) v wf(1) c(1)] wf(2) c(2)] .
  next
    case (Some j)
    then obtain x c n where x: "live_object s j = Some x"
        "\<not> (no_kind x \<noteq> spec_kind (me_spec entry) \<or> no_link_target x \<noteq> spec_target (me_spec entry))"
        and c: "attach_path j (me_path entry) s = Ok (c, n)" "import_entries entries groups n = Ok t"
      using "2.prems"(3) v by (auto simp: and_then_Ok split: if_splits)
    have x': "ok_or NamespaceInvariantViolation (live_object s j) = Ok x" using x(1) by simp
    show ?thesis
      using "2.IH"(2) [OF v Some x' x(2) c(1) refl ns_inv_attach [OF "2.prems"(1) v wf(1) c(1)] wf(2) c(2)] .
  qed
qed simp

section \<open>The internal error\<close>

lemma staged_Err:
  "fst (staged res r) = Err (NamespaceRejected e) \<longleftrightarrow> res = Err e"
  by (auto simp: staged_def finish_namespace_mutation_def split: sum.split prod.split NamespaceExecutorOutcome.split)

lemma and_then_Err: "and_then x f = Err e \<longleftrightarrow> x = Err e \<or> (\<exists>v. x = Ok v \<and> f v = Err e)"
  by (cases x) auto

lemma map_err_Err: "map_err g x = Err e \<longleftrightarrow> (\<exists>d. x = Err d \<and> e = g d)"
  by (cases x) auto

lemma ok_or_Err: "ok_or e x = Err d \<longleftrightarrow> x = None \<and> d = e"
  by (cases x) auto

lemmas result_Err = and_then_Err map_err_Err ok_or_Err

lemma not_violated_simps [simp]:
  "write_operational_state r \<noteq> Err NamespaceInvariantViolation"
  "directory_record i s \<noteq> Err NamespaceInvariantViolation"
  "child_path d n \<noteq> Err NamespaceInvariantViolation"
  "next_generation s \<noteq> Err NamespaceInvariantViolation"
  by (auto simp: write_operational_state_def ensure_operational_def directory_record_def child_path_def
      next_generation_def result_Err)

lemma attach_not_violated:
  assumes "ns_inv s" "validate_new_path p s = Ok ()"
  shows "attach_path i p s \<noteq> Err NamespaceInvariantViolation"
proof -
  have "path_object s p = None" using assms(2) by (simp add: validate_new_path_Ok)
  then show ?thesis by (cases rule: attach_path_spec [OF assms(1), of p i]) auto
qed

lemma resolve_not_violated:
  assumes "ns_inv s"
  shows "resolve_child d n s \<noteq> Err NamespaceInvariantViolation"
proof
  assume "resolve_child d n s = Err NamespaceInvariantViolation"
  then obtain p i where "path_object s p = Some i" "live_object s i = None"
    by (auto simp: resolve_child_def result_Err)
  then show False using ns_inv_path [OF assms] by fastforce
qed

lemma create_not_violated:
  assumes "ns_inv (nr_state r)"
  shows "fst (create_object_with_commit_outcome p spec f r) \<noteq> Err (NamespaceRejected NamespaceInvariantViolation)"
  using allocate_not_violated [OF assms] validate_not_violated(2) [OF assms]
  by (auto simp: create_object_with_commit_outcome_def staged_Err and_then_Err operational_Ok)

lemma create_child_not_violated:
  assumes "ns_inv (nr_state r)"
  shows "fst (create_child_with_open_count i n spec k f r) \<noteq> Err (NamespaceRejected NamespaceInvariantViolation)"
proof -
  have "stage_open_count k (f d) h (no_id o') m \<noteq> Err NamespaceInvariantViolation"
    if "allocate_object p spec (nr_state r) = Ok (o', m)" for p d h o' m
  proof -
    have "live_object m (no_id o') = Some o'" "no_open_handle_count o' = 0"
      using allocate_object_Ok [OF that] by (auto simp: NamespaceObject_new_def)
    then show ?thesis by (simp add: stage_open_count_spec Let_def)
  qed
  then show ?thesis
    using allocate_not_violated [OF assms] validate_not_violated(2) [OF assms]
    by (auto simp: create_child_with_open_count_def staged_Err and_then_Err operational_Ok)
qed

lemma link_not_violated:
  assumes "ns_inv (nr_state r)"
  shows "fst (link_child_with_commit_outcome i n j f r) \<noteq> Err (NamespaceRejected NamespaceInvariantViolation)"
  using attach_not_violated [OF assms] validate_not_violated(2) [OF assms]
  by (auto simp: link_child_with_commit_outcome_def staged_Err and_then_Err operational_Ok split: if_splits)

lemma remove_not_violated:
  assumes "ns_inv (nr_state r)"
  shows "fst (remove_object_with_commit_outcome i f r) \<noteq> Err (NamespaceRejected NamespaceInvariantViolation)"
    and "fst (remove_child_with_commit_outcome i n h r) \<noteq> Err (NamespaceRejected NamespaceInvariantViolation)"
proof -
  show "fst (remove_object_with_commit_outcome i f r) \<noteq> Err (NamespaceRejected NamespaceInvariantViolation)"
    using remove_record_spec(1) [OF assms _ primary_in_names]
    by (auto simp: remove_object_with_commit_outcome_def staged_Err result_Err operational_Ok split: if_splits)
  have "remove_record c p (h d) (nr_state r) \<noteq> Err NamespaceInvariantViolation"
    if "resolve_child d n (nr_state r) = Ok (p, c)" for c p d
    using resolve_child_Ok [OF assms that] remove_record_spec(1) [OF assms] by metis
  then show "fst (remove_child_with_commit_outcome i n h r) \<noteq> Err (NamespaceRejected NamespaceInvariantViolation)"
    using resolve_not_violated [OF assms]
    by (auto simp: remove_child_with_commit_outcome_def staged_Err and_then_Err operational_Ok)
qed

lemma rename_violated:
  assumes inv: "ns_inv (nr_state r)"
  shows "wf_path q \<Longrightarrow> fst (rename_subtree_with_commit_outcome rank p q f r) = Err (NamespaceRejected NamespaceInvariantViolation) \<Longrightarrow>
      blocked p q (nr_state r) NamespaceInvariantViolation"
    and "fst (rename_child_with_commit_outcome rank i n j m f r) = Err (NamespaceRejected NamespaceInvariantViolation) \<Longrightarrow>
      \<exists>p q. blocked p q (nr_state r) NamespaceInvariantViolation"
proof -
  show "blocked p q (nr_state r) NamespaceInvariantViolation" if "wf_path q"
      "fst (rename_subtree_with_commit_outcome rank p q f r) = Err (NamespaceRejected NamespaceInvariantViolation)"
    using that rename_records_spec(1) [OF inv that(1)]
    by (auto simp: rename_subtree_with_commit_outcome_def staged_Err and_then_Err operational_Ok)
  assume "fst (rename_child_with_commit_outcome rank i n j m f r) = Err (NamespaceRejected NamespaceInvariantViolation)"
  then obtain p d q where d: "directory_record j (nr_state r) = Ok d" "child_path d m = Ok q"
    and ren: "rename_records rank p q f (nr_state r) = Err NamespaceInvariantViolation"
    by (auto simp: rename_child_with_commit_outcome_def staged_Err and_then_Err operational_Ok)
  have "wf_path q" using child_path_wf [OF inv _ d(2)] d(1) by (auto simp: directory_record_Ok)
  from rename_records_spec(1) [OF inv this ren] show "\<exists>p q. blocked p q (nr_state r) NamespaceInvariantViolation" by blast
qed

fun is_rename :: "('t, 'e) NsOp \<Rightarrow> bool" where
  "is_rename (NsRename _ _ _ _) = True"
| "is_rename (NsRenameChild _ _ _ _ _ _) = True"
| "is_rename _ = False"

lemma count_not_violated:
  "fst (open_object_with_commit_outcome i f r) \<noteq> Err (NamespaceRejected NamespaceInvariantViolation)"
  "fst (close_object i g r) \<noteq> Err (NamespaceRejected NamespaceInvariantViolation)"
  "fst (close_object_for_cleanup i g r) \<noteq> Err (NamespaceRejected NamespaceInvariantViolation)"
  by (auto simp: open_object_with_commit_outcome_def close_object_def close_object_for_cleanup_def close_object_in_state_def
      write_operational_state_def ensure_operational_def Let_def
      split: option.split NamespaceExecutorOutcome.split sum.split)

lemma map_sum_Err: "map_sum id h x = Err e \<longleftrightarrow> x = Err e"
  by (cases x) auto

lemma step_violated:
  assumes inv: "ns_inv (nr_state r)" and viol: "fst (ns_step x r) = Err (NamespaceRejected NamespaceInvariantViolation)"
  shows "is_rename x \<and> (\<exists>p i q q'. path_object (nr_state r) p = Some i \<and> CanonicalPath_rebase p q q' = None)"
proof -
  have "is_rename x \<and> (\<exists>p q. blocked p q (nr_state r) NamespaceInvariantViolation)"
    using viol
    by (cases x)
      (auto simp: map_sum_Err with_path_def CanonicalPath_new_Ok create_child_with_commit_outcome_def
        create_open_child_with_commit_outcome_def create_not_violated [OF inv] create_child_not_violated [OF inv]
        link_not_violated [OF inv] remove_not_violated [OF inv] count_not_violated
        dest: rename_violated(1) [OF inv] rename_violated(2) [OF inv] split: sum.splits)
  then show ?thesis by (auto simp: blocked_def split: if_splits)
qed

end
