(* ===== verification/Namespace_Views.thy ===== *)
theory Namespace_Views
  imports Namespace_Machine
begin

text \<open>
  What a reader of the namespace is shown: the resolution of a symbolic link against a component by
  component walk of its text, and the listing of a directory.
\<close>

section \<open>Symbolic links\<close>

text \<open>The walk of a path text from a directory: an empty component and \<open>.\<close> stay, \<open>..\<close> goes to the
  parent and fails at the root, a name goes to the entry of that name.\<close>

fun walk :: "string list \<Rightarrow> string list \<Rightarrow> string list option" where
  "walk at [] = Some at"
| "walk at (c # cs) =
     (if c = '''' \<or> c = ''.'' then walk at cs
      else if c = ''..'' then (if at = [] then None else walk (butlast at) cs)
      else walk (at @ [c]) cs)"

lemma pop_parents_Suc:
  "pop_parents (n + 1) ws = (case pop_parents n ws of None \<Rightarrow> None | Some vs \<Rightarrow> if vs = [] then None else Some (butlast vs))"
proof (induction n arbitrary: ws)
  case (Suc n)
  show ?case using Suc.IH [of "butlast ws"] by (cases "ws = []") simp_all
qed simp

lemma pop_parents_None: "pop_parents n ws = None \<Longrightarrow> pop_parents (n + k) ws = None"
proof (induction k)
  case (Suc k)
  then show ?case using pop_parents_Suc [of "n + k" ws] by simp
qed simp

lemma target_components_parents:
  "target_components n ws cs = Ok (m, vs) \<Longrightarrow> n \<le> m \<and> (ws \<noteq> [] \<longrightarrow> m = n)"
proof (induction n ws cs rule: target_components.induct)
  case (2 parents segments c cs)
  then show ?case by (auto simp: and_then_Ok split: if_splits)
qed simp

text \<open>The components of a target climb first and descend afterwards, so that popping the parents and
  appending the names is the walk.\<close>

lemma target_components_walk:
  assumes "target_components n ws cs = Ok (m, vs)" "pop_parents n base = Some at"
  shows "walk (at @ ws) cs = map_option (\<lambda>b. b @ vs) (pop_parents m base)"
  using assms
proof (induction n ws cs arbitrary: at rule: target_components.induct)
  case (2 parents segments c cs)
  consider "c = '''' \<or> c = ''.''" | "c = ''..''" | "c \<notin> {'''', ''.'', ''..''}" by auto
  then show ?case
  proof cases
    case 1
    then show ?thesis using 2 by auto
  next
    case c: 2
    then have seg: "segments = []" and rest: "target_components (parents + 1) [] cs = Ok (m, vs)"
      using "2.prems"(1) by (auto split: if_splits)
    have up: "pop_parents (parents + 1) base = (if at = [] then None else Some (butlast at))"
      using pop_parents_Suc [of parents base] "2.prems"(2) by simp
    show ?thesis
    proof (cases "at = []")
      case True
      obtain k where "m = parents + 1 + k" using target_components_parents [OF rest] by (auto simp: le_iff_add)
      then have "pop_parents m base = None" using pop_parents_None [of "parents + 1" base k] up True by simp
      then show ?thesis using c seg True by simp
    next
      case False
      then have "walk (butlast at @ []) cs = map_option (\<lambda>b. b @ vs) (pop_parents m base)"
        using "2.IH"(2) [of "butlast at"] c seg rest up by simp
      then show ?thesis using c seg False by simp
    qed
  next
    case 3
    then have "target_components parents (segments @ [c]) cs = Ok (m, vs)"
      using "2.prems"(1) by (auto simp: and_then_Ok)
    then show ?thesis using "2.IH"(3) 3 "2.prems" by (auto simp: and_then_Ok)
  qed
qed simp

lemma SymlinkTarget_new_Ok:
  "SymlinkTarget_new literal = Ok t \<Longrightarrow>
     target_components 0 [] (split_on (CHR ''/'') literal) = Ok (sl_parents t, sl_segments t) \<and> sl_literal t = literal"
  by (auto simp: SymlinkTarget_new_def Let_def and_then_Ok split: if_splits)

lemma resolve_from_walk:
  assumes "SymlinkTarget_new literal = Ok t"
  shows "resolve_from t link = Ok q \<longleftrightarrow>
    cp_segments link \<noteq> [] \<and> walk (butlast (cp_segments link)) (split_on (CHR ''/'') literal) = Some (cp_segments q) \<and> wf_path q"
proof -
  have "walk base (split_on (CHR ''/'') literal) = map_option (\<lambda>b. b @ sl_segments t) (pop_parents (sl_parents t) base)" for base
    using target_components_walk [of 0 "[]" "split_on (CHR ''/'') literal" "sl_parents t" "sl_segments t" base base]
      SymlinkTarget_new_Ok [OF assms] by simp
  then show ?thesis
    by (auto simp: resolve_from_def and_then_Ok CanonicalPath_new_Ok CanonicalPath_parent_def Let_def)
qed

section \<open>Directory listings\<close>

lemma collect_children_Ok:
  "(\<forall>(p, i)\<in>set es. fmlookup objects i \<noteq> None) \<Longrightarrow>
     collect_children objects es = Ok (map (\<lambda>(p, i). \<lparr>nc_path = p, nc_object = the (fmlookup objects i)\<rparr>) es)"
  by (induction es) auto

lemma child_depth:
  assumes "length (cp_segments p) = length (cp_segments d) + 1"
  shows "CanonicalPath_is_at_or_below p d \<longleftrightarrow> CanonicalPath_parent p = Some d"
proof
  assume "CanonicalPath_is_at_or_below p d"
  then obtain w where w: "cp_segments p = cp_segments d @ w" by (auto simp: below_iff)
  with assms obtain x where "w = [x]" by (cases w) auto
  with w show "CanonicalPath_parent p = Some d" by (simp add: CanonicalPath_parent_def)
next
  assume "CanonicalPath_parent p = Some d"
  then show "CanonicalPath_is_at_or_below p d" using parent_below by blast
qed

lemma parent_length: "CanonicalPath_parent p = Some d \<Longrightarrow> length (cp_segments p) = length (cp_segments d) + 1"
  by (auto simp: CanonicalPath_parent_def split: if_splits)

definition is_child :: "CanonicalPath \<Rightarrow> CanonicalPath \<times> ObjectId \<Rightarrow> bool" where
  "is_child d e \<longleftrightarrow> CanonicalPath_parent (fst e) = Some d"

lemma child_filter:
  "(case e of (path, _) \<Rightarrow> length (cp_segments path) = length (cp_segments d) + 1 \<and> CanonicalPath_is_at_or_below path d) \<longleftrightarrow> is_child d e"
  using child_depth [of "fst e" d] parent_length [of "fst e" d] by (cases e) (auto simp: is_child_def)

text \<open>The names of a directory in increasing order, with the objects they denote.\<close>

definition listing :: "NamespaceState \<Rightarrow> CanonicalPath \<Rightarrow> NamespaceChild list \<Rightarrow> bool" where
  "listing s d cs \<longleftrightarrow> sorted_wrt (<) (map (\<lambda>c. last (cp_segments (nc_path c))) cs) \<and>
     (\<forall>p r. \<lparr>nc_path = p, nc_object = r\<rparr> \<in> set cs \<longleftrightarrow>
        CanonicalPath_parent p = Some d \<and> (\<exists>i. path_object s p = Some i \<and> live_object s i = Some r))"

lemma child_names_inj:
  assumes "CanonicalPath_parent p = Some d" "CanonicalPath_parent q = Some d" "last (cp_segments p) = last (cp_segments q)"
  shows "p = q"
proof (rule path_eqI)
  have "butlast (cp_segments p) = butlast (cp_segments q)" "cp_segments p \<noteq> []" "cp_segments q \<noteq> []"
    using assms(1,2) by (auto simp: CanonicalPath_parent_def split: if_splits)
  then show "cp_segments p = cp_segments q" using assms(3) append_butlast_last_id by metis
qed

lemma distinct_map_sort: "distinct (map f (sort_key g xs)) \<longleftrightarrow> distinct (map f xs)"
  by (simp add: distinct_map)

lemma listing_sorted:
  assumes inv: "ns_inv s" and es: "es = filter (is_child d) (hash_order rank (nss_paths s))"
  shows "collect_children (nss_objects s) es = Ok (map (\<lambda>(p, i). \<lparr>nc_path = p, nc_object = the (live_object s i)\<rparr>) es)"
    and "listing s d (sort_key (\<lambda>c. last (cp_segments (nc_path c)))
      (map (\<lambda>(p, i). \<lparr>nc_path = p, nc_object = the (live_object s i)\<rparr>) es))" (is "listing s d (sort_key ?name ?cs)")
proof -
  have mem: "(p, i) \<in> set es \<longleftrightarrow> CanonicalPath_parent p = Some d \<and> path_object s p = Some i" for p i
    by (auto simp: es set_hash_order is_child_def)
  have live: "\<exists>r. live_object s i = Some r" if "path_object s p = Some i" for p i
    using ns_inv_path [OF inv that] by blast
  show "collect_children (nss_objects s) es = Ok ?cs"
    by (rule collect_children_Ok) (use mem live in force)
  have "distinct (map fst es)"
    using distinct_hash_order [of rank "nss_paths s"] by (simp add: es distinct_map_filter)
  moreover have "inj_on (\<lambda>p. last (cp_segments p)) (set (map fst es))"
    using mem child_names_inj by (fastforce simp: inj_on_def)
  ultimately have "distinct (map (\<lambda>p. last (cp_segments p)) (map fst es))"
    by (simp only: distinct_map simp_thms)
  moreover have "map ?name ?cs = map (\<lambda>p. last (cp_segments p)) (map fst es)" by (induction es) auto
  ultimately have "distinct (map ?name ?cs)" by metis
  then have "distinct (map ?name (sort_key ?name ?cs))" by (simp only: distinct_map_sort)
  then have "sorted_wrt (<) (map ?name (sort_key ?name ?cs))" unfolding strict_sorted_iff by simp
  moreover have "\<lparr>nc_path = p, nc_object = r\<rparr> \<in> set ?cs \<longleftrightarrow>
      CanonicalPath_parent p = Some d \<and> (\<exists>i. path_object s p = Some i \<and> live_object s i = Some r)" for p r
  proof -
    have "\<lparr>nc_path = p, nc_object = r\<rparr> \<in> set ?cs \<longleftrightarrow> (\<exists>i. (p, i) \<in> set es \<and> r = the (live_object s i))"
      by (force simp: image_iff)
    then show ?thesis unfolding mem using live by fastforce
  qed
  ultimately show "listing s d (sort_key ?name ?cs)" by (simp add: listing_def)
qed

text \<open>A listing of a live directory at the current generation always succeeds and is exact.\<close>

lemma directory_view_exact:
  assumes inv: "ns_inv s" and d: "live_object s i = Some d" "no_kind d = Directory"
    and gen: "expected \<in> {None, Some (nss_generation s)}"
  shows "\<exists>parent cs. directory_view rank i expected s = Ok (d, parent, cs) \<and> listing s (no_primary d) cs \<and>
    (case CanonicalPath_parent (no_primary d) of
       None \<Rightarrow> parent = d
     | Some q \<Rightarrow> \<exists>j. path_object s q = Some j \<and> live_object s j = Some parent \<and> no_kind parent = Directory)"
proof -
  note l = listing_sorted [OF inv refl, of "no_primary d" rank]
  obtain parent where parent: "(case CanonicalPath_parent (no_primary d) of
         Some parent_path \<Rightarrow>
           and_then (ok_or (MissingParent parent_path) (path_object s parent_path)) (\<lambda>parent_id.
           ok_or NamespaceInvariantViolation (live_object s parent_id))
       | None \<Rightarrow> Ok d) = Ok parent"
    and kind: "case CanonicalPath_parent (no_primary d) of None \<Rightarrow> parent = d
     | Some q \<Rightarrow> \<exists>j. path_object s q = Some j \<and> live_object s j = Some parent \<and> no_kind parent = Directory"
  proof (cases "CanonicalPath_parent (no_primary d)")
    case (Some q)
    then obtain j e where "path_object s q = Some j" "live_object s j = Some e" "no_kind e = Directory"
      using ns_invD(4) [OF inv primary_path [OF inv d(1)] Some] by (auto simp: is_directory_def)
    then show ?thesis using that [of e] Some by simp
  qed (use that in simp)
  have dir: "directory_record i s = Ok d" using d by (simp add: directory_record_Ok)
  have stale: "(case expected of Some g \<Rightarrow> if nss_generation s \<noteq> g then Err (DirectoryGenerationChanged g (nss_generation s)) else Ok ()
       | None \<Rightarrow> Ok ()) = Ok ()" using gen by auto
  have "directory_view rank i expected s = Ok (d, parent, sort_key (\<lambda>c. last (cp_segments (nc_path c)))
      (map (\<lambda>(p, i). \<lparr>nc_path = p, nc_object = the (live_object s i)\<rparr>)
        (filter (is_child (no_primary d)) (hash_order rank (nss_paths s)))))"
    unfolding directory_view_def stale dir and_then_simps parent Let_def child_filter [abs_def] l(1) ..
  then show ?thesis using l(2) kind by blast
qed

end
