(* ===== verification/Node_Table.thy ===== *)
theory Node_Table
  imports Capability_State
begin

text \<open>
  Mount-local node identities of the capability filesystem (\<open>capfs/src/node.rs\<close>): a table from
  FUSE node numbers to namespace objects with lookup-reference counts. The operations run under the
  table's lock, so each is one transition of \<open>NodeState\<close>.
\<close>

section \<open>The table\<close>

datatype NodeId = NodeId (node_u64: u64)

instantiation NodeId :: linorder
begin

definition less_eq_NodeId :: "NodeId \<Rightarrow> NodeId \<Rightarrow> bool" where
  "less_eq_NodeId a b \<longleftrightarrow> node_u64 a \<le> node_u64 b"

definition less_NodeId :: "NodeId \<Rightarrow> NodeId \<Rightarrow> bool" where
  "less_NodeId a b \<longleftrightarrow> node_u64 a < node_u64 b"

instance
  by standard (auto simp: less_eq_NodeId_def less_NodeId_def intro: NodeId.expand)

end

definition ROOT :: NodeId where
  "ROOT = NodeId 1"

definition FIRST_DYNAMIC_NODE_SEQUENCE :: u64 where
  "FIRST_DYNAMIC_NODE_SEQUENCE = 2"

definition NodeId_new :: "u64 \<Rightarrow> NodeId option" where
  "NodeId_new v = (if v = 0 then None else Some (NodeId v))"

record NodeBinding =
  nb_node :: NodeId
  nb_object :: ObjectId
  nb_lookup_count :: u64

definition NodeBinding_new :: "NodeId \<Rightarrow> ObjectId \<Rightarrow> NodeBinding" where
  "NodeBinding_new node object = \<lparr>nb_node = node, nb_object = object, nb_lookup_count = 1\<rparr>"

datatype ForgetOutcome = Retained NodeBinding | Removed ObjectId

datatype NodeTableError =
    UnknownNode NodeId
  | NodeIdExhausted
  | LookupCountExhausted NodeId
  | ForgetCountExceedsLookupCount (forget_node: NodeId) (forget_requested: u64) (forget_current: u64)
  | CannotForgetRoot
  | NodeInvariantViolation

fun NodeTableError_display :: "NodeTableError \<Rightarrow> string" where
  "NodeTableError_display (UnknownNode n) = ''node `'' @ show_nat (unat (node_u64 n)) @ ''` is not live''"
| "NodeTableError_display NodeIdExhausted = ''mount-local node ID sequence is exhausted''"
| "NodeTableError_display (LookupCountExhausted n) =
     ''node `'' @ show_nat (unat (node_u64 n)) @ ''` cannot accept another LOOKUP reference''"
| "NodeTableError_display (ForgetCountExceedsLookupCount n requested current) =
     ''node `'' @ show_nat (unat (node_u64 n)) @ ''` cannot forget '' @ show_nat (unat requested) @
     '' references while only '' @ show_nat (unat current) @ '' are live''"
| "NodeTableError_display CannotForgetRoot = ''the root node cannot be forgotten''"
| "NodeTableError_display NodeInvariantViolation = ''node and object indexes are inconsistent''"

record NodeState =
  ns_nodes :: "(NodeId, NodeBinding) fmap"
  ns_objects :: "(ObjectId, NodeId) fmap"
  ns_next_node_sequence :: "u64 option"

record NodeTable =
  nt_subject :: SubjectId
  nt_state :: NodeState

definition NodeState_new :: "ObjectId \<Rightarrow> NodeState" where
  "NodeState_new root_object =
     \<lparr>ns_nodes = fmupd ROOT (NodeBinding_new ROOT root_object) fmempty,
      ns_objects = fmupd root_object ROOT fmempty,
      ns_next_node_sequence = Some FIRST_DYNAMIC_NODE_SEQUENCE\<rparr>"

definition NodeTable_new :: "SubjectId \<Rightarrow> ObjectId \<Rightarrow> NodeTable" where
  "NodeTable_new subject root_object = \<lparr>nt_subject = subject, nt_state = NodeState_new root_object\<rparr>"

definition NodeState_allocate :: "ObjectId \<Rightarrow> NodeState \<Rightarrow> (NodeTableError, NodeBinding) result \<times> NodeState" where
  "NodeState_allocate object s = (case ns_next_node_sequence s of
     None \<Rightarrow> (Err NodeIdExhausted, s)
   | Some sequence \<Rightarrow>
       (case NodeId_new sequence of
         None \<Rightarrow> (Err NodeInvariantViolation, s)
       | Some node \<Rightarrow>
           if fmlookup (ns_nodes s) node \<noteq> None \<or> fmlookup (ns_objects s) object \<noteq> None then
             (Err NodeInvariantViolation, s)
           else
             let binding = NodeBinding_new node object in
             (Ok binding,
              s\<lparr>ns_next_node_sequence := checked_add sequence 1,
                ns_nodes := fmupd node binding (ns_nodes s),
                ns_objects := fmupd object node (ns_objects s)\<rparr>)))"

definition remember_lookup :: "ObjectId \<Rightarrow> NodeState \<Rightarrow> (NodeTableError, NodeBinding) result \<times> NodeState" where
  "remember_lookup object s = (case fmlookup (ns_objects s) object of
     Some node \<Rightarrow>
       (case fmlookup (ns_nodes s) node of
         None \<Rightarrow> (Err NodeInvariantViolation, s)
       | Some binding \<Rightarrow>
           if nb_object binding \<noteq> object then (Err NodeInvariantViolation, s)
           else if node \<noteq> ROOT then
             (case checked_add (nb_lookup_count binding) 1 of
               None \<Rightarrow> (Err (LookupCountExhausted node), s)
             | Some count \<Rightarrow>
                 let binding = binding\<lparr>nb_lookup_count := count\<rparr> in
                 (Ok binding, s\<lparr>ns_nodes := fmupd node binding (ns_nodes s)\<rparr>))
           else (Ok binding, s))
   | None \<Rightarrow> NodeState_allocate object s)"

definition binding :: "NodeId \<Rightarrow> NodeState \<Rightarrow> (NodeTableError, NodeBinding) result" where
  "binding node s = ok_or (UnknownNode node) (fmlookup (ns_nodes s) node)"

definition resolve :: "NodeId \<Rightarrow> NodeState \<Rightarrow> (NodeTableError, ObjectId) result" where
  "resolve node s = and_then (binding node s) (\<lambda>b. Ok (nb_object b))"

definition node_for_object :: "ObjectId \<Rightarrow> NodeState \<Rightarrow> (NodeTableError, NodeId option) result" where
  "node_for_object object s = (case fmlookup (ns_objects s) object of
     None \<Rightarrow> Ok None
   | Some node \<Rightarrow>
       (case fmlookup (ns_nodes s) node of
         None \<Rightarrow> Err NodeInvariantViolation
       | Some b \<Rightarrow> if nb_object b \<noteq> object then Err NodeInvariantViolation else Ok (Some node)))"

definition forget :: "NodeId \<Rightarrow> u64 \<Rightarrow> NodeState \<Rightarrow> (NodeTableError, ForgetOutcome) result \<times> NodeState" where
  "forget node requested s =
     (if node = ROOT then (Err CannotForgetRoot, s)
      else (case fmlookup (ns_nodes s) node of
        None \<Rightarrow> (Err (UnknownNode node), s)
      | Some b \<Rightarrow>
          if requested > nb_lookup_count b then
            (Err (ForgetCountExceedsLookupCount node requested (nb_lookup_count b)), s)
          else if fmlookup (ns_objects s) (nb_object b) \<noteq> Some node then (Err NodeInvariantViolation, s)
          else if requested = nb_lookup_count b then
            (Ok (Removed (nb_object b)),
             s\<lparr>ns_nodes := fmdrop node (ns_nodes s), ns_objects := fmdrop (nb_object b) (ns_objects s)\<rparr>)
          else
            let retained = b\<lparr>nb_lookup_count := nb_lookup_count b - requested\<rparr> in
            (Ok (Retained retained), s\<lparr>ns_nodes := fmupd node retained (ns_nodes s)\<rparr>)))"

definition node_count :: "NodeState \<Rightarrow> nat" where
  "node_count s = fm_len (ns_nodes s)"

definition live_nodes :: "NodeState \<Rightarrow> NodeId list" where
  "live_nodes s = sorted_list_of_fset (fmdom (ns_nodes s))"

section \<open>The invariant\<close>

text \<open>A node number that has been handed out, or never will be.\<close>

definition spent :: "NodeState \<Rightarrow> NodeId \<Rightarrow> bool" where
  "spent s n \<longleftrightarrow> (case ns_next_node_sequence s of None \<Rightarrow> True | Some k \<Rightarrow> node_u64 n < k)"

definition node_inv :: "ObjectId \<Rightarrow> NodeState \<Rightarrow> bool" where
  "node_inv root s \<longleftrightarrow>
     (\<forall>n b. fmlookup (ns_nodes s) n = Some b \<longrightarrow>
        nb_node b = n \<and> fmlookup (ns_objects s) (nb_object b) = Some n \<and> nb_lookup_count b \<noteq> 0 \<and> spent s n) \<and>
     (\<forall>x n. fmlookup (ns_objects s) x = Some n \<longrightarrow> (\<exists>b. fmlookup (ns_nodes s) n = Some b \<and> nb_object b = x)) \<and>
     fmlookup (ns_nodes s) ROOT = Some (NodeBinding_new ROOT root) \<and>
     (\<forall>k. ns_next_node_sequence s = Some k \<longrightarrow> 2 \<le> k)"

text \<open>How many references the kernel still holds on a node.\<close>

definition references :: "NodeState \<Rightarrow> NodeId \<Rightarrow> nat" where
  "references s n = (case fmlookup (ns_nodes s) n of None \<Rightarrow> 0 | Some b \<Rightarrow> unat (nb_lookup_count b))"

text \<open>A later table: spent numbers stay spent, and none of them changes its object or comes back.\<close>

definition node_later :: "NodeState \<Rightarrow> NodeState \<Rightarrow> bool" where
  "node_later s t \<longleftrightarrow> (\<forall>n. spent s n \<longrightarrow> spent t n \<and>
     (\<forall>b. fmlookup (ns_nodes t) n = Some b \<longrightarrow>
        (\<exists>a. fmlookup (ns_nodes s) n = Some a \<and> nb_object a = nb_object b)))"

section \<open>Every operation makes one elementary change\<close>

inductive node_change :: "NodeState \<Rightarrow> NodeState \<Rightarrow> bool" for s where
  same: "node_change s s"
| bind: "node_change s (s\<lparr>ns_next_node_sequence := checked_add k 1,
      ns_nodes := fmupd (NodeId k) (NodeBinding_new (NodeId k) x) (ns_nodes s),
      ns_objects := fmupd x (NodeId k) (ns_objects s)\<rparr>)"
    if "ns_next_node_sequence s = Some k" "fmlookup (ns_nodes s) (NodeId k) = None" "fmlookup (ns_objects s) x = None"
| recount: "node_change s (s\<lparr>ns_nodes := fmupd n (b\<lparr>nb_lookup_count := c\<rparr>) (ns_nodes s)\<rparr>)"
    if "fmlookup (ns_nodes s) n = Some b" "n \<noteq> ROOT" "c \<noteq> 0"
| unbind: "node_change s (s\<lparr>ns_nodes := fmdrop n (ns_nodes s), ns_objects := fmdrop (nb_object b) (ns_objects s)\<rparr>)"
    if "fmlookup (ns_nodes s) n = Some b" "n \<noteq> ROOT"

lemma checked_add_nonzero: "checked_add v 1 = Some c \<Longrightarrow> c \<noteq> 0" for v :: u64
  by (auto simp: checked_add_Some_iff)

lemma remember_change: "node_change s (snd (remember_lookup x s))"
  by (auto simp: remember_lookup_def NodeState_allocate_def NodeId_new_def Let_def
      intro: node_change.intros dest: checked_add_nonzero split: option.split if_splits)

lemma forget_change: "node_change s (snd (forget n c s))"
  by (auto simp: forget_def Let_def intro: node_change.intros split: option.split)

lemma spent_upd: "spent (s\<lparr>ns_nodes := m, ns_objects := q\<rparr>) = spent s" "spent (s\<lparr>ns_nodes := m\<rparr>) = spent s"
  by (auto simp: spent_def fun_eq_iff)

lemma spent_bind:
  assumes "ns_next_node_sequence s = Some k"
  shows "spent (s\<lparr>ns_next_node_sequence := checked_add k 1, ns_nodes := m, ns_objects := q\<rparr>) n \<longleftrightarrow>
    spent s n \<or> n = NodeId k"
proof (cases n, cases "checked_add k 1")
  fix v assume n: "n = NodeId v"
  have "unat v < 2 ^ 64" using unsigned_less [of v] by simp
  moreover assume "checked_add k 1 = None"
  ultimately have "unat v \<le> unat k" by (simp add: checked_add_None_iff)
  with \<open>checked_add k 1 = None\<close> n assms show ?thesis
    by (auto simp: spent_def word_less_nat_alt word_unat_eq_iff)
next
  fix v c assume n: "n = NodeId v" and c: "checked_add k 1 = Some c"
  then have "unat c = unat k + 1" by (simp add: checked_add_Some_iff)
  with n c assms show ?thesis
    by (auto simp: spent_def word_less_nat_alt word_unat_eq_iff)
qed

lemma node_invD:
  assumes "node_inv root s"
  shows "fmlookup (ns_nodes s) n = Some b \<Longrightarrow>
      nb_node b = n \<and> fmlookup (ns_objects s) (nb_object b) = Some n \<and> nb_lookup_count b \<noteq> 0 \<and> spent s n"
    and "fmlookup (ns_objects s) x = Some n \<Longrightarrow> \<exists>b. fmlookup (ns_nodes s) n = Some b \<and> nb_object b = x"
    and "fmlookup (ns_nodes s) ROOT = Some (NodeBinding_new ROOT root)"
    and "ns_next_node_sequence s = Some k \<Longrightarrow> 2 \<le> k"
  using assms by (simp_all add: node_inv_def)

lemma node_inv_bind:
  assumes inv: "node_inv root s" and k: "ns_next_node_sequence s = Some k"
    and fresh: "fmlookup (ns_nodes s) (NodeId k) = None" "fmlookup (ns_objects s) x = None"
  shows "node_inv root (s\<lparr>ns_next_node_sequence := checked_add k 1,
      ns_nodes := fmupd (NodeId k) (NodeBinding_new (NodeId k) x) (ns_nodes s),
      ns_objects := fmupd x (NodeId k) (ns_objects s)\<rparr>)" (is "node_inv root ?t")
  unfolding node_inv_def
proof (intro conjI allI impI)
  note spent = spent_bind [OF k]
  note inv' = node_invD [OF inv]
  fix n b assume n: "fmlookup (ns_nodes ?t) n = Some b"
  have old: "fmlookup (ns_nodes s) n = Some b \<or> n = NodeId k \<and> b = NodeBinding_new n x"
    using n by (auto split: if_splits)
  then show "nb_node b = n" "nb_lookup_count b \<noteq> 0" "spent ?t n"
    using inv'(1) by (auto simp: NodeBinding_new_def spent)
  show "fmlookup (ns_objects ?t) (nb_object b) = Some n"
    using old inv'(1) fresh(2) by (auto simp: NodeBinding_new_def)
next
  fix y n assume "fmlookup (ns_objects ?t) y = Some n"
  then show "\<exists>b. fmlookup (ns_nodes ?t) n = Some b \<and> nb_object b = y"
    using node_invD(2) [OF inv, of y n] fresh(1) by (auto simp: NodeBinding_new_def split: if_splits)
next
  show "fmlookup (ns_nodes ?t) ROOT = Some (NodeBinding_new ROOT root)"
    using node_invD(3) [OF inv] fresh(1) by (auto simp: ROOT_def)
next
  fix c assume "ns_next_node_sequence ?t = Some c"
  then show "2 \<le> c"
    using node_invD(4) [OF inv k] by (simp add: checked_add_Some_iff word_le_nat_alt)
qed

lemma node_inv_unbind:
  assumes inv: "node_inv root s" and b: "fmlookup (ns_nodes s) n = Some b" "n \<noteq> ROOT"
  shows "node_inv root (s\<lparr>ns_nodes := fmdrop n (ns_nodes s), ns_objects := fmdrop (nb_object b) (ns_objects s)\<rparr>)"
    (is "node_inv root ?t")
  unfolding node_inv_def
proof (intro conjI allI impI)
  fix m c assume "fmlookup (ns_nodes ?t) m = Some c"
  then have m: "fmlookup (ns_nodes s) m = Some c" "m \<noteq> n" by (auto split: if_splits)
  then show "nb_node c = m" "nb_lookup_count c \<noteq> 0" "spent ?t m"
    using node_invD(1) [OF inv m(1)] by (simp_all add: spent_upd)
  have "nb_object c \<noteq> nb_object b"
    using node_invD(1) [OF inv m(1)] node_invD(1) [OF inv b(1)] m(2) by auto
  then show "fmlookup (ns_objects ?t) (nb_object c) = Some m"
    using node_invD(1) [OF inv m(1)] by simp
next
  fix y m assume "fmlookup (ns_objects ?t) y = Some m"
  then have y: "fmlookup (ns_objects s) y = Some m" "y \<noteq> nb_object b" by (auto split: if_splits)
  obtain c where c: "fmlookup (ns_nodes s) m = Some c" "nb_object c = y"
    using node_invD(2) [OF inv y(1)] by blast
  with y(2) b(1) have "m \<noteq> n" by auto
  with c show "\<exists>b. fmlookup (ns_nodes ?t) m = Some b \<and> nb_object b = y" by simp
next
  show "fmlookup (ns_nodes ?t) ROOT = Some (NodeBinding_new ROOT root)"
    using node_invD(3) [OF inv] b(2) by simp
next
  fix k assume "ns_next_node_sequence ?t = Some k"
  then show "2 \<le> k" using node_invD(4) [OF inv] by simp
qed

lemma node_inv_change:
  assumes "node_change s t" "node_inv root s"
  shows "node_inv root t"
  using assms(1)
proof cases
  case (bind k x)
  with node_inv_bind [OF assms(2)] show ?thesis by simp
next
  case (recount n b c)
  then show ?thesis using assms(2) unfolding node_inv_def by (auto simp: spent_def) fastforce
next
  case (unbind n b)
  with node_inv_unbind [OF assms(2)] show ?thesis by simp
qed (use assms(2) in simp)

lemma node_inv_new: "node_inv root (NodeState_new root)"
  by (auto simp: node_inv_def NodeState_new_def NodeBinding_new_def spent_def ROOT_def FIRST_DYNAMIC_NODE_SEQUENCE_def)

lemma node_later_change:
  assumes "node_change s t" "node_inv root s"
  shows "node_later s t"
  using assms(1)
proof cases
  case (bind k x)
  then show ?thesis
    by (auto simp: node_later_def spent_bind [OF bind(2)]) (simp add: spent_def)
qed (auto simp: node_later_def spent_upd)

lemma node_later_trans: "node_later s t \<Longrightarrow> node_later t u \<Longrightarrow> node_later s u"
  unfolding node_later_def by metis

section \<open>Sequences of requests\<close>

datatype NodeOp = LookupOp ObjectId | ForgetOp NodeId u64
datatype NodeReply = Remembered NodeBinding | Forgotten ForgetOutcome

fun node_step :: "NodeOp \<Rightarrow> NodeState \<Rightarrow> (NodeTableError, NodeReply) result \<times> NodeState" where
  "node_step (LookupOp x) s = apfst (map_sum id Remembered) (remember_lookup x s)"
| "node_step (ForgetOp n c) s = apfst (map_sum id Forgotten) (forget n c s)"

lemma node_step_change: "node_change s (snd (node_step x s))"
  by (cases x) (simp_all add: remember_change forget_change)

interpretation nodes: machine node_step "node_inv root" node_later for root
proof
  show "node_later s s" for s by (simp add: node_later_def)
qed (auto intro: node_inv_change node_later_change node_later_trans node_step_change)

text \<open>References a reply grants to, or a request takes from, a node other than the root.\<close>

fun granted_references :: "NodeId \<Rightarrow> ('e, NodeReply) result \<Rightarrow> nat" where
  "granted_references n (Ok (Remembered b)) = (if nb_node b = n then 1 else 0)"
| "granted_references n _ = 0"

fun dropped_references :: "NodeId \<Rightarrow> NodeOp \<Rightarrow> ('e, NodeReply) result \<Rightarrow> nat" where
  "dropped_references n (ForgetOp m c) (Ok _) = (if m = n then unat c else 0)"
| "dropped_references n _ _ = 0"

lemma remember_known:
  assumes "node_inv root s" "fmlookup (ns_objects s) x = Some n"
  obtains b where "fmlookup (ns_nodes s) n = Some b" "nb_node b = n"
    "remember_lookup x s =
      (if n = ROOT then (Ok b, s)
       else (case checked_add (nb_lookup_count b) 1 of
           None \<Rightarrow> (Err (LookupCountExhausted n), s)
         | Some c \<Rightarrow> (Ok (b\<lparr>nb_lookup_count := c\<rparr>), s\<lparr>ns_nodes := fmupd n (b\<lparr>nb_lookup_count := c\<rparr>) (ns_nodes s)\<rparr>)))"
proof -
  obtain b where b: "fmlookup (ns_nodes s) n = Some b" "nb_object b = x"
    using node_invD(2) [OF assms] by blast
  then have "nb_node b = n" using node_invD(1) [OF assms(1)] by blast
  from b(1) this show ?thesis
    by (rule that) (simp add: remember_lookup_def Let_def assms(2) b split: option.split)
qed

lemma remember_new:
  assumes "node_inv root s" "fmlookup (ns_objects s) x = None"
  shows "remember_lookup x s = (case ns_next_node_sequence s of
      None \<Rightarrow> (Err NodeIdExhausted, s)
    | Some k \<Rightarrow> (Ok (NodeBinding_new (NodeId k) x),
        s\<lparr>ns_next_node_sequence := checked_add k 1,
          ns_nodes := fmupd (NodeId k) (NodeBinding_new (NodeId k) x) (ns_nodes s),
          ns_objects := fmupd x (NodeId k) (ns_objects s)\<rparr>))"
    and "ns_next_node_sequence s = Some k \<Longrightarrow> fmlookup (ns_nodes s) (NodeId k) = None"
proof -
  have free: "fmlookup (ns_nodes s) (NodeId k) = None" if "ns_next_node_sequence s = Some k" for k
    using that node_invD(1) [OF assms(1), of "NodeId k"]
    by (cases "fmlookup (ns_nodes s) (NodeId k)") (auto simp: spent_def)
  then show "ns_next_node_sequence s = Some k \<Longrightarrow> fmlookup (ns_nodes s) (NodeId k) = None" .
  have "k \<noteq> 0" if "ns_next_node_sequence s = Some k" for k
    using node_invD(4) [OF assms(1) that] by (auto simp: word_le_nat_alt)
  with free show "remember_lookup x s = (case ns_next_node_sequence s of
      None \<Rightarrow> (Err NodeIdExhausted, s)
    | Some k \<Rightarrow> (Ok (NodeBinding_new (NodeId k) x),
        s\<lparr>ns_next_node_sequence := checked_add k 1,
          ns_nodes := fmupd (NodeId k) (NodeBinding_new (NodeId k) x) (ns_nodes s),
          ns_objects := fmupd x (NodeId k) (ns_objects s)\<rparr>))"
    using assms(2)
    by (simp add: remember_lookup_def NodeState_allocate_def NodeId_new_def Let_def split: option.split)
qed

lemma forget_live:
  assumes "node_inv root s" "n \<noteq> ROOT" "fmlookup (ns_nodes s) n = Some b"
  shows "forget n c s =
     (if c > nb_lookup_count b then (Err (ForgetCountExceedsLookupCount n c (nb_lookup_count b)), s)
      else if c = nb_lookup_count b then
        (Ok (Removed (nb_object b)),
         s\<lparr>ns_nodes := fmdrop n (ns_nodes s), ns_objects := fmdrop (nb_object b) (ns_objects s)\<rparr>)
      else
        (Ok (Retained (b\<lparr>nb_lookup_count := nb_lookup_count b - c\<rparr>)),
         s\<lparr>ns_nodes := fmupd n (b\<lparr>nb_lookup_count := nb_lookup_count b - c\<rparr>) (ns_nodes s)\<rparr>))"
  using assms node_invD(1) [OF assms(1,3)] by (simp add: forget_def Let_def)

lemma node_step_consistent:
  assumes "node_inv root s"
  shows "fst (node_step x s) \<noteq> Err NodeInvariantViolation"
proof (cases x)
  case (LookupOp y)
  show ?thesis
  proof (cases "fmlookup (ns_objects s) y")
    case None
    with LookupOp show ?thesis by (simp add: remember_new(1) [OF assms] split: option.split)
  next
    case (Some n)
    from assms this show ?thesis
      by (rule remember_known) (simp add: LookupOp split: option.split)
  qed
next
  case (ForgetOp n c)
  show ?thesis
  proof (cases "n = ROOT \<or> fmlookup (ns_nodes s) n = None")
    case True
    with ForgetOp show ?thesis by (auto simp: forget_def)
  next
    case False
    then obtain b where "fmlookup (ns_nodes s) n = Some b" "n \<noteq> ROOT" by auto
    with ForgetOp show ?thesis by (simp add: forget_live [OF assms])
  qed
qed

lemma node_step_references:
  assumes "node_inv root s" "n \<noteq> ROOT"
  shows "references (snd (node_step x s)) n + dropped_references n x (fst (node_step x s)) =
    references s n + granted_references n (fst (node_step x s))"
proof (cases x)
  case (LookupOp y)
  show ?thesis
  proof (cases "fmlookup (ns_objects s) y")
    case None
    with LookupOp remember_new(2) [OF assms(1) None] show ?thesis
      by (auto simp: remember_new(1) [OF assms(1)] references_def NodeBinding_new_def split: option.split)
  next
    case (Some m)
    from assms(1) this show ?thesis
      by (rule remember_known)
        (use assms(2) in \<open>auto simp: LookupOp references_def checked_add_Some_iff split: option.split\<close>)
  qed
next
  case (ForgetOp m c)
  show ?thesis
  proof (cases "m = ROOT \<or> fmlookup (ns_nodes s) m = None")
    case True
    with ForgetOp show ?thesis by (auto simp: forget_def)
  next
    case False
    then obtain b where b: "fmlookup (ns_nodes s) m = Some b" "m \<noteq> ROOT" by auto
    have "unat (nb_lookup_count b - c) + unat c = unat (nb_lookup_count b)" if "\<not> c > nb_lookup_count b"
      using that by (simp add: unat_sub not_less word_le_nat_alt)
    then show ?thesis
      using b(1) unfolding ForgetOp node_step.simps forget_live [OF assms(1) b(2,1)]
      by (auto simp: references_def)
  qed
qed

lemma node_run_references:
  "node_inv root s \<Longrightarrow> n \<noteq> ROOT \<Longrightarrow>
   Err NodeInvariantViolation \<notin> set (trace node_step xs s) \<and>
   references (run node_step xs s) n + sum_list (map2 (dropped_references n) xs (trace node_step xs s)) =
     references s n + sum_list (map (granted_references n) (trace node_step xs s))"
proof (induction xs arbitrary: s)
  case (Cons x xs)
  have "node_inv root (snd (node_step x s))"
    by (rule node_inv_change [OF node_step_change Cons.prems(1)])
  from Cons.IH [OF this Cons.prems(2)] node_step_references [OF Cons.prems, of x] node_step_consistent [OF Cons.prems(1), of x]
  show ?case by (auto simp del: node_step.simps)
qed simp

end
