(* ===== verification/Capfs_Theorems.thy ===== *)
theory Capfs_Theorems
  imports Namespace_Views Node_Table
begin

text \<open>
  The properties of the capability filesystem: its shared namespace and the node table of a mount.
\<close>

section \<open>A small namespace\<close>

text \<open>A namespace with one file, used to instantiate the properties.\<close>

definition path_a :: CanonicalPath where
  "path_a = \<lparr>cp_segments = [''a'']\<rparr>"

definition path_b :: CanonicalPath where
  "path_b = \<lparr>cp_segments = [''b'']\<rparr>"

definition create_a :: "(unit, unit) NsOp" where
  "create_a = NsCreateChild (object_id 0) ''a'' RegularFileSpec (\<lambda>_ _. committed)"

definition remove_a :: "(unit, unit) NsOp" where
  "remove_a = NsRemove (object_id 1) (\<lambda>_. committed)"

definition one_file :: NamespaceRegistry where
  "one_file = \<lparr>nr_state =
     \<lparr>nss_objects = fmupd (object_id 1) (NamespaceObject_new (object_id 1) path_a RegularFileSpec)
        (fmupd (object_id 0) (NamespaceObject_new (object_id 0) CanonicalPath_root DirectorySpec) fmempty),
      nss_paths = fmupd path_a (object_id 1) (fmupd CanonicalPath_root (object_id 0) fmempty),
      nss_next_object_sequence = Some 2, nss_generation = NamespaceGeneration 1\<rparr>,
    nr_repository_in_doubt = False\<rparr>"

lemma path_a_child: "CanonicalPath_child CanonicalPath_root ''a'' = Ok path_a"
  by (simp add: CanonicalPath_child_def CanonicalPath_root_def path_a_def validate_segment_def path_limits
      CanonicalPath_encoded_len_def Let_def)

lemma example_paths [simp]:
  "CanonicalPath_parent path_a = Some CanonicalPath_root" "path_a \<noteq> CanonicalPath_root" "CanonicalPath_root \<noteq> path_a" "wf_path path_b" "wf_path path_a"
  by (simp_all add: CanonicalPath_parent_def path_a_def CanonicalPath_root_def path_b_def wf_path_def path_limits
      segment_ok_def path_encoding_def)

lemma example_relations [simp]:
  "path_a \<noteq> path_b" "path_b \<noteq> path_a" "path_b \<noteq> CanonicalPath_root" "CanonicalPath_root \<noteq> path_b"
  "\<not> CanonicalPath_is_root path_a" "CanonicalPath_parent path_b = Some CanonicalPath_root"
  "CanonicalPath_is_at_or_below path_a path_a" "\<not> CanonicalPath_is_at_or_below CanonicalPath_root path_a"
  "\<not> CanonicalPath_is_at_or_below path_b path_a"
  by (simp_all add: CanonicalPath_parent_def path_a_def CanonicalPath_root_def path_b_def CanonicalPath_is_root_def
      CanonicalPath_is_at_or_below_def)

lemma create_a_step: "snd (ns_step create_a NamespaceRegistry_new) = one_file"
  by (simp add: create_a_def create_child_with_commit_outcome_def create_child_with_open_count_def NamespaceRegistry_new_def
      write_operational_state_def ensure_operational_def directory_record_def with_root_def ROOT_OBJECT_SEQUENCE_def
      NamespaceObject_new_def child_path_def path_a_child validate_new_path_def validate_parent_def next_generation_def
      checked_next_def checked_add_def allocate_object_def Let_def stage_open_count_def staged_def
      finish_namespace_mutation_def one_file_def)

lemma remove_a_step: "live_object (nr_state (snd (ns_step remove_a one_file))) (object_id 1) = None"
  by (simp add: remove_a_def remove_object_with_commit_outcome_def one_file_def write_operational_state_def
      ensure_operational_def NamespaceObject_new_def is_aliased_def remove_record_def CanonicalPath_is_root_def
      owns_path_def next_generation_def checked_next_def checked_add_def remove_path_def Let_def staged_def
      finish_namespace_mutation_def path_a_def CanonicalPath_root_def CanonicalPath_is_at_or_below_def)

lemma run_create_a: "run ns_step [create_a] NamespaceRegistry_new = one_file"
  by (simp add: create_a_step)

lemma ns_inv_run: "ns_inv (nr_state (run ns_step xs NamespaceRegistry_new))"
  by (rule namespace.run_good) (simp add: NamespaceRegistry_new_def ns_inv_with_root)

section \<open>The namespace\<close>



text \<open>
  C34. The namespace only moves forward. Between two points of a run the generation does not go
  down, and if it is the same the path index is the same; an object keeps its kind and its link
  target as long as it lives; and the identity of a retired object never denotes an object again.
\<close>

theorem namespace_history:
  "let s = nr_state (run ns_step xs NamespaceRegistry_new);
       t = nr_state (run ns_step (xs @ ys) NamespaceRegistry_new);
       u = nr_state (run ns_step (xs @ ys @ zs) NamespaceRegistry_new) in
    generation_u64 (nss_generation s) \<le> generation_u64 (nss_generation t) \<and>
    (nss_generation s = nss_generation t \<longrightarrow> nss_paths s = nss_paths t) \<and>
    (live_object s i = Some x \<longrightarrow> live_object t i = Some y \<longrightarrow> no_kind y = no_kind x \<and> no_link_target y = no_link_target x) \<and>
    (live_object s i = Some x \<longrightarrow> live_object t i = None \<longrightarrow> live_object u i = None)"
proof -
  define r where "r = run ns_step xs NamespaceRegistry_new"
  have inv: "ns_inv (nr_state r)" "ns_inv (nr_state (run ns_step ys r))"
    unfolding r_def by (rule ns_inv_run) (simp add: ns_inv_run flip: run_append)
  define s t u where "s = nr_state r" and "t = nr_state (run ns_step ys r)" and "u = nr_state (run ns_step zs (run ns_step ys r))"
  have later: "ns_later s t" "ns_later t u"
    using namespace.run_later [OF inv(1), of ys] namespace.run_later [OF inv(2), of zs]
    by (simp_all add: s_def t_def u_def registry_later_def)
  have "live_object u i = None" if "live_object s i = Some x" "live_object t i = None"
    using later that unfolding ns_later_def spent_id_def by (metis option.distinct(1))
  moreover have "no_kind y = no_kind x \<and> no_link_target y = no_link_target x"
    if "live_object s i = Some x" "live_object t i = Some y"
    using later(1) that unfolding ns_later_def spent_id_def same_inode_def by (metis option.distinct(1))
  ultimately show ?thesis
    using later(1) unfolding Let_def run_append r_def [symmetric] s_def [symmetric] t_def [symmetric] u_def [symmetric]
    by (simp add: ns_later_def)
qed

theorem namespace_history_witness:
  "live_object (nr_state (run ns_step ([create_a] @ [remove_a] @ [create_a]) NamespaceRegistry_new)) (object_id 1) = None"
proof -
  have "live_object (nr_state (run ns_step [create_a] NamespaceRegistry_new)) (object_id 1) =
      Some (NamespaceObject_new (object_id 1) path_a RegularFileSpec)"
    by (simp only: run_create_a) (simp add: one_file_def)
  moreover have "live_object (nr_state (run ns_step ([create_a] @ [remove_a]) NamespaceRegistry_new)) (object_id 1) = None"
    by (simp only: run_append run_create_a) (simp add: remove_a_step del: ns_step.simps)
  ultimately show ?thesis
    using namespace_history [of "[create_a]" "[remove_a]" "[create_a]" "object_id 1"
      "NamespaceObject_new (object_id 1) path_a RegularFileSpec"] unfolding Let_def by blast
qed

lemma blocked_open:
  "path_object s p = Some i \<Longrightarrow> CanonicalPath_is_at_or_below p source \<Longrightarrow> live_object s i = Some x \<Longrightarrow>
     no_open_handle_count x \<noteq> 0 \<Longrightarrow> blocked source destination s (OpenHandleInSubtree i)"
  unfolding blocked_def by (intro exI [of _ p] exI [of _ i] exI [of _ x]) simp

lemma one_file_order: "hash_order (\<lambda>_. 0) (nss_paths (nr_state one_file)) = [(CanonicalPath_root, object_id 0), (path_a, object_id 1)]"
  by (simp add: hash_order_def one_file_def sorted_list_of_fset.rep_eq path_a_def CanonicalPath_root_def)

lemma one_file_rename:
  "fst (rename_subtree_with_commit_outcome (\<lambda>_. 0) path_a path_b (\<lambda>_. committed) one_file) = Ok ()"
proof -
  have order: "hash_order (\<lambda>_. 0) (fmupd path_a (object_id 1) (fmupd CanonicalPath_root (object_id 0) fmempty)) =
      [(CanonicalPath_root, object_id 0), (path_a, object_id 1)]"
    using one_file_order by (simp add: one_file_def)
  have rebase: "CanonicalPath_rebase path_a path_a path_b = Some path_b"
    by (simp add: CanonicalPath_rebase_Some)
  show ?thesis
    by (simp add: rename_subtree_with_commit_outcome_def rename_records_def one_file_def write_operational_state_def
        ensure_operational_def order rebase NamespaceObject_new_def validate_parent_def next_generation_def checked_next_def
        checked_add_def replace_path_def owns_path_def object_paths_def staged_def finish_namespace_mutation_def Let_def)
qed

text \<open>
  C35. A successful rename moves exactly the names at or below the source, each to the same place
  below the destination, which was free; every other name, and the kind, link target and open count
  of every object, is unchanged. The executor was handed one move per moved name, in path order,
  and no moved object was open.
\<close>

theorem namespace_rename_exact:
  assumes "ns_inv (nr_state r)" "wf_path destination"
    and "rename_subtree_with_commit_outcome rank source destination operation r = (Ok v, r')"
  shows "(\<forall>p. path_object (nr_state r') p =
      (if CanonicalPath_is_at_or_below p destination then path_object (nr_state r) (relabel destination source p)
       else if CanonicalPath_is_at_or_below p source then None else path_object (nr_state r) p)) \<and>
    (\<forall>p. CanonicalPath_is_at_or_below p destination \<longrightarrow> path_object (nr_state r) p = None) \<and>
    (\<forall>i. map_option (\<lambda>x. (no_kind x, no_link_target x, no_open_handle_count x)) (live_object (nr_state r') i) =
         map_option (\<lambda>x. (no_kind x, no_link_target x, no_open_handle_count x)) (live_object (nr_state r) i)) \<and>
    (\<exists>ms. operation \<lparr>rp_source = source, rp_destination = destination, rp_moved_objects = ms\<rparr> = ExecutorCommitted v \<and>
       planned source destination (nr_state r) ms) \<and>
    \<not> (\<exists>p i x. path_object (nr_state r) p = Some i \<and> CanonicalPath_is_at_or_below p source \<and>
        live_object (nr_state r) i = Some x \<and> no_open_handle_count x \<noteq> 0)"
proof -
  let ?s = "nr_state r"
  obtain t out where ren: "rename_records rank source destination operation ?s = Ok (t, out)"
      "finish_namespace_mutation t out r = (Ok v, r')"
    using assms(3) by (auto simp: rename_subtree_with_commit_outcome_def staged_def and_then_Ok operational_Ok split: sum.splits)
  then have out: "out = ExecutorCommitted v" and t: "nr_state r' = t"
    by (auto simp: finish_namespace_mutation_def split: NamespaceExecutorOutcome.splits)
  obtain ms where ms: "planned source destination ?s ms" "renamed source destination ?s t"
      "\<nexists>e. blocked source destination ?s e" "path_object ?s destination = None"
      "out = operation \<lparr>rp_source = source, rp_destination = destination, rp_moved_objects = ms\<rparr>"
    using rename_records_spec(2) [OF assms(1,2) ren(1)] by blast
  have free: "path_object ?s p = None" if "CanonicalPath_is_at_or_below p destination" for p
    using destination_free [OF assms(1) ms(4), of p] that by (cases "path_object ?s p") auto
  have attrs: "map_option (\<lambda>x. (no_kind x, no_link_target x, no_open_handle_count x)) (live_object t i) =
      map_option (\<lambda>x. (no_kind x, no_link_target x, no_open_handle_count x)) (live_object ?s i)" for i
  proof (cases "live_object ?s i")
    case None
    then show ?thesis using renamedD(3) [OF ms(2), of i] by (cases "live_object t i") auto
  next
    case (Some x)
    then show ?thesis using renamedD(2) [OF ms(2) Some] by (auto simp: same_object_def)
  qed
  have closed: "\<not> (\<exists>p i x. path_object ?s p = Some i \<and> CanonicalPath_is_at_or_below p source \<and>
        live_object ?s i = Some x \<and> no_open_handle_count x \<noteq> 0)"
  proof
    assume "\<exists>p i x. path_object ?s p = Some i \<and> CanonicalPath_is_at_or_below p source \<and>
        live_object ?s i = Some x \<and> no_open_handle_count x \<noteq> 0"
    then show False using blocked_open ms(3) by blast
  qed
  show ?thesis
    unfolding t using renamedD(1) [OF ms(2)] free attrs closed ms(1,5) out by auto
qed

theorem namespace_rename_exact_witness:
  "path_object (nr_state (snd (rename_subtree_with_commit_outcome (\<lambda>_. 0) path_a path_b (\<lambda>_. committed) one_file))) path_b =
     Some (object_id 1)"
proof -
  let ?out = "rename_subtree_with_commit_outcome (\<lambda>_. 0) path_a path_b (\<lambda>_. committed) one_file"
  have "ns_inv (nr_state one_file)" using ns_inv_run [of "[create_a]"] by (simp only: run_create_a)
  moreover have "?out = (Ok (), snd ?out)" using one_file_rename by (metis prod.collapse)
  ultimately have "path_object (nr_state (snd ?out)) path_b =
      (if CanonicalPath_is_at_or_below path_b path_b then path_object (nr_state one_file) (relabel path_b path_a path_b)
       else if CanonicalPath_is_at_or_below path_b path_a then None else path_object (nr_state one_file) path_b)"
    using namespace_rename_exact [of one_file path_b "\<lambda>_. 0" path_a "\<lambda>_. committed" "()" "snd ?out"] by simp
  then show ?thesis by (simp add: one_file_def)
qed




text \<open>
  C38. A symbolic link resolves as a walk of its text, component by component, from the directory
  that holds the link: resolution succeeds exactly when the walk never climbs above the root and
  ends in a valid path, and then with that path. At the root there is no such link.
\<close>

theorem symlink_resolution_is_walk:
  assumes "SymlinkTarget_new literal = Ok target"
  shows "resolve_from target link = Ok q \<longleftrightarrow>
    cp_segments link \<noteq> [] \<and> walk (butlast (cp_segments link)) (split_on (CHR ''/'') literal) = Some (cp_segments q) \<and> wf_path q"
  by (rule resolve_from_walk [OF assms])

theorem symlink_resolution_is_walk_witness:
  "resolve_from \<lparr>sl_literal = ''../b'', sl_parents = 1, sl_segments = [''b'']\<rparr> \<lparr>cp_segments = [''d'', ''l'']\<rparr> = Ok path_b"
proof -
  have "CanonicalPath_new [''b''] = Ok path_b" by (simp add: CanonicalPath_new_Ok) (simp add: path_b_def)
  then have "SymlinkTarget_new ''../b'' = Ok \<lparr>sl_literal = ''../b'', sl_parents = 1, sl_segments = [''b'']\<rparr>"
    by (simp add: SymlinkTarget_new_def MAX_SYMLINK_TARGET_BYTES_def Let_def)
  from symlink_resolution_is_walk [OF this, of "\<lparr>cp_segments = [''d'', ''l'']\<rparr>" path_b] show ?thesis
    by (simp add: path_b_def [THEN arg_cong, of cp_segments])
qed



section \<open>The node table\<close>

text \<open>
  C40. For every sequence of LOOKUP and FORGET requests on a mount, the references held on a node
  other than the root are exactly those granted less those dropped, the internal inconsistency is
  never reported, the root stays bound to the root object, and a node number handed out earlier that
  is bound later was bound all along, to the same object.
\<close>

theorem node_references_exact:
  assumes "n \<noteq> ROOT"
  shows "(let s = run node_step xs (NodeState_new root); replies = trace node_step xs (NodeState_new root) in
      references s n + sum_list (map2 (dropped_references n) xs replies) = sum_list (map (granted_references n) replies) \<and>
      Err NodeInvariantViolation \<notin> set replies \<and> resolve ROOT s = Ok root) \<and>
    (spent (run node_step xs (NodeState_new root)) n \<longrightarrow>
      fmlookup (ns_nodes (run node_step (xs @ ys) (NodeState_new root))) n = Some b \<longrightarrow>
      (\<exists>a. fmlookup (ns_nodes (run node_step xs (NodeState_new root))) n = Some a \<and> nb_object a = nb_object b))"
proof -
  let ?s = "run node_step xs (NodeState_new root)"
  have inv: "node_inv root ?s" by (rule nodes.run_good [OF node_inv_new])
  have "references (NodeState_new root) n = 0"
    using assms by (simp add: references_def NodeState_new_def)
  moreover have "resolve ROOT ?s = Ok root"
    using node_invD(3) [OF inv] by (simp add: resolve_def binding_def NodeBinding_new_def)
  moreover have "\<exists>a. fmlookup (ns_nodes ?s) n = Some a \<and> nb_object a = nb_object b"
    if "spent ?s n" "fmlookup (ns_nodes (run node_step (xs @ ys) (NodeState_new root))) n = Some b"
    using nodes.run_later [OF inv, of ys] that by (auto simp: node_later_def run_append)
  ultimately show ?thesis
    using node_run_references [OF node_inv_new [of root] assms, of xs] by (simp add: Let_def)
qed

theorem node_references_exact_witness:
  "references (run node_step [LookupOp (ObjectId ''o''), LookupOp (ObjectId ''o''), ForgetOp (NodeId 2) 1]
     (NodeState_new (ObjectId ''r''))) (NodeId 2) = 1"
proof -
  let ?xs = "[LookupOp (ObjectId ''o''), LookupOp (ObjectId ''o''), ForgetOp (NodeId 2) 1]"
  have "NodeId 2 \<noteq> ROOT" by (simp add: ROOT_def)
  moreover have "sum_list (map2 (dropped_references (NodeId 2)) ?xs (trace node_step ?xs (NodeState_new (ObjectId ''r'')))) = 1"
    "sum_list (map (granted_references (NodeId 2)) (trace node_step ?xs (NodeState_new (ObjectId ''r'')))) = 2"
    by (simp_all add: remember_lookup_def NodeState_allocate_def NodeState_new_def NodeBinding_new_def NodeId_new_def ROOT_def
        FIRST_DYNAMIC_NODE_SEQUENCE_def forget_def checked_add_def Let_def)
  ultimately show ?thesis
    using node_references_exact [of "NodeId 2" ?xs "ObjectId ''r''"] by (simp only: Let_def) auto
qed

end
