(* ===== verification/Supervisor_Protocol.thy ===== *)
theory Supervisor_Protocol
  imports Wire Capability_State
begin

text \<open>
  The supervisor's control datagrams (\<open>supervisor/src/protocol.rs\<close>): a version byte, a tag, a
  two-byte big-endian body length and a body of length-prefixed strings, with a closed set of
  requests and of replies.
\<close>

definition MAX_WIRE_REQUEST_BYTES :: nat where
  "MAX_WIRE_REQUEST_BYTES = 4 * 1024"

definition MAX_WIRE_RESPONSE_BYTES :: nat where
  "MAX_WIRE_RESPONSE_BYTES = 64"

definition PROTOCOL_VERSION :: u8 where
  "PROTOCOL_VERSION = 1"

definition HEADER_BYTES :: nat where
  "HEADER_BYTES = 4"

definition MAX_FIELD_BYTES :: nat where
  "MAX_FIELD_BYTES = 256"

lemmas wire_constants =
  MAX_WIRE_REQUEST_BYTES_def MAX_WIRE_RESPONSE_BYTES_def PROTOCOL_VERSION_def HEADER_BYTES_def MAX_FIELD_BYTES_def

datatype WireRequest =
    WireCloseSubject (claimed_subject: SubjectId)
  | WireCloseHandle (claimed_subject: SubjectId) (wire_handle: HandleId)

datatype WireEncodeError =
    WireEmptyField string
  | WireFieldTooLarge string
  | WireEncodeTooLarge

datatype WireDecodeError =
    WireTruncated
  | WireDecodeTooLarge nat
  | WireUnsupportedVersion u8
  | WireLengthMismatch (wire_declared: nat) (wire_actual: nat)
  | WireUnknownTag u8
  | WireInvalidField string
  | WireTrailingBytes

section \<open>Fields\<close>

definition wire_write_string :: "string \<Rightarrow> string \<Rightarrow> bytes \<Rightarrow> (WireEncodeError, bytes) result" where
  "wire_write_string field v output =
     (if v = [] then Err (WireEmptyField field)
      else if length v > MAX_FIELD_BYTES then Err (WireFieldTooLarge field)
      else and_then (ok_or (WireFieldTooLarge field) (narrow (length v) :: u16 option)) (\<lambda>len.
        Ok (output @ to_be_bytes len @ as_bytes v)))"

definition wire_read_u16 :: "string \<Rightarrow> bytes \<Rightarrow> (WireDecodeError, u16 \<times> bytes) result" where
  "wire_read_u16 field bs =
     and_then (take_bytes (WireInvalidField field) 2 bs) (\<lambda>(b, bs). Ok (from_be_bytes b, bs))"

definition wire_read_string :: "string \<Rightarrow> bytes \<Rightarrow> (WireDecodeError, string \<times> bytes) result" where
  "wire_read_string field bs =
     and_then (wire_read_u16 field bs) (\<lambda>(len, bs). let n = unat len in
     if n = 0 \<or> n > MAX_FIELD_BYTES then Err (WireInvalidField field)
     else and_then (take_bytes (WireInvalidField field) n bs) (\<lambda>(b, bs).
       and_then (from_utf8 (WireInvalidField field) b) (\<lambda>v. Ok (v, bs))))"

definition wire_finish :: "bytes \<Rightarrow> (WireDecodeError, unit) result" where
  "wire_finish bs = (if bs = [] then Ok () else Err WireTrailingBytes)"

section \<open>Requests\<close>

definition wire_frame :: "nat \<Rightarrow> u8 \<Rightarrow> bytes \<Rightarrow> (WireEncodeError, bytes) result" where
  "wire_frame limit tag body =
     and_then (ok_or WireEncodeTooLarge (narrow (length body) :: u16 option)) (\<lambda>body_length.
     if HEADER_BYTES + length body > limit then Err WireEncodeTooLarge
     else Ok ([PROTOCOL_VERSION, tag] @ to_be_bytes body_length @ body))"

fun WireRequest_encode :: "WireRequest \<Rightarrow> (WireEncodeError, bytes) result" where
  "WireRequest_encode (WireCloseSubject x) =
     and_then (wire_write_string ''claimed subject'' (subject_str x) []) (\<lambda>body.
     wire_frame MAX_WIRE_REQUEST_BYTES 1 body)"
| "WireRequest_encode (WireCloseHandle x h) =
     and_then (wire_write_string ''claimed subject'' (subject_str x) []) (\<lambda>body.
     and_then (wire_write_string ''handle'' (handle_str h) body) (\<lambda>body.
     wire_frame MAX_WIRE_REQUEST_BYTES 2 body))"

text \<open>The header checks shared by both decoders: the tag and the body.\<close>

definition wire_open :: "nat \<Rightarrow> bytes \<Rightarrow> (WireDecodeError, u8 \<times> bytes) result" where
  "wire_open limit bs =
     (if length bs > limit then Err (WireDecodeTooLarge (length bs))
      else if length bs < HEADER_BYTES then Err WireTruncated
      else if bs ! 0 \<noteq> PROTOCOL_VERSION then Err (WireUnsupportedVersion (bs ! 0))
      else let declared = unat (from_be_bytes [bs ! 2, bs ! 3] :: u16); actual = length bs - HEADER_BYTES in
        if declared \<noteq> actual then Err (WireLengthMismatch declared actual)
        else Ok (bs ! 1, drop HEADER_BYTES bs))"

definition WireRequest_decode :: "bytes \<Rightarrow> (WireDecodeError, WireRequest) result" where
  "WireRequest_decode bs =
     and_then (wire_open MAX_WIRE_REQUEST_BYTES bs) (\<lambda>(tag, body).
     and_then
       (if tag = 1 then
          and_then (wire_read_string ''claimed subject'' body) (\<lambda>(x, body). Ok (WireCloseSubject (SubjectId x), body))
        else if tag = 2 then
          and_then (wire_read_string ''claimed subject'' body) (\<lambda>(x, body).
          and_then (wire_read_string ''handle'' body) (\<lambda>(h, body).
          Ok (WireCloseHandle (SubjectId x) (HandleId h), body)))
        else Err (WireUnknownTag tag)) (\<lambda>(request, body).
     and_then (wire_finish body) (\<lambda>_. Ok request)))"

section \<open>Replies\<close>

datatype RefusalCode = NotPermitted | Malformed | Unavailable

fun RefusalCode_tag :: "RefusalCode \<Rightarrow> u8" where
  "RefusalCode_tag NotPermitted = 1"
| "RefusalCode_tag Malformed = 2"
| "RefusalCode_tag Unavailable = 3"

definition RefusalCode_from_tag :: "u8 \<Rightarrow> RefusalCode option" where
  "RefusalCode_from_tag t =
     (if t = 1 then Some NotPermitted else if t = 2 then Some Malformed else if t = 3 then Some Unavailable else None)"

datatype WireResponse = WireSubjectClosed | WireHandleClosed | WireRefused RefusalCode

definition WireResponse_encode :: "WireResponse \<Rightarrow> (WireEncodeError, bytes) result" where
  "WireResponse_encode r =
     (let (tag, body) = (case r of WireSubjectClosed \<Rightarrow> (1, []) | WireHandleClosed \<Rightarrow> (2, []) | WireRefused c \<Rightarrow> (3, [RefusalCode_tag c]))
      in wire_frame MAX_WIRE_RESPONSE_BYTES tag body)"

definition WireResponse_decode :: "bytes \<Rightarrow> (WireDecodeError, WireResponse) result" where
  "WireResponse_decode bs =
     and_then (wire_open MAX_WIRE_RESPONSE_BYTES bs) (\<lambda>(tag, body).
     if tag = 1 \<and> body = [] then Ok WireSubjectClosed
     else if tag = 2 \<and> body = [] then Ok WireHandleClosed
     else if tag = 3 \<and> length body = 1 then
       ok_or (WireInvalidField ''refusal code'') (map_option WireRefused (RefusalCode_from_tag (hd body)))
     else if tag \<in> {1, 2, 3} then Err WireTrailingBytes
     else Err (WireUnknownTag tag))"

section \<open>The codec is exact\<close>

definition wf_field :: "string \<Rightarrow> bool" where
  "wf_field v \<longleftrightarrow> v \<noteq> [] \<and> length v \<le> MAX_FIELD_BYTES"

definition field_bytes :: "string \<Rightarrow> bytes" where
  "field_bytes v = to_be_bytes (word_of_nat (length v) :: u16) @ as_bytes v"

lemma field_length: "wf_field v \<Longrightarrow> unat (word_of_nat (length v) :: u16) = length v"
  by (simp add: wf_field_def MAX_FIELD_BYTES_def unat_of_nat)

lemma wire_write_string_Ok:
  "wire_write_string f v out = Ok out' \<longleftrightarrow> wf_field v \<and> out' = out @ field_bytes v"
  by (auto simp: wire_write_string_def wf_field_def field_bytes_def and_then_Ok narrow_def MAX_FIELD_BYTES_def)

lemma wire_read_string_Ok:
  "wire_read_string f bs = Ok (v, r) \<longleftrightarrow> wf_field v \<and> wf_str v \<and> bs = field_bytes v @ r"
proof
  assume "wire_read_string f bs = Ok (v, r)"
  then obtain l b where bs: "bs = l @ b @ r" "length l = 2" and n: "length b = unat (from_be_bytes l :: u16)"
      "0 < length b" "length b \<le> MAX_FIELD_BYTES" and v: "utf8_valid b" "v = of_bytes b"
    by (auto simp: wire_read_string_def wire_read_u16_def and_then_Ok take_bytes_Ok from_utf8_def Let_def not_less split: if_splits)
  have "word_of_nat (length v) = (from_be_bytes l :: u16)" using n(1) v(2) by simp
  then have "to_be_bytes (word_of_nat (length v) :: u16) = l"
    using from_be_bytes_inject [of l "from_be_bytes l :: u16"] bs(2) by simp
  moreover have "length v = length b" using v(2) by simp
  then have "v \<noteq> []" using n(2) by auto
  ultimately show "wf_field v \<and> wf_str v \<and> bs = field_bytes v @ r"
    using n v bs by (auto simp: wf_field_def wf_str_def field_bytes_def)
next
  assume v: "wf_field v \<and> wf_str v \<and> bs = field_bytes v @ r"
  have "length (to_be_bytes (word_of_nat (length v) :: u16)) = 2" by simp
  then show "wire_read_string f bs = Ok (v, r)"
    using v field_length [of v]
    by (auto simp: wire_read_string_def wire_read_u16_def field_bytes_def Let_def wf_field_def)
qed

lemma wire_frame_Ok:
  assumes "limit \<le> 4096"
  shows "wire_frame limit tag body = Ok bs \<longleftrightarrow> wire_open limit bs = Ok (tag, body)"
proof
  assume frame: "wire_frame limit tag body = Ok bs"
  then obtain l :: u16 where l: "unat l = length body" and n: "4 + length body \<le> limit"
    and bs: "bs = [PROTOCOL_VERSION, tag] @ to_be_bytes l @ body"
    by (auto simp: wire_frame_def and_then_Ok narrow_Some HEADER_BYTES_def split: if_splits)
  obtain a b where ab: "to_be_bytes l = [a, b]"
    using length_to_be_bytes [of l] by (cases "to_be_bytes l"; cases "tl (to_be_bytes l)") auto
  then have "from_be_bytes [a, b] = l" using from_to_be_bytes [of l] by simp
  then show "wire_open limit bs = Ok (tag, body)"
    using bs ab l n by (simp add: wire_open_def HEADER_BYTES_def)
next
  assume op: "wire_open limit bs = Ok (tag, body)"
  then have len: "4 \<le> length bs" "length bs \<le> limit" and v: "bs ! 0 = PROTOCOL_VERSION" "tag = bs ! 1" "body = drop 4 bs"
    and d: "unat (from_be_bytes [bs ! 2, bs ! 3] :: u16) = length bs - 4"
    by (auto simp: wire_open_def HEADER_BYTES_def Let_def not_less split: if_splits)
  obtain a b c e r where bs: "bs = a # b # c # e # r"
    using len(1) by (auto simp: numeral_eq_Suc Suc_le_length_iff)
  have "to_be_bytes (from_be_bytes [c, e] :: u16) = [c, e]"
    using from_be_bytes_inject [of "[c, e]" "from_be_bytes [c, e] :: u16"] by simp
  moreover have "narrow (length r) = Some (from_be_bytes [c, e] :: u16)"
    using d by (simp add: narrow_Some bs)
  ultimately show "wire_frame limit tag body = Ok bs"
    using len v bs by (simp add: wire_frame_def HEADER_BYTES_def)
qed

fun wf_request :: "WireRequest \<Rightarrow> bool" where
  "wf_request (WireCloseSubject x) \<longleftrightarrow> wf_str (subject_str x)"
| "wf_request (WireCloseHandle x h) \<longleftrightarrow> wf_str (subject_str x) \<and> wf_str (handle_str h)"

lemma WireRequest_exact:
  "WireRequest_decode bs = Ok r \<longleftrightarrow> WireRequest_encode r = Ok bs \<and> wf_request r"
proof -
  have frame: "wire_frame MAX_WIRE_REQUEST_BYTES t body = Ok bs \<longleftrightarrow> wire_open MAX_WIRE_REQUEST_BYTES bs = Ok (t, body)" for t body
    by (rule wire_frame_Ok) (simp add: MAX_WIRE_REQUEST_BYTES_def)
  show ?thesis
  proof (cases "wire_open MAX_WIRE_REQUEST_BYTES bs")
    case (Inl e)
    then show ?thesis by (cases r) (simp_all add: WireRequest_decode_def and_then_Ok frame)
  next
    case (Inr z)
    obtain t body where z: "z = (t, body)" by (cases z)
    show ?thesis
    proof (cases r)
      case (WireCloseSubject x)
      then show ?thesis using Inr z
        by (cases x) (auto simp: WireRequest_decode_def and_then_Ok wire_write_string_Ok wire_read_string_Ok wire_finish_def frame
            split: if_splits)
    next
      case (WireCloseHandle x h)
      then show ?thesis using Inr z
        by (cases x; cases h) (auto simp: WireRequest_decode_def and_then_Ok wire_write_string_Ok wire_read_string_Ok wire_finish_def frame
            split: if_splits)
    qed
  qed
qed

lemma RefusalCode_from_tag_Some: "RefusalCode_from_tag t = Some c \<longleftrightarrow> t = RefusalCode_tag c"
  by (cases c) (auto simp: RefusalCode_from_tag_def)

lemma WireResponse_exact: "WireResponse_decode bs = Ok r \<longleftrightarrow> WireResponse_encode r = Ok bs"
proof -
  have frame: "wire_frame MAX_WIRE_RESPONSE_BYTES t body = Ok bs \<longleftrightarrow> wire_open MAX_WIRE_RESPONSE_BYTES bs = Ok (t, body)" for t body
    by (rule wire_frame_Ok) (simp add: MAX_WIRE_RESPONSE_BYTES_def)
  show ?thesis
  proof (cases "wire_open MAX_WIRE_RESPONSE_BYTES bs")
    case (Inl e)
    then show ?thesis by (cases r) (simp_all add: WireResponse_decode_def WireResponse_encode_def frame)
  next
    case (Inr z)
    obtain t body where z: "z = (t, body)" by (cases z)
    show ?thesis using Inr z
      by (cases r) (auto simp: WireResponse_decode_def WireResponse_encode_def frame RefusalCode_from_tag_Some
          length_Suc_conv split: if_splits)
  qed
qed

lemma WireResponse_total: "\<exists>bs. WireResponse_encode r = Ok bs \<and> length bs \<le> 5"
  by (cases r) (auto simp: WireResponse_encode_def wire_frame_def narrow_def wire_constants)

end
