(* ===== verification/Supervisor.thy ===== *)
theory Supervisor
  imports Supervisor_Protocol Kernel "HOL-Library.List_Lexorder" "HOL-Library.Char_ord"
begin

text \<open>
  The supervisor (\<open>supervisor/src/supervisor.rs\<close>): setup, rollback and teardown of supervised
  subjects, and the dispatch of control requests by connection identity. The traits
  \<open>AuthorityKernel\<close>, \<open>RuntimeResources\<close> and \<open>CallerResolver\<close> are records of functions over the
  state of the adapter; every call may change that state, since the kernel is shared.
\<close>

section \<open>Sequencing\<close>

text \<open>The \<open>?\<close> operator between two calls that change the same state.\<close>

definition then_do ::
    "('s, 'e, 'a) outcome \<Rightarrow> ('a \<Rightarrow> 's \<Rightarrow> ('s, 'e, 'b) outcome) \<Rightarrow> ('s, 'e, 'b) outcome" where
  "then_do m f = (case m of (Err e, s) \<Rightarrow> (Err e, s) | (Ok v, s) \<Rightarrow> f v s)"

definition fail_as :: "('e \<Rightarrow> 'f) \<Rightarrow> ('s, 'e, 'a) outcome \<Rightarrow> ('s, 'f, 'a) outcome" where
  "fail_as f m = (map_err f (fst m), snd m)"

lemma then_do_simps [simp]:
  "then_do (Err e, s) f = (Err e, s)" "then_do (Ok v, s) f = f v s"
  by (simp_all add: then_do_def)

lemma fail_as_simps [simp]:
  "fail_as f (Err e, s) = (Err (f e), s)" "fail_as f (Ok v, s) = (Ok v, s)"
  by (simp_all add: fail_as_def)

instantiation HandleId :: linorder
begin

definition less_eq_HandleId :: "HandleId \<Rightarrow> HandleId \<Rightarrow> bool" where
  "less_eq_HandleId h i \<longleftrightarrow> handle_str h \<le> handle_str i"

definition less_HandleId :: "HandleId \<Rightarrow> HandleId \<Rightarrow> bool" where
  "less_HandleId h i \<longleftrightarrow> handle_str h < handle_str i"

instance
  by standard (auto simp: less_eq_HandleId_def less_HandleId_def HandleId.expand)

end

section \<open>Identities and tokens\<close>

record ConnectionIdentity =
  ci_socket_id :: u64
  ci_peer_pid :: u32
  ci_peer_uid :: u32
  ci_peer_gid :: u32

record StaticCallerResolver =
  scr_bindings :: "(ConnectionIdentity, SubjectId) fmap"

datatype CallerBindingError = CallerBindingError (cbe_identity: ConnectionIdentity)

definition StaticCallerResolver_new :: StaticCallerResolver where
  "StaticCallerResolver_new = \<lparr>scr_bindings = fmempty\<rparr>"

definition StaticCallerResolver_bind ::
    "ConnectionIdentity \<Rightarrow> SubjectId \<Rightarrow> StaticCallerResolver \<Rightarrow> (StaticCallerResolver, SubjectId, unit) outcome" where
  "StaticCallerResolver_bind identity subject c = (case fmlookup (scr_bindings c) identity of
     Some _ \<Rightarrow> (Err subject, c)
   | None \<Rightarrow> (Ok (), c\<lparr>scr_bindings := fmupd identity subject (scr_bindings c)\<rparr>))"

definition StaticCallerResolver_resolve ::
    "StaticCallerResolver \<Rightarrow> ConnectionIdentity \<Rightarrow> (CallerBindingError, SubjectId) result" where
  "StaticCallerResolver_resolve c identity =
     ok_or (CallerBindingError identity) (fmlookup (scr_bindings c) identity)"

datatype CgroupHandle = CgroupHandle u64
datatype MountHandle = MountHandle u64
datatype ControlFdHandle = ControlFdHandle u64
datatype WorkloadHandle = WorkloadHandle u64

section \<open>Adapters\<close>

datatype ('t, 'e) ResourceAcquisition =
    Acquired 't
  | AcquisitionNoEffect 'e
  | AcquisitionCleanupRequired 't 'e
  | AcquisitionEffectUnknown 'e

datatype 'e ResourceMutation =
    Applied
  | MutationNoEffect 'e
  | MutationCleanupRequired 'e
  | MutationEffectUnknown 'e

record ('w, 'e) RuntimeResources =
  res_create_cgroup :: "SubjectId \<Rightarrow> 'w \<Rightarrow> (CgroupHandle, 'e) ResourceAcquisition \<times> 'w"
  res_remove_cgroup :: "CgroupHandle \<Rightarrow> 'w \<Rightarrow> 'e ResourceMutation \<times> 'w"
  res_mount_capfs :: "SubjectId \<Rightarrow> 'w \<Rightarrow> (MountHandle, 'e) ResourceAcquisition \<times> 'w"
  res_unmount_capfs :: "MountHandle \<Rightarrow> 'w \<Rightarrow> 'e ResourceMutation \<times> 'w"
  res_open_control_fd :: "SubjectId \<Rightarrow> 'w \<Rightarrow> (ControlFdHandle, 'e) ResourceAcquisition \<times> 'w"
  res_close_control_fd :: "ControlFdHandle \<Rightarrow> 'w \<Rightarrow> 'e ResourceMutation \<times> 'w"
  res_start_workload :: "SubjectId \<Rightarrow> CgroupHandle \<Rightarrow> MountHandle \<Rightarrow> ControlFdHandle \<Rightarrow> 'w \<Rightarrow>
    (WorkloadHandle, 'e) ResourceAcquisition \<times> 'w"
  res_stop_workload :: "WorkloadHandle \<Rightarrow> CgroupHandle \<Rightarrow> 'w \<Rightarrow> 'e ResourceMutation \<times> 'w"
  res_open_handle :: "SubjectId \<Rightarrow> HandleId \<Rightarrow> 'w \<Rightarrow> 'e ResourceMutation \<times> 'w"
  res_close_handle :: "SubjectId \<Rightarrow> HandleId \<Rightarrow> 'w \<Rightarrow> 'e ResourceMutation \<times> 'w"

record AuthorityStartupSnapshot =
  ass_status :: SubjectStatus
  ass_authorization_epoch :: AuthorizationEpoch

record ('k, 'e) AuthorityKernel =
  ak_is_pristine :: "'k \<Rightarrow> ('k, 'e, bool) outcome"
  ak_register_subject :: "Subject \<Rightarrow> 'k \<Rightarrow> ('k, 'e, unit) outcome"
  ak_issue_root :: "CapabilityGrant \<Rightarrow> 'k \<Rightarrow> ('k, 'e, CapId) outcome"
  ak_derive :: "SubjectId \<Rightarrow> CapId \<Rightarrow> CapabilityGrant \<Rightarrow> MonotonicTime \<Rightarrow> 'k \<Rightarrow> ('k, 'e, CapId) outcome"
  ak_revoke :: "SubjectId \<Rightarrow> CapId \<Rightarrow> 'k \<Rightarrow> ('k, 'e, RevocationStatus) outcome"
  ak_begin_subject_close :: "SubjectId \<Rightarrow> 'k \<Rightarrow> ('k, 'e, SubjectCloseStatus) outcome"
  ak_finish_subject_close :: "SubjectId \<Rightarrow> 'k \<Rightarrow> ('k, 'e, SubjectFinishStatus) outcome"
  ak_register_open_handle :: "OpenHandle \<Rightarrow> 'k \<Rightarrow> ('k, 'e, unit) outcome"
  ak_close_handle :: "SubjectId \<Rightarrow> HandleId \<Rightarrow> 'k \<Rightarrow> ('k, 'e, HandleCloseStatus) outcome"
  ak_open_handle :: "HandleId \<Rightarrow> 'k \<Rightarrow> ('k, 'e, OpenHandle option) outcome"
  ak_startup_snapshot :: "SubjectId \<Rightarrow> 'k \<Rightarrow> ('k, 'e, AuthorityStartupSnapshot option) outcome"

text \<open>The implementation of the trait by the capability kernel.\<close>

definition kernel_startup_snapshot ::
    "SubjectId \<Rightarrow> 'o CapabilityKernel \<Rightarrow> ('o CapabilityKernel, CapabilityKernelError, AuthorityStartupSnapshot option) outcome" where
  "kernel_startup_snapshot x k =
     (and_then (ok_or (StateTransition (UnknownSubject x)) (fmlookup (st_statuses (k_state k)) x)) (\<lambda>status.
      Ok (Some \<lparr>ass_status = status, ass_authorization_epoch = st_epoch (k_state k)\<rparr>)), k)"

definition capability_kernel ::
    "('o \<Rightarrow> (RevocationObserverError, unit) result \<times> 'o) \<Rightarrow> ('o CapabilityKernel, CapabilityKernelError) AuthorityKernel" where
  "capability_kernel discard = \<lparr>
     ak_is_pristine = (\<lambda>k. (Ok (is_pristine (k_state k)), k)),
     ak_register_subject = kernel_register_subject,
     ak_issue_root = kernel_issue_root,
     ak_derive = kernel_derive,
     ak_revoke = kernel_revoke_held_by discard,
     ak_begin_subject_close = kernel_begin_subject_close discard,
     ak_finish_subject_close = kernel_finish_subject_close,
     ak_register_open_handle = kernel_register_open_handle,
     ak_close_handle = kernel_close_handle,
     ak_open_handle = (\<lambda>h k. (Ok (fmlookup (st_open (k_state k)) h), k)),
     ak_startup_snapshot = kernel_startup_snapshot\<rparr>"

section \<open>Limits, lifecycle and failures\<close>

datatype SupervisorCapacity = CapacitySubjects | CapacityIssuedHandles

datatype SupervisorLimitsError = LimitZero SupervisorCapacity

record SupervisorLimits =
  sl_max_subjects :: nat
  sl_max_issued_handles :: nat

definition SupervisorLimits_default :: SupervisorLimits where
  "SupervisorLimits_default = \<lparr>sl_max_subjects = 1024, sl_max_issued_handles = 65536\<rparr>"

definition SupervisorLimits_validate :: "SupervisorLimits \<Rightarrow> (SupervisorLimitsError, unit) result" where
  "SupervisorLimits_validate l =
     (if sl_max_subjects l = 0 then Err (LimitZero CapacitySubjects)
      else if sl_max_issued_handles l = 0 then Err (LimitZero CapacityIssuedHandles)
      else Ok ())"

datatype SubjectLifecycle = LifeCreating | LifeRunning | LifeClosing | LifeClosed

datatype CleanupStep =
  StepBeginClose | StepStopWorkload | StepCloseControlFd | StepCloseHandle | StepUnmount | StepRemoveCgroup | StepFinishClose

datatype 'e ResourceFailure =
    FailureNoEffect 'e
  | FailureCleanupRequired 'e
  | FailureEffectUnknown 'e

datatype ('ke, 're) OperationFailure =
    KernelFailure 'ke
  | ResourceCause "'re ResourceFailure"
  | UnresolvedEffect
  | InvariantFailure string

record ('ke, 're) CleanupFailure =
  cf_step :: CleanupStep
  cf_cause :: "('ke, 're) OperationFailure"

datatype SetupStep =
  SetupCreateCgroup | SetupMount | SetupOpenControlFd | SetupRegisterSubject | SetupRegisterHandle | SetupStartWorkload | SetupOpenHandle

datatype DispatchResponse = DispatchSubjectClosed | DispatchHandleClosed

fun DispatchResponse_into :: "DispatchResponse \<Rightarrow> WireResponse" where
  "DispatchResponse_into DispatchSubjectClosed = WireSubjectClosed"
| "DispatchResponse_into DispatchHandleClosed = WireHandleClosed"

datatype ('ke, 're, 'ce) SupervisorError =
    SvCaller 'ce
  | SvKernel 'ke
  | SvResource "'re ResourceFailure"
  | SvWire WireDecodeError
  | SvDuplicateSubject SubjectId
  | SvKernelNotPristine
  | SvInvalidLimits SupervisorLimitsError
  | SvCapacityExceeded SupervisorCapacity
  | SvUnknownSubject SubjectId
  | SvSubjectNotRunning SubjectId
  | SvSubjectClosing SubjectId
  | SvSubjectClosed SubjectId
  | SvConnectionSubjectMismatch (svm_requested: SubjectId) (svm_bound: SubjectId)
  | SvGrantSubjectMismatch (svg_requested: SubjectId) (svg_granted: SubjectId)
  | SvConnectionNotBoundToSubject SubjectId ConnectionIdentity
  | SvHandleNotOwned SubjectId HandleId
  | SvStaleHandle HandleId
  | SvSetupFailed SubjectId SetupStep "('ke, 're) OperationFailure" "('ke, 're) CleanupFailure list"
  | SvCleanupFailed SubjectId "('ke, 're) CleanupFailure list"
  | SvCleanupBlocked SubjectId "('ke, 're) CleanupFailure list"

definition refusal :: "('ke, 're, 'ce) SupervisorError \<Rightarrow> RefusalCode" where
  "refusal e = (case e of
     SvWire _ \<Rightarrow> Malformed
   | SvResource _ \<Rightarrow> Unavailable
   | SvSetupFailed _ _ _ _ \<Rightarrow> Unavailable
   | SvCleanupFailed _ _ \<Rightarrow> Unavailable
   | SvCleanupBlocked _ _ \<Rightarrow> Unavailable
   | SvInvalidLimits _ \<Rightarrow> Unavailable
   | SvCapacityExceeded _ \<Rightarrow> Unavailable
   | _ \<Rightarrow> NotPermitted)"

section \<open>The ownership ledger\<close>

datatype 't ResourceOwnership = Owned 't | EffectUnknown

fun ownership_token :: "'t ResourceOwnership \<Rightarrow> 't option" where
  "ownership_token (Owned t) = Some t"
| "ownership_token EffectUnknown = None"

record SubjectRecord =
  sr_connection :: ConnectionIdentity
  sr_lifecycle :: SubjectLifecycle
  sr_authority_registered :: bool
  sr_cgroup :: "CgroupHandle ResourceOwnership option"
  sr_mount :: "MountHandle ResourceOwnership option"
  sr_control :: "ControlFdHandle ResourceOwnership option"
  sr_workload :: "WorkloadHandle ResourceOwnership option"
  sr_runtime_handles :: "HandleId fset"
  sr_handles :: "HandleId fset"

record ('ke, 're) SetupRollback =
  rb_failures :: "('ke, 're) CleanupFailure list"
  rb_authority_registered :: bool
  rb_cgroup :: "CgroupHandle ResourceOwnership option"
  rb_mount :: "MountHandle ResourceOwnership option"
  rb_control :: "ControlFdHandle ResourceOwnership option"
  rb_workload :: "WorkloadHandle ResourceOwnership option"

record ('k, 'w, 'c) Supervisor =
  sv_kernel :: 'k
  sv_resources :: 'w
  sv_callers :: 'c
  sv_limits :: SupervisorLimits
  sv_subjects :: "(SubjectId, SubjectRecord) fmap"
  sv_issued_subjects :: "SubjectId fset"
  sv_issued_handles :: "(HandleId, SubjectId) fmap"

text \<open>The three adapters a supervisor is built from.\<close>

record ('k, 'ke, 'w, 're, 'c, 'ce) Adapters =
  ad_kernel :: "('k, 'ke) AuthorityKernel"
  ad_resources :: "('w, 're) RuntimeResources"
  ad_resolve :: "'c \<Rightarrow> ConnectionIdentity \<Rightarrow> ('ce, SubjectId) result"

definition on_kernel :: "('k \<Rightarrow> 'r \<times> 'k) \<Rightarrow> ('k, 'w, 'c) Supervisor \<Rightarrow> 'r \<times> ('k, 'w, 'c) Supervisor" where
  "on_kernel f s = (let (r, k) = f (sv_kernel s) in (r, s\<lparr>sv_kernel := k\<rparr>))"

definition on_resources :: "('w \<Rightarrow> 'r \<times> 'w) \<Rightarrow> ('k, 'w, 'c) Supervisor \<Rightarrow> 'r \<times> ('k, 'w, 'c) Supervisor" where
  "on_resources f s = (let (r, w) = f (sv_resources s) in (r, s\<lparr>sv_resources := w\<rparr>))"

text \<open>\<open>subjects.get_mut(subject).ok_or(UnknownSubject)?\<close> followed by an update of the record.\<close>

definition update_record ::
    "SubjectId \<Rightarrow> (SubjectRecord \<Rightarrow> SubjectRecord) \<Rightarrow> ('k, 'w, 'c) Supervisor \<Rightarrow>
     (('k, 'w, 'c) Supervisor, ('ke, 're, 'ce) SupervisorError, unit) outcome" where
  "update_record x f s = (case fmlookup (sv_subjects s) x of
     None \<Rightarrow> (Err (SvUnknownSubject x), s)
   | Some r \<Rightarrow> (Ok (), s\<lparr>sv_subjects := fmupd x (f r) (sv_subjects s)\<rparr>))"

section \<open>Construction and inspection\<close>

definition new_with_limits ::
    "('k, 'ke, 'w, 're, 'c, 'ce) Adapters \<Rightarrow> 'k \<Rightarrow> 'w \<Rightarrow> 'c \<Rightarrow> SupervisorLimits \<Rightarrow>
     (('ke, 're, 'ce) SupervisorError, ('k, 'w, 'c) Supervisor) result" where
  "new_with_limits ad k w c l =
     and_then (map_err SvInvalidLimits (SupervisorLimits_validate l)) (\<lambda>_.
     case ak_is_pristine (ad_kernel ad) k of
       (Err e, _) \<Rightarrow> Err (SvKernel e)
     | (Ok pristine, k) \<Rightarrow>
         if \<not> pristine then Err SvKernelNotPristine
         else Ok \<lparr>sv_kernel = k, sv_resources = w, sv_callers = c, sv_limits = l, sv_subjects = fmempty,
             sv_issued_subjects = {||}, sv_issued_handles = fmempty\<rparr>)"

definition Supervisor_new ::
    "('k, 'ke, 'w, 're, 'c, 'ce) Adapters \<Rightarrow> 'k \<Rightarrow> 'w \<Rightarrow> 'c \<Rightarrow>
     (('ke, 're, 'ce) SupervisorError, ('k, 'w, 'c) Supervisor) result" where
  "Supervisor_new ad k w c = new_with_limits ad k w c SupervisorLimits_default"

definition lifecycle ::
    "SubjectId \<Rightarrow> ('k, 'w, 'c) Supervisor \<Rightarrow> (('ke, 're, 'ce) SupervisorError, SubjectLifecycle) result" where
  "lifecycle x s = ok_or (SvUnknownSubject x) (map_option sr_lifecycle (fmlookup (sv_subjects s) x))"

definition with_resources_and_callers ::
    "('w \<Rightarrow> 'c \<Rightarrow> 'a \<times> 'w \<times> 'c) \<Rightarrow> ('k, 'w, 'c) Supervisor \<Rightarrow> 'a \<times> ('k, 'w, 'c) Supervisor" where
  "with_resources_and_callers operation s =
     (let (v, w, c) = operation (sv_resources s) (sv_callers s) in (v, s\<lparr>sv_resources := w, sv_callers := c\<rparr>))"

definition resolve_caller ::
    "('k, 'ke, 'w, 're, 'c, 'ce) Adapters \<Rightarrow> ConnectionIdentity \<Rightarrow> ('k, 'w, 'c) Supervisor \<Rightarrow>
     (('ke, 're, 'ce) SupervisorError, SubjectId) result" where
  "resolve_caller ad identity s =
     and_then (map_err SvCaller (ad_resolve ad (sv_callers s) identity)) (\<lambda>caller.
     if (case fmlookup (sv_subjects s) caller of None \<Rightarrow> False | Some r \<Rightarrow> sr_connection r \<noteq> identity)
     then Err (SvConnectionNotBoundToSubject caller identity)
     else Ok caller)"

definition ensure_running ::
    "SubjectId \<Rightarrow> ('k, 'w, 'c) Supervisor \<Rightarrow> (('ke, 're, 'ce) SupervisorError, unit) result" where
  "ensure_running x s =
     and_then (lifecycle x s) (\<lambda>l. case l of
       LifeRunning \<Rightarrow> Ok ()
     | LifeCreating \<Rightarrow> Err (SvSubjectNotRunning x)
     | LifeClosing \<Rightarrow> Err (SvSubjectClosing x)
     | LifeClosed \<Rightarrow> Err (SvSubjectClosed x))"

text \<open>The caller of a connection, which must be running: the common prefix of the guest operations.\<close>

definition running_caller ::
    "('k, 'ke, 'w, 're, 'c, 'ce) Adapters \<Rightarrow> ConnectionIdentity \<Rightarrow> ('k, 'w, 'c) Supervisor \<Rightarrow>
     (('ke, 're, 'ce) SupervisorError, SubjectId) result" where
  "running_caller ad identity s =
     and_then (resolve_caller ad identity s) (\<lambda>caller. and_then (ensure_running caller s) (\<lambda>_. Ok caller))"

definition bind_accepted_connection ::
    "('k, 'ke, 'w, 're, 'c, 'ce) Adapters \<Rightarrow> ConnectionIdentity \<Rightarrow> ('k, 'w, 'c) Supervisor \<Rightarrow>
     (('k, 'w, 'c) Supervisor, ('ke, 're, 'ce) SupervisorError, SubjectId) outcome" where
  "bind_accepted_connection ad identity s =
     then_do (map_err SvCaller (ad_resolve ad (sv_callers s) identity), s) (\<lambda>x s.
     then_do (ensure_running x s, s) (\<lambda>_ s.
     then_do (update_record x (\<lambda>r. r\<lparr>sr_connection := identity\<rparr>) s) (\<lambda>_ s. (Ok x, s))))"

section \<open>Releasing one resource\<close>

definition mutation_failure :: "CleanupStep \<Rightarrow> 're ResourceMutation \<Rightarrow> ('ke, 're) CleanupFailure" where
  "mutation_failure step out = \<lparr>cf_step = step, cf_cause = (case out of
     Applied \<Rightarrow> InvariantFailure ''an applied resource mutation was reported as a failure''
   | MutationNoEffect e \<Rightarrow> ResourceCause (FailureNoEffect e)
   | MutationCleanupRequired e \<Rightarrow> ResourceCause (FailureCleanupRequired e)
   | MutationEffectUnknown e \<Rightarrow> ResourceCause (FailureEffectUnknown e))\<rparr>"

text \<open>
  One cleanup call of a teardown: none is possible when the token is unknown; the failure is
  returned unless the call was applied.
\<close>

definition release ::
    "CleanupStep \<Rightarrow> ('w \<Rightarrow> 're ResourceMutation \<times> 'w) option \<Rightarrow> ('k, 'w, 'c) Supervisor \<Rightarrow>
     ('ke, 're) CleanupFailure option \<times> ('k, 'w, 'c) Supervisor" where
  "release step call s = (case call of
     None \<Rightarrow> (Some \<lparr>cf_step = step, cf_cause = UnresolvedEffect\<rparr>, s)
   | Some f \<Rightarrow> (case on_resources f s of
       (Applied, s) \<Rightarrow> (None, s)
     | (out, s) \<Rightarrow> (Some (mutation_failure step out), s)))"

definition stop_call ::
    "('w, 're) RuntimeResources \<Rightarrow> WorkloadHandle ResourceOwnership \<Rightarrow> CgroupHandle ResourceOwnership option \<Rightarrow>
     ('w \<Rightarrow> 're ResourceMutation \<times> 'w) option" where
  "stop_call R workload cgroup = (case (ownership_token workload, Option.bind cgroup ownership_token) of
     (Some w, Some c) \<Rightarrow> Some (res_stop_workload R w c)
   | _ \<Rightarrow> None)"

section \<open>Rolling back a failed setup\<close>

text \<open>
  One phase: skipped when there is nothing to release, or when an earlier phase has to succeed
  first (\<open>ready\<close>). The flag says that the resource is gone.
\<close>

definition rollback_phase ::
    "bool \<Rightarrow> 't ResourceOwnership option \<Rightarrow> CleanupStep \<Rightarrow> ('t ResourceOwnership \<Rightarrow> ('w \<Rightarrow> 're ResourceMutation \<times> 'w) option) \<Rightarrow>
     (('ke, 're) SetupRollback \<Rightarrow> ('ke, 're) SetupRollback) \<Rightarrow> ('ke, 're) SetupRollback \<Rightarrow> ('k, 'w, 'c) Supervisor \<Rightarrow>
     bool \<times> ('ke, 're) SetupRollback \<times> ('k, 'w, 'c) Supervisor" where
  "rollback_phase ready own step call clear b s = (case own of
     None \<Rightarrow> (True, b, s)
   | Some q \<Rightarrow>
       if ready then
         (case release step (call q) s of
           (None, s) \<Rightarrow> (True, clear b, s)
         | (Some f, s) \<Rightarrow> (False, b\<lparr>rb_failures := rb_failures b @ [f]\<rparr>, s))
       else (False, b, s))"

definition rollback_release ::
    "('w, 're) RuntimeResources \<Rightarrow> ('ke, 're) SetupRollback \<Rightarrow> ('k, 'w, 'c) Supervisor \<Rightarrow>
     ('ke, 're) SetupRollback \<times> ('k, 'w, 'c) Supervisor" where
  "rollback_release R b s =
     (let (workload_stopped, b, s) = rollback_phase True (rb_workload b) StepStopWorkload
            (\<lambda>q. stop_call R q (rb_cgroup b)) (\<lambda>b. b\<lparr>rb_workload := None\<rparr>) b s;
          (control_closed, b, s) = rollback_phase True (rb_control b) StepCloseControlFd
            (\<lambda>q. map_option (res_close_control_fd R) (ownership_token q)) (\<lambda>b. b\<lparr>rb_control := None\<rparr>) b s;
          (mount_unmounted, b, s) = rollback_phase (workload_stopped \<and> control_closed) (rb_mount b) StepUnmount
            (\<lambda>q. map_option (res_unmount_capfs R) (ownership_token q)) (\<lambda>b. b\<lparr>rb_mount := None\<rparr>) b s;
          (_, b, s) = rollback_phase (workload_stopped \<and> mount_unmounted) (rb_cgroup b) StepRemoveCgroup
            (\<lambda>q. map_option (res_remove_cgroup R) (ownership_token q)) (\<lambda>b. b\<lparr>rb_cgroup := None\<rparr>) b s
      in (b, s))"

definition rollback_setup ::
    "('k, 'ke, 'w, 're, 'c, 'ce) Adapters \<Rightarrow> SubjectId \<Rightarrow> ('ke, 're) SetupRollback \<Rightarrow> ('k, 'w, 'c) Supervisor \<Rightarrow>
     ('ke, 're) SetupRollback \<times> ('k, 'w, 'c) Supervisor" where
  "rollback_setup ad x b s =
     (if \<not> rb_authority_registered b then rollback_release (ad_resources ad) b s
      else (case on_kernel (ak_begin_subject_close (ad_kernel ad) x) s of
        (Err e, s) \<Rightarrow> (b\<lparr>rb_failures := rb_failures b @ [\<lparr>cf_step = StepBeginClose, cf_cause = KernelFailure e\<rparr>]\<rparr>, s)
      | (Ok _, s) \<Rightarrow>
          let (b, s) = rollback_release (ad_resources ad) b s in
          if rb_failures b = [] then
            (case on_kernel (ak_finish_subject_close (ad_kernel ad) x) s of
              (Ok _, s) \<Rightarrow> (b\<lparr>rb_authority_registered := False\<rparr>, s)
            | (Err e, s) \<Rightarrow> (b\<lparr>rb_failures := [\<lparr>cf_step = StepFinishClose, cf_cause = KernelFailure e\<rparr>]\<rparr>, s))
          else (b, s)))"

section \<open>Creating a subject\<close>

text \<open>The ownership collected by the setup closure is the \<open>SetupRollback\<close> handed to the rollback.\<close>

definition record_acquisition ::
    "('t, 're) ResourceAcquisition \<Rightarrow> 't ResourceOwnership option \<Rightarrow>
     ('t ResourceOwnership option, ('ke, 're) OperationFailure, unit) outcome" where
  "record_acquisition out own = (case out of
     Acquired t \<Rightarrow> (Ok (), Some (Owned t))
   | AcquisitionNoEffect e \<Rightarrow> (Err (ResourceCause (FailureNoEffect e)), own)
   | AcquisitionCleanupRequired t e \<Rightarrow> (Err (ResourceCause (FailureCleanupRequired e)), Some (Owned t))
   | AcquisitionEffectUnknown e \<Rightarrow> (Err (ResourceCause (FailureEffectUnknown e)), Some EffectUnknown))"

type_synonym ('k, 'ke, 'w, 're, 'c, 'a) setup_action =
  "('ke, 're) SetupRollback \<times> ('k, 'w, 'c) Supervisor \<Rightarrow>
   (('ke, 're) SetupRollback \<times> ('k, 'w, 'c) Supervisor, SetupStep \<times> ('ke, 're) OperationFailure, 'a) outcome"

definition acquire ::
    "SetupStep \<Rightarrow> ('w \<Rightarrow> ('t, 're) ResourceAcquisition \<times> 'w) \<Rightarrow>
     ('t ResourceOwnership option \<Rightarrow> ('ke, 're) SetupRollback \<Rightarrow> ('ke, 're) SetupRollback) \<Rightarrow>
     ('k, 'ke, 'w, 're, 'c, unit) setup_action" where
  "acquire step call store = (\<lambda>(b, s).
     let (out, s) = on_resources call s; (r, own) = record_acquisition out None in
     (map_err (Pair step) r, (store own b, s)))"

definition ask_kernel :: "SetupStep \<Rightarrow> ('k \<Rightarrow> ('k, 'ke, 'a) outcome) \<Rightarrow> ('k, 'ke, 'w, 're, 'c, 'a) setup_action" where
  "ask_kernel step call = (\<lambda>(b, s).
     let (r, s) = on_kernel call s in (map_err (\<lambda>e. (step, KernelFailure e)) r, (b, s)))"

definition resolved ::
    "string \<Rightarrow> 't ResourceOwnership option \<Rightarrow> (SetupStep \<times> ('ke, 're) OperationFailure, 't) result" where
  "resolved msg own = ok_or (SetupStartWorkload, InvariantFailure msg) (Option.bind own ownership_token)"

definition start_subject ::
    "('k, 'ke, 'w, 're, 'c, 'ce) Adapters \<Rightarrow> SubjectId \<Rightarrow> ('k, 'ke, 'w, 're, 'c, unit) setup_action" where
  "start_subject ad x bs =
     then_do (ask_kernel SetupStartWorkload (ak_startup_snapshot (ad_kernel ad) x) bs) (\<lambda>snapshot (b, s).
     if (case snapshot of None \<Rightarrow> False | Some q \<Rightarrow> ass_status q \<noteq> Running) then
       (Err (SetupStartWorkload, InvariantFailure ''authority subject changed before workload start''), (b, s))
     else
     then_do (resolved ''cgroup setup ownership is unresolved'' (rb_cgroup b), (b, s)) (\<lambda>cgroup (b, s).
     then_do (resolved ''mount setup ownership is unresolved'' (rb_mount b), (b, s)) (\<lambda>mount (b, s).
     then_do (resolved ''control fd setup ownership is unresolved'' (rb_control b), (b, s)) (\<lambda>control (b, s).
     then_do (acquire SetupStartWorkload (res_start_workload (ad_resources ad) x cgroup mount control)
         (\<lambda>own b. b\<lparr>rb_workload := own\<rparr>) (b, s)) (\<lambda>_ bs.
     case snapshot of
       None \<Rightarrow> (Ok (), bs)
     | Some expected \<Rightarrow>
         then_do (ask_kernel SetupStartWorkload (ak_startup_snapshot (ad_kernel ad) x) bs) (\<lambda>observed bs.
         if observed \<noteq> Some expected then
           (Err (SetupStartWorkload, InvariantFailure ''authority subject changed during workload start''), bs)
         else (Ok (), bs)))))))"

definition run_setup ::
    "('k, 'ke, 'w, 're, 'c, 'ce) Adapters \<Rightarrow> Subject \<Rightarrow> ('k, 'ke, 'w, 're, 'c, unit) setup_action" where
  "run_setup ad subject bs =
     (let R = ad_resources ad; x = sb_id subject in
      then_do (acquire SetupCreateCgroup (res_create_cgroup R x) (\<lambda>own b. b\<lparr>rb_cgroup := own\<rparr>) bs) (\<lambda>_ bs.
      then_do (acquire SetupMount (res_mount_capfs R x) (\<lambda>own b. b\<lparr>rb_mount := own\<rparr>) bs) (\<lambda>_ bs.
      then_do (acquire SetupOpenControlFd (res_open_control_fd R x) (\<lambda>own b. b\<lparr>rb_control := own\<rparr>) bs) (\<lambda>_ bs.
      then_do (ask_kernel SetupRegisterSubject (ak_register_subject (ad_kernel ad) subject) bs) (\<lambda>_ (b, s).
      start_subject ad x (b\<lparr>rb_authority_registered := True\<rparr>, s))))))"

definition admit_subject ::
    "('k, 'ke, 'w, 're, 'c, 'ce) Adapters \<Rightarrow> Subject \<Rightarrow> ConnectionIdentity \<Rightarrow> ('k, 'w, 'c) Supervisor \<Rightarrow>
     (('ke, 're, 'ce) SupervisorError, unit) result" where
  "admit_subject ad subject connection s =
     (let x = sb_id subject in
      if x |\<in>| sv_issued_subjects s then Err (SvDuplicateSubject x)
      else and_then (map_err SvCaller (ad_resolve ad (sv_callers s) connection)) (\<lambda>bound.
        if bound \<noteq> x then Err (SvConnectionSubjectMismatch x bound)
        else and_then (case sb_parent subject of None \<Rightarrow> Ok () | Some parent \<Rightarrow> ensure_running parent s) (\<lambda>_.
          if fcard (sv_issued_subjects s) \<ge> sl_max_subjects (sv_limits s)
          then Err (SvCapacityExceeded CapacitySubjects)
          else Ok ())))"

definition setup_record ::
    "ConnectionIdentity \<Rightarrow> SubjectLifecycle \<Rightarrow> ('ke, 're) SetupRollback \<Rightarrow> SubjectRecord" where
  "setup_record connection l b = \<lparr>sr_connection = connection, sr_lifecycle = l,
     sr_authority_registered = rb_authority_registered b, sr_cgroup = rb_cgroup b, sr_mount = rb_mount b,
     sr_control = rb_control b, sr_workload = rb_workload b, sr_runtime_handles = {||}, sr_handles = {||}\<rparr>"

definition create_subject ::
    "('k, 'ke, 'w, 're, 'c, 'ce) Adapters \<Rightarrow> Subject \<Rightarrow> ConnectionIdentity \<Rightarrow> ('k, 'w, 'c) Supervisor \<Rightarrow>
     (('k, 'w, 'c) Supervisor, ('ke, 're, 'ce) SupervisorError, unit) outcome" where
  "create_subject ad subject connection s =
     then_do (admit_subject ad subject connection s, s) (\<lambda>_ s.
     let x = sb_id subject;
         s = s\<lparr>sv_issued_subjects := finsert x (sv_issued_subjects s)\<rparr> in
     case run_setup ad subject
         (\<lparr>rb_failures = [], rb_authority_registered = False, rb_cgroup = None, rb_mount = None,
           rb_control = None, rb_workload = None\<rparr>, s) of
       (Err (step, primary), (b, s)) \<Rightarrow>
         let (b, s) = rollback_setup ad x b s;
             s = (if rb_failures b \<noteq> [] \<or> rb_authority_registered b \<or> rb_cgroup b \<noteq> None \<or>
                     rb_mount b \<noteq> None \<or> rb_control b \<noteq> None \<or> rb_workload b \<noteq> None
                  then s\<lparr>sv_subjects := fmupd x
                    (setup_record connection (if rb_authority_registered b then LifeClosing else LifeCreating) b)
                    (sv_subjects s)\<rparr>
                  else s)
         in (Err (SvSetupFailed x step primary (rb_failures b)), s)
     | (Ok _, (b, s)) \<Rightarrow>
         (Ok (), s\<lparr>sv_subjects := fmupd x (setup_record connection LifeRunning (b\<lparr>rb_authority_registered := True\<rparr>))
           (sv_subjects s)\<rparr>))"

section \<open>Authority operations\<close>

definition supervisor_issue_root ::
    "('k, 'ke, 'w, 're, 'c, 'ce) Adapters \<Rightarrow> SubjectId \<Rightarrow> CapabilityGrant \<Rightarrow> ('k, 'w, 'c) Supervisor \<Rightarrow>
     (('k, 'w, 'c) Supervisor, ('ke, 're, 'ce) SupervisorError, CapId) outcome" where
  "supervisor_issue_root ad x g s =
     then_do (ensure_running x s, s) (\<lambda>_ s.
     if g_subject g \<noteq> x then (Err (SvGrantSubjectMismatch x (g_subject g)), s)
     else fail_as SvKernel (on_kernel (ak_issue_root (ad_kernel ad) g) s))"

definition supervisor_derive ::
    "('k, 'ke, 'w, 're, 'c, 'ce) Adapters \<Rightarrow> ConnectionIdentity \<Rightarrow> CapId \<Rightarrow> CapabilityGrant \<Rightarrow> MonotonicTime \<Rightarrow>
     ('k, 'w, 'c) Supervisor \<Rightarrow> (('k, 'w, 'c) Supervisor, ('ke, 're, 'ce) SupervisorError, CapId) outcome" where
  "supervisor_derive ad identity parent g now s =
     then_do (running_caller ad identity s, s) (\<lambda>caller s.
     fail_as SvKernel (on_kernel (ak_derive (ad_kernel ad) caller parent g now) s))"

definition supervisor_revoke ::
    "('k, 'ke, 'w, 're, 'c, 'ce) Adapters \<Rightarrow> ConnectionIdentity \<Rightarrow> CapId \<Rightarrow> ('k, 'w, 'c) Supervisor \<Rightarrow>
     (('k, 'w, 'c) Supervisor, ('ke, 're, 'ce) SupervisorError, RevocationStatus) outcome" where
  "supervisor_revoke ad identity i s =
     then_do (running_caller ad identity s, s) (\<lambda>caller s.
     fail_as SvKernel (on_kernel (ak_revoke (ad_kernel ad) caller i) s))"

section \<open>Handles\<close>

definition track_runtime_handle ::
    "SubjectId \<Rightarrow> HandleId \<Rightarrow> ('k, 'w, 'c) Supervisor \<Rightarrow>
     (('k, 'w, 'c) Supervisor, ('ke, 're, 'ce) SupervisorError, unit) outcome" where
  "track_runtime_handle x h = update_record x (\<lambda>r. r\<lparr>sr_runtime_handles := finsert h (sr_runtime_handles r)\<rparr>)"

definition forget_handle :: "HandleId \<Rightarrow> SubjectRecord \<Rightarrow> SubjectRecord" where
  "forget_handle h r = r\<lparr>sr_runtime_handles := sr_runtime_handles r |-| {|h|}, sr_handles := sr_handles r |-| {|h|}\<rparr>"

definition rollback_runtime_handle ::
    "('k, 'ke, 'w, 're, 'c, 'ce) Adapters \<Rightarrow> SubjectId \<Rightarrow> HandleId \<Rightarrow> ('k, 'w, 'c) Supervisor \<Rightarrow>
     (('k, 'w, 'c) Supervisor, ('ke, 're, 'ce) SupervisorError, ('ke, 're) CleanupFailure list) outcome" where
  "rollback_runtime_handle ad x h s = (case on_resources (res_close_handle (ad_resources ad) x h) s of
     (Applied, s) \<Rightarrow>
       then_do (update_record x (\<lambda>r. r\<lparr>sr_runtime_handles := sr_runtime_handles r |-| {|h|}\<rparr>) s) (\<lambda>_ s. (Ok [], s))
   | (out, s) \<Rightarrow>
       then_do (update_record x (\<lambda>r. r\<lparr>sr_lifecycle := LifeClosing\<rparr>) s) (\<lambda>_ s.
       (Ok [mutation_failure StepCloseHandle out], s)))"

text \<open>A handle that could not be opened or registered is closed again.\<close>

definition abandon_handle ::
    "('k, 'ke, 'w, 're, 'c, 'ce) Adapters \<Rightarrow> SubjectId \<Rightarrow> HandleId \<Rightarrow> SetupStep \<Rightarrow> ('ke, 're) OperationFailure \<Rightarrow>
     ('k, 'w, 'c) Supervisor \<Rightarrow> (('k, 'w, 'c) Supervisor, ('ke, 're, 'ce) SupervisorError, 'a) outcome" where
  "abandon_handle ad caller h step primary s =
     then_do (rollback_runtime_handle ad caller h s) (\<lambda>rollback s. (Err (SvSetupFailed caller step primary rollback), s))"

definition supervisor_open_handle ::
    "('k, 'ke, 'w, 're, 'c, 'ce) Adapters \<Rightarrow> ConnectionIdentity \<Rightarrow> HandleId \<Rightarrow> ObjectId \<Rightarrow> ('k, 'w, 'c) Supervisor \<Rightarrow>
     (('k, 'w, 'c) Supervisor, ('ke, 're, 'ce) SupervisorError, unit) outcome" where
  "supervisor_open_handle ad identity h object s =
     then_do (running_caller ad identity s, s) (\<lambda>caller s.
     if h |\<in>| fmdom (sv_issued_handles s) then (Err (SvStaleHandle h), s)
     else if fm_len (sv_issued_handles s) \<ge> sl_max_issued_handles (sv_limits s) then
       (Err (SvCapacityExceeded CapacityIssuedHandles), s)
     else
       let s = s\<lparr>sv_issued_handles := fmupd h caller (sv_issued_handles s)\<rparr> in
       (case on_resources (res_open_handle (ad_resources ad) caller h) s of
         (Applied, s) \<Rightarrow>
           then_do (track_runtime_handle caller h s) (\<lambda>_ s.
           case on_kernel (ak_register_open_handle (ad_kernel ad)
               \<lparr>oh_id = h, oh_subject = caller, oh_object = object\<rparr>) s of
             (Err e, s) \<Rightarrow> abandon_handle ad caller h SetupRegisterHandle (KernelFailure e) s
           | (Ok _, s) \<Rightarrow> update_record caller (\<lambda>r. r\<lparr>sr_handles := finsert h (sr_handles r)\<rparr>) s)
       | (MutationNoEffect e, s) \<Rightarrow> (Err (SvResource (FailureNoEffect e)), s)
       | (MutationCleanupRequired e, s) \<Rightarrow>
           then_do (track_runtime_handle caller h s) (\<lambda>_ s.
           abandon_handle ad caller h SetupOpenHandle (ResourceCause (FailureCleanupRequired e)) s)
       | (MutationEffectUnknown e, s) \<Rightarrow>
           then_do (track_runtime_handle caller h s) (\<lambda>_ s.
           abandon_handle ad caller h SetupOpenHandle (ResourceCause (FailureEffectUnknown e)) s)))"

definition supervisor_close_handle ::
    "('k, 'ke, 'w, 're, 'c, 'ce) Adapters \<Rightarrow> ConnectionIdentity \<Rightarrow> HandleId \<Rightarrow> ('k, 'w, 'c) Supervisor \<Rightarrow>
     (('k, 'w, 'c) Supervisor, ('ke, 're, 'ce) SupervisorError, unit) outcome" where
  "supervisor_close_handle ad identity h s =
     then_do (running_caller ad identity s, s) (\<lambda>caller s.
     then_do (fail_as SvKernel (on_kernel (ak_open_handle (ad_kernel ad) h) s)) (\<lambda>found s.
     case found of
       None \<Rightarrow> (Err (SvStaleHandle h), s)
     | Some open_handle \<Rightarrow>
         if oh_subject open_handle \<noteq> caller then (Err (SvHandleNotOwned caller h), s)
         else (case on_resources (res_close_handle (ad_resources ad) caller h) s of
           (MutationNoEffect e, s) \<Rightarrow> (Err (SvResource (FailureNoEffect e)), s)
         | (MutationCleanupRequired e, s) \<Rightarrow> (Err (SvResource (FailureCleanupRequired e)), s)
         | (MutationEffectUnknown e, s) \<Rightarrow> (Err (SvResource (FailureEffectUnknown e)), s)
         | (Applied, s) \<Rightarrow>
             then_do (fail_as SvKernel (on_kernel (ak_close_handle (ad_kernel ad) caller h) s)) (\<lambda>status s.
             then_do (update_record caller (forget_handle h) s) (\<lambda>_ s.
             case status of
               HandleClosed \<Rightarrow> (Ok (), s)
             | HandleAlreadyClosed \<Rightarrow> (Err (SvStaleHandle h), s))))))"

section \<open>Teardown\<close>

type_synonym ('k, 'ke, 'w, 're, 'c, 'ce, 'a) teardown =
  "('ke, 're) CleanupFailure list \<Rightarrow> ('k, 'w, 'c) Supervisor \<Rightarrow>
   (('k, 'w, 'c) Supervisor, ('ke, 're, 'ce) SupervisorError, ('ke, 're) CleanupFailure list \<times> 'a) outcome"

text \<open>Releasing one resource of the record, with the same conditions as in a rollback.\<close>

definition release_phase ::
    "SubjectId \<Rightarrow> bool \<Rightarrow> 't ResourceOwnership option \<Rightarrow> CleanupStep \<Rightarrow>
     ('t ResourceOwnership \<Rightarrow> ('w \<Rightarrow> 're ResourceMutation \<times> 'w) option) \<Rightarrow> (SubjectRecord \<Rightarrow> SubjectRecord) \<Rightarrow>
     ('k, 'ke, 'w, 're, 'c, 'ce, bool) teardown" where
  "release_phase x ready own step call clear failures s = (case own of
     None \<Rightarrow> (Ok (failures, True), s)
   | Some q \<Rightarrow>
       if ready then
         (case release step (call q) s of
           (None, s) \<Rightarrow> then_do (update_record x clear s) (\<lambda>_ s. (Ok (failures, True), s))
         | (Some f, s) \<Rightarrow> (Ok (failures @ [f], False), s))
       else (Ok (failures, False), s))"

fun close_handles ::
    "('k, 'ke, 'w, 're, 'c, 'ce) Adapters \<Rightarrow> SubjectId \<Rightarrow> HandleId list \<Rightarrow> ('k, 'ke, 'w, 're, 'c, 'ce, unit) teardown" where
  "close_handles ad x [] failures s = (Ok (failures, ()), s)"
| "close_handles ad x (h # hs) failures s = (case on_resources (res_close_handle (ad_resources ad) x h) s of
     (Applied, s) \<Rightarrow> (case fmlookup (sv_subjects s) x of
         None \<Rightarrow> (Err (SvUnknownSubject x), s)
       | Some r \<Rightarrow>
           if h |\<in>| sr_handles r then
             (case on_kernel (ak_close_handle (ad_kernel ad) x h) s of
               (Ok _, s) \<Rightarrow> then_do (update_record x (forget_handle h) s) (\<lambda>_ s. close_handles ad x hs failures s)
             | (Err e, s) \<Rightarrow>
                 close_handles ad x hs (failures @ [\<lparr>cf_step = StepCloseHandle, cf_cause = KernelFailure e\<rparr>]) s)
           else
             then_do (update_record x (\<lambda>r. r\<lparr>sr_runtime_handles := sr_runtime_handles r |-| {|h|}\<rparr>) s) (\<lambda>_ s.
             close_handles ad x hs failures s))
   | (out, s) \<Rightarrow> close_handles ad x hs (failures @ [mutation_failure StepCloseHandle out]) s)"

definition release_resources ::
    "('k, 'ke, 'w, 're, 'c, 'ce) Adapters \<Rightarrow> SubjectId \<Rightarrow> SubjectRecord \<Rightarrow> ('k, 'ke, 'w, 're, 'c, 'ce, unit) teardown" where
  "release_resources ad x r failures s =
     (let R = ad_resources ad in
      then_do (release_phase x True (sr_workload r) StepStopWorkload
          (\<lambda>q. stop_call R q (sr_cgroup r)) (\<lambda>r. r\<lparr>sr_workload := None\<rparr>) failures s) (\<lambda>(failures, workload_stopped) s.
      then_do (release_phase x True (sr_control r) StepCloseControlFd
          (\<lambda>q. map_option (res_close_control_fd R) (ownership_token q)) (\<lambda>r. r\<lparr>sr_control := None\<rparr>)
          failures s) (\<lambda>(failures, control_closed) s.
      then_do (close_handles ad x (sorted_list_of_fset (sr_runtime_handles r)) failures s) (\<lambda>(failures, _) s.
      then_do (ok_or (SvUnknownSubject x) (fmlookup (sv_subjects s) x), s) (\<lambda>now s.
      let handles_closed = (sr_runtime_handles now = {||}) in
      then_do (release_phase x (workload_stopped \<and> control_closed \<and> handles_closed) (sr_mount r) StepUnmount
          (\<lambda>q. map_option (res_unmount_capfs R) (ownership_token q)) (\<lambda>r. r\<lparr>sr_mount := None\<rparr>)
          failures s) (\<lambda>(failures, mount_unmounted) s.
      then_do (release_phase x (workload_stopped \<and> mount_unmounted) (sr_cgroup r) StepRemoveCgroup
          (\<lambda>q. map_option (res_remove_cgroup R) (ownership_token q)) (\<lambda>r. r\<lparr>sr_cgroup := None\<rparr>)
          failures s) (\<lambda>(failures, _) s.
      (Ok (failures, ()), s))))))))"

definition cleanup_error ::
    "SubjectId \<Rightarrow> ('ke, 're) CleanupFailure list \<Rightarrow> ('ke, 're, 'ce) SupervisorError" where
  "cleanup_error x failures =
     (if list_ex (\<lambda>f. cf_cause f = UnresolvedEffect) failures then SvCleanupBlocked x failures
      else SvCleanupFailed x failures)"

definition finish_teardown ::
    "('k, 'ke, 'w, 're, 'c, 'ce) Adapters \<Rightarrow> SubjectId \<Rightarrow> bool \<Rightarrow> ('ke, 're) CleanupFailure list \<Rightarrow> ('k, 'w, 'c) Supervisor \<Rightarrow>
     (('k, 'w, 'c) Supervisor, ('ke, 're, 'ce) SupervisorError, unit) outcome" where
  "finish_teardown ad x authority_registered failures s =
     (if failures \<noteq> [] then (Err (cleanup_error x failures), s)
      else if authority_registered then
        (case on_kernel (ak_finish_subject_close (ad_kernel ad) x) s of
          (Ok _, s) \<Rightarrow> update_record x (\<lambda>r. r\<lparr>sr_lifecycle := LifeClosed, sr_authority_registered := False\<rparr>) s
        | (Err e, s) \<Rightarrow> (Err (cleanup_error x [\<lparr>cf_step = StepFinishClose, cf_cause = KernelFailure e\<rparr>]), s))
      else update_record x (\<lambda>r. r\<lparr>sr_lifecycle := LifeClosed\<rparr>) s)"

definition shutdown_subject ::
    "('k, 'ke, 'w, 're, 'c, 'ce) Adapters \<Rightarrow> SubjectId \<Rightarrow> ('k, 'w, 'c) Supervisor \<Rightarrow>
     (('k, 'w, 'c) Supervisor, ('ke, 're, 'ce) SupervisorError, unit) outcome" where
  "shutdown_subject ad x s = (case fmlookup (sv_subjects s) x of
     None \<Rightarrow> (Err (SvUnknownSubject x), s)
   | Some r \<Rightarrow>
       if sr_lifecycle r = LifeClosed then (Err (SvSubjectClosed x), s)
       else
         let authority_registered = sr_authority_registered r;
             s = s\<lparr>sv_subjects := fmupd x (r\<lparr>sr_lifecycle := LifeClosing\<rparr>) (sv_subjects s)\<rparr> in
         then_do (if \<not> authority_registered then (Ok (), s)
           else (case on_kernel (ak_begin_subject_close (ad_kernel ad) x) s of
             (Ok _, s) \<Rightarrow> (Ok (), s)
           | (Err e, s) \<Rightarrow>
               (Err (SvCleanupFailed x [\<lparr>cf_step = StepBeginClose, cf_cause = KernelFailure e\<rparr>]), s))) (\<lambda>_ s.
         then_do (ok_or (SvUnknownSubject x) (fmlookup (sv_subjects s) x), s) (\<lambda>r s.
         then_do (release_resources ad x r [] s) (\<lambda>(failures, _) s.
         finish_teardown ad x authority_registered failures s))))"

section \<open>Dispatch\<close>

fun dispatch_request ::
    "('k, 'ke, 'w, 're, 'c, 'ce) Adapters \<Rightarrow> ConnectionIdentity \<Rightarrow> WireRequest \<Rightarrow> ('k, 'w, 'c) Supervisor \<Rightarrow>
     (('k, 'w, 'c) Supervisor, ('ke, 're, 'ce) SupervisorError, DispatchResponse) outcome" where
  "dispatch_request ad identity (WireCloseSubject _) s =
     then_do (running_caller ad identity s, s) (\<lambda>caller s.
     then_do (shutdown_subject ad caller s) (\<lambda>_ s. (Ok DispatchSubjectClosed, s)))"
| "dispatch_request ad identity (WireCloseHandle _ h) s =
     then_do (supervisor_close_handle ad identity h s) (\<lambda>_ s. (Ok DispatchHandleClosed, s))"

definition dispatch_wire ::
    "('k, 'ke, 'w, 're, 'c, 'ce) Adapters \<Rightarrow> ConnectionIdentity \<Rightarrow> bytes \<Rightarrow> ('k, 'w, 'c) Supervisor \<Rightarrow>
     (('k, 'w, 'c) Supervisor, ('ke, 're, 'ce) SupervisorError, DispatchResponse) outcome" where
  "dispatch_wire ad identity bs s =
     then_do (map_err SvWire (WireRequest_decode bs), s) (\<lambda>request s. dispatch_request ad identity request s)"

end
