(* ===== verification/Supervisor_Ledger.thy ===== *)
theory Supervisor_Ledger
  imports Supervisor
begin

text \<open>
  What one operation may do to the ledger of the supervisor: \<open>record_ok\<close> is the shape of a record,
  \<open>releases\<close> the only way a teardown changes one, and \<open>moved\<close> a run of kernel and adapter calls
  that changes the record of one subject. The phases of rollback and teardown are specified by them.
\<close>

section \<open>Ownership\<close>

definition owned :: "'t ResourceOwnership option \<Rightarrow> bool" where
  "owned q \<longleftrightarrow> (case q of Some (Owned _) \<Rightarrow> True | _ \<Rightarrow> False)"

lemma owned_simps [simp]: "\<not> owned None" "owned (Some (Owned t))" "\<not> owned (Some EffectUnknown)"
  by (simp_all add: owned_def)

lemma owned_iff: "owned q \<longleftrightarrow> (\<exists>t. q = Some (Owned t))"
  by (auto simp: owned_def split: option.splits ResourceOwnership.splits)

text \<open>A resource stays as it is, or a token that is known is given back.\<close>

definition shrinks :: "'t ResourceOwnership option \<Rightarrow> 't ResourceOwnership option \<Rightarrow> bool" where
  "shrinks p q \<longleftrightarrow> q = p \<or> q = None \<and> owned p"

lemma shrinks_refl [simp]: "shrinks q q"
  by (simp add: shrinks_def)

lemma shrinks_trans: "shrinks p q \<Longrightarrow> shrinks q r \<Longrightarrow> shrinks p r"
  by (auto simp: shrinks_def)

text \<open>
  The order of acquisition, kept by every rollback and teardown: workload, control descriptor and
  handles live on a mount with a known token, and whatever exists lives in a known cgroup.
\<close>

definition stacked ::
    "CgroupHandle ResourceOwnership option \<Rightarrow> MountHandle ResourceOwnership option \<Rightarrow>
     ControlFdHandle ResourceOwnership option \<Rightarrow> WorkloadHandle ResourceOwnership option \<Rightarrow> HandleId fset \<Rightarrow> bool" where
  "stacked cgroup mount control workload handles \<longleftrightarrow>
     (workload \<noteq> None \<or> control \<noteq> None \<or> handles \<noteq> {||} \<longrightarrow> owned mount) \<and>
     (mount \<noteq> None \<longrightarrow> owned cgroup)"

definition nested :: "SubjectRecord \<Rightarrow> bool" where
  "nested r \<longleftrightarrow> stacked (sr_cgroup r) (sr_mount r) (sr_control r) (sr_workload r) (sr_runtime_handles r) \<and>
     sr_handles r |\<subseteq>| sr_runtime_handles r"

definition holds_nothing :: "SubjectRecord \<Rightarrow> bool" where
  "holds_nothing r \<longleftrightarrow> sr_cgroup r = None \<and> sr_mount r = None \<and> sr_control r = None \<and> sr_workload r = None \<and>
     sr_runtime_handles r = {||}"

definition record_ok :: "SubjectRecord \<Rightarrow> bool" where
  "record_ok r \<longleftrightarrow> nested r \<and> (case sr_lifecycle r of
     LifeRunning \<Rightarrow> sr_authority_registered r \<and> owned (sr_cgroup r) \<and> owned (sr_mount r) \<and>
       owned (sr_control r) \<and> owned (sr_workload r)
   | LifeCreating \<Rightarrow> \<not> sr_authority_registered r
   | LifeClosing \<Rightarrow> True
   | LifeClosed \<Rightarrow> \<not> sr_authority_registered r \<and> holds_nothing r)"

definition releases :: "SubjectRecord \<Rightarrow> SubjectRecord \<Rightarrow> bool" where
  "releases r r' \<longleftrightarrow> sr_connection r' = sr_connection r \<and> sr_lifecycle r' = sr_lifecycle r \<and>
     sr_authority_registered r' = sr_authority_registered r \<and>
     shrinks (sr_cgroup r) (sr_cgroup r') \<and> shrinks (sr_mount r) (sr_mount r') \<and>
     shrinks (sr_control r) (sr_control r') \<and> shrinks (sr_workload r) (sr_workload r') \<and>
     sr_runtime_handles r' |\<subseteq>| sr_runtime_handles r \<and> sr_handles r' |\<subseteq>| sr_handles r"

lemma releases_refl [simp]: "releases r r"
  by (simp add: releases_def)

lemma releases_trans: "releases p q \<Longrightarrow> releases q r \<Longrightarrow> releases p r"
  unfolding releases_def by (metis fsubset_trans shrinks_trans)

section \<open>Runs of kernel calls\<close>

inductive kernel_call :: "('k, 'e) AuthorityKernel \<Rightarrow> 'k \<Rightarrow> 'k \<Rightarrow> bool" for K k where
  call_register: "kernel_call K k (snd (ak_register_subject K x k))"
| call_issue: "kernel_call K k (snd (ak_issue_root K g k))"
| call_derive: "kernel_call K k (snd (ak_derive K c p g now k))"
| call_revoke: "kernel_call K k (snd (ak_revoke K c i k))"
| call_begin: "kernel_call K k (snd (ak_begin_subject_close K c k))"
| call_finish: "kernel_call K k (snd (ak_finish_subject_close K c k))"
| call_open: "kernel_call K k (snd (ak_register_open_handle K oh k))"
| call_close: "kernel_call K k (snd (ak_close_handle K c h k))"
| call_look: "kernel_call K k (snd (ak_open_handle K h k))"
| call_snapshot: "kernel_call K k (snd (ak_startup_snapshot K c k))"

definition kernel_runs :: "('k, 'e) AuthorityKernel \<Rightarrow> 'k \<Rightarrow> 'k \<Rightarrow> bool" where
  "kernel_runs K = rtranclp (kernel_call K)"

lemma runs_none: "kernel_runs K k k"
  by (simp add: kernel_runs_def)

lemma runs_call: "kernel_call K k l \<Longrightarrow> kernel_runs K k l"
  by (simp add: kernel_runs_def)

lemmas kernel_call_runs = kernel_call.intros [THEN runs_call]

lemma kernel_runs_trans: "kernel_runs K l m \<Longrightarrow> kernel_runs K k l \<Longrightarrow> kernel_runs K k m"
  by (simp add: kernel_runs_def)

lemma kernel_runs_induct [consumes 1, case_names none call]:
  assumes "kernel_runs K k m" "P k" "\<And>l n. kernel_call K l n \<Longrightarrow> P l \<Longrightarrow> P n"
  shows "P m"
  using assms(1) unfolding kernel_runs_def by (induction rule: rtranclp_induct) (auto intro: assms(2,3))

section \<open>Changing the record of one subject\<close>

definition moved ::
    "('k, 'ke, 'w, 're, 'c, 'ce) Adapters \<Rightarrow> SubjectId \<Rightarrow> SubjectRecord \<Rightarrow>
     ('k, 'w, 'c) Supervisor \<Rightarrow> ('k, 'w, 'c) Supervisor \<Rightarrow> bool" where
  "moved ad x r s t \<longleftrightarrow> (\<exists>k w. kernel_runs (ad_kernel ad) (sv_kernel s) k \<and>
     t = s\<lparr>sv_kernel := k, sv_resources := w, sv_subjects := fmupd x r (sv_subjects s)\<rparr>)"

lemma fmupd_idle: "fmlookup m x = Some v \<Longrightarrow> fmupd x v m = m"
  by (rule fmap_ext) auto

lemma fmupd_twice [simp]: "fmupd x v (fmupd x u m) = fmupd x v m"
  by (rule fmap_ext) auto

lemma moved_refl: "fmlookup (sv_subjects s) x = Some r \<Longrightarrow> moved ad x r s s"
  unfolding moved_def
  by (rule exI [of _ "sv_kernel s"], rule exI [of _ "sv_resources s"]) (simp add: runs_none fmupd_idle)

lemma moved_trans:
  assumes "moved ad x q s t" "moved ad x r t u"
  shows "moved ad x r s u"
proof -
  obtain k w where t: "kernel_runs (ad_kernel ad) (sv_kernel s) k"
      "t = s\<lparr>sv_kernel := k, sv_resources := w, sv_subjects := fmupd x q (sv_subjects s)\<rparr>"
    using assms(1) by (auto simp: moved_def)
  obtain l v where u: "kernel_runs (ad_kernel ad) (sv_kernel t) l"
      "u = t\<lparr>sv_kernel := l, sv_resources := v, sv_subjects := fmupd x r (sv_subjects t)\<rparr>"
    using assms(2) by (auto simp: moved_def)
  have "kernel_runs (ad_kernel ad) (sv_kernel s) l" using t u kernel_runs_trans by fastforce
  then show ?thesis
    using t u unfolding moved_def by (intro exI [of _ l] exI [of _ v]) simp
qed

lemma moved_lookup [simp]: "moved ad x r s t \<Longrightarrow> fmlookup (sv_subjects t) x = Some r"
  by (auto simp: moved_def)

lemma update_record_Some:
  "fmlookup (sv_subjects s) x = Some r \<Longrightarrow>
   update_record x f s = (Ok (), s\<lparr>sv_subjects := fmupd x (f r) (sv_subjects s)\<rparr>)"
  by (simp add: update_record_def)

lemma moved_update:
  assumes "moved ad x r s t"
  shows "moved ad x r' s (t\<lparr>sv_subjects := fmupd x r' (sv_subjects t)\<rparr>)"
proof -
  obtain k w where "kernel_runs (ad_kernel ad) (sv_kernel s) k"
      "t = s\<lparr>sv_kernel := k, sv_resources := w, sv_subjects := fmupd x r (sv_subjects s)\<rparr>"
    using assms by (auto simp: moved_def)
  then show ?thesis
    unfolding moved_def by (intro exI [of _ k] exI [of _ w]) simp
qed

text \<open>Calls that leave the ledger alone.\<close>

definition served ::
    "('k, 'ke, 'w, 're, 'c, 'ce) Adapters \<Rightarrow> ('k, 'w, 'c) Supervisor \<Rightarrow> ('k, 'w, 'c) Supervisor \<Rightarrow> bool" where
  "served ad s t \<longleftrightarrow> (\<exists>k w. kernel_runs (ad_kernel ad) (sv_kernel s) k \<and> t = s\<lparr>sv_kernel := k, sv_resources := w\<rparr>)"

lemma served_refl [simp]: "served ad s s"
  unfolding served_def by (intro exI [of _ "sv_kernel s"] exI [of _ "sv_resources s"]) (simp add: runs_none)

lemma served_trans:
  assumes "served ad s t" "served ad t u"
  shows "served ad s u"
proof -
  obtain k w where t: "kernel_runs (ad_kernel ad) (sv_kernel s) k" "t = s\<lparr>sv_kernel := k, sv_resources := w\<rparr>"
    using assms(1) by (auto simp: served_def)
  obtain l v where u: "kernel_runs (ad_kernel ad) (sv_kernel t) l" "u = t\<lparr>sv_kernel := l, sv_resources := v\<rparr>"
    using assms(2) by (auto simp: served_def)
  have "kernel_runs (ad_kernel ad) (sv_kernel s) l" using t u kernel_runs_trans by fastforce
  then show ?thesis using t u unfolding served_def by (intro exI [of _ l] exI [of _ v]) simp
qed

lemma served_resources:
  assumes "on_resources f s = (v, t)"
  shows "served ad s t"
proof -
  have "t = s\<lparr>sv_resources := snd (f (sv_resources s))\<rparr>"
    using assms by (auto simp: on_resources_def split: prod.splits)
  then show ?thesis
    unfolding served_def
    by (intro exI [of _ "sv_kernel s"] exI [of _ "snd (f (sv_resources s))"]) (simp add: runs_none)
qed

lemma served_kernel:
  assumes "on_kernel f s = (v, t)" "kernel_runs (ad_kernel ad) (sv_kernel s) (snd (f (sv_kernel s)))"
  shows "served ad s t"
proof -
  have "t = s\<lparr>sv_kernel := snd (f (sv_kernel s))\<rparr>"
    using assms(1) by (auto simp: on_kernel_def split: prod.splits)
  then show ?thesis
    using assms(2) unfolding served_def
    by (intro exI [of _ "snd (f (sv_kernel s))"] exI [of _ "sv_resources s"]) simp
qed

lemma moved_served:
  assumes "fmlookup (sv_subjects s) x = Some r" "served ad s t"
  shows "moved ad x r s t"
proof -
  obtain k w where "kernel_runs (ad_kernel ad) (sv_kernel s) k" "t = s\<lparr>sv_kernel := k, sv_resources := w\<rparr>"
    using assms(2) by (auto simp: served_def)
  then show ?thesis
    using assms(1) unfolding moved_def by (intro exI [of _ k] exI [of _ w]) (simp add: fmupd_idle)
qed

lemma moved_resources:
  "fmlookup (sv_subjects s) x = Some r \<Longrightarrow> on_resources f s = (v, t) \<Longrightarrow> moved ad x r s t"
  by (rule moved_served [OF _ served_resources])

lemma moved_kernel:
  "fmlookup (sv_subjects s) x = Some r \<Longrightarrow> on_kernel f s = (v, t) \<Longrightarrow>
   kernel_runs (ad_kernel ad) (sv_kernel s) (snd (f (sv_kernel s))) \<Longrightarrow> moved ad x r s t"
  by (rule moved_served [OF _ served_kernel])

section \<open>The phases of a teardown\<close>

text \<open>A call that is missing or that some world does not apply.\<close>

definition refuses :: "('w \<Rightarrow> 're ResourceMutation \<times> 'w) option \<Rightarrow> bool" where
  "refuses call \<longleftrightarrow> (case call of None \<Rightarrow> True | Some f \<Rightarrow> \<exists>w. fst (f w) \<noteq> Applied)"

definition unresolved :: "('ke, 're) CleanupFailure \<Rightarrow> bool" where
  "unresolved f \<longleftrightarrow> cf_cause f = UnresolvedEffect"

lemma release_cases:
  fixes ad :: "('k, 'ke, 'w, 're, 'c, 'ce) Adapters" and s :: "('k, 'w, 'c) Supervisor"
  obtains (gone) t where "release step call s = (None :: ('ke, 're) CleanupFailure option, t)" "served ad s t" "call \<noteq> None"
  | (kept) f :: "('ke, 're) CleanupFailure" and t where "release step call s = (Some f, t)" "served ad s t"
      "refuses call" "unresolved f \<longleftrightarrow> call = None"
proof (cases call)
  case None
  then show ?thesis using kept by (simp add: release_def refuses_def unresolved_def)
next
  case (Some g)
  obtain out t where t: "on_resources g s = (out, t)" by fastforce
  have m: "served ad s t" using served_resources [OF t] .
  show ?thesis
  proof (cases "out = Applied")
    case True
    then show ?thesis using gone [of t] Some t m by (simp add: release_def)
  next
    case False
    then have "release step call s = (Some (mutation_failure step out :: ('ke, 're) CleanupFailure), t)"
      using Some t by (cases out) (simp_all add: release_def)
    moreover have "refuses call"
      using False t Some by (auto simp: refuses_def on_resources_def split: prod.splits intro!: exI [of _ "sv_resources s"])
    moreover have "\<not> unresolved (mutation_failure step out :: ('ke, 're) CleanupFailure)"
      using False by (cases out) (simp_all add: unresolved_def mutation_failure_def)
    ultimately show ?thesis using kept m Some by blast
  qed
qed

text \<open>Closing handles only removes handles from the record, and keeps the two sets in line.\<close>

definition trims :: "SubjectRecord \<Rightarrow> SubjectRecord \<Rightarrow> bool" where
  "trims r q \<longleftrightarrow> (\<exists>rh hs. q = r\<lparr>sr_runtime_handles := rh, sr_handles := hs\<rparr> \<and>
     rh |\<subseteq>| sr_runtime_handles r \<and> hs |\<subseteq>| sr_handles r \<and> (sr_handles r |\<subseteq>| sr_runtime_handles r \<longrightarrow> hs |\<subseteq>| rh))"

lemma trims_refl: "trims r r"
  unfolding trims_def by (rule exI [of _ "sr_runtime_handles r"], rule exI [of _ "sr_handles r"]) simp

lemma trims_trans:
  assumes "trims p q" "trims q r"
  shows "trims p r"
proof -
  obtain rh hs where q: "q = p\<lparr>sr_runtime_handles := rh, sr_handles := hs\<rparr>" "rh |\<subseteq>| sr_runtime_handles p"
      "hs |\<subseteq>| sr_handles p" "sr_handles p |\<subseteq>| sr_runtime_handles p \<longrightarrow> hs |\<subseteq>| rh"
    using assms(1) unfolding trims_def by blast
  obtain rh' hs' where r: "r = q\<lparr>sr_runtime_handles := rh', sr_handles := hs'\<rparr>" "rh' |\<subseteq>| sr_runtime_handles q"
      "hs' |\<subseteq>| sr_handles q" "sr_handles q |\<subseteq>| sr_runtime_handles q \<longrightarrow> hs' |\<subseteq>| rh'"
    using assms(2) unfolding trims_def by blast
  show ?thesis
    unfolding trims_def using q r by (intro exI [of _ rh'] exI [of _ hs']) auto
qed

lemma trims_forget: "trims r (forget_handle h r)"
  unfolding trims_def forget_handle_def
  by (intro exI [of _ "sr_runtime_handles r |-| {|h|}"] exI [of _ "sr_handles r |-| {|h|}"]) auto

lemma trims_runtime:
  assumes "h |\<notin>| sr_handles r"
  shows "trims r (r\<lparr>sr_runtime_handles := sr_runtime_handles r |-| {|h|}\<rparr>)"
  unfolding trims_def using assms
  by (intro exI [of _ "sr_runtime_handles r |-| {|h|}"] exI [of _ "sr_handles r"]) auto

text \<open>The fate of one handle: it is forgotten, or a failure is recorded and it stays.\<close>

definition close_one ::
    "('k, 'ke, 'w, 're, 'c, 'ce) Adapters \<Rightarrow> SubjectId \<Rightarrow> HandleId \<Rightarrow> SubjectRecord \<Rightarrow> ('k, 'w, 'c) Supervisor \<Rightarrow>
     ('ke, 're) CleanupFailure option \<times> SubjectRecord \<times> ('k, 'w, 'c) Supervisor" where
  "close_one ad x h r s = (case on_resources (res_close_handle (ad_resources ad) x h) s of
     (Applied, t) \<Rightarrow>
       if h |\<in>| sr_handles r then
         (case on_kernel (ak_close_handle (ad_kernel ad) x h) t of
           (Ok _, t) \<Rightarrow> (None, forget_handle h r, t)
         | (Err e, t) \<Rightarrow> (Some \<lparr>cf_step = StepCloseHandle, cf_cause = KernelFailure e\<rparr>, r, t))
       else (None, r\<lparr>sr_runtime_handles := sr_runtime_handles r |-| {|h|}\<rparr>, t)
   | (out, t) \<Rightarrow> (Some (mutation_failure StepCloseHandle out), r, t))"

lemma close_one_moved:
  assumes "fmlookup (sv_subjects s) x = Some r" "close_one ad x h r s = (f, q, t)"
  shows "moved ad x r s t" "trims r q"
    and "f = None \<Longrightarrow> sr_runtime_handles q = sr_runtime_handles r |-| {|h|}" "f \<noteq> None \<Longrightarrow> q = r"
    and "f = Some g \<Longrightarrow> \<not> unresolved g"
proof -
  obtain out u where u: "on_resources (res_close_handle (ad_resources ad) x h) s = (out, u)" by fastforce
  obtain v w where w: "on_kernel (ak_close_handle (ad_kernel ad) x h) u = (v, w)" by fastforce
  have m: "moved ad x r s u" using moved_resources [OF assms(1) u] .
  have n: "moved ad x r s w"
    using moved_trans [OF m moved_kernel [OF moved_lookup [OF m] w kernel_call_runs(8)]] .
  show "moved ad x r s t"
    using assms(2) m n u w by (cases out; cases v) (auto simp: close_one_def split: if_splits)
  show "trims r q"
    using assms(2) u w trims_refl trims_forget trims_runtime
    by (cases out; cases v) (auto simp: close_one_def split: if_splits)
  show "f = None \<Longrightarrow> sr_runtime_handles q = sr_runtime_handles r |-| {|h|}"
    using assms(2) u w by (cases out; cases v) (auto simp: close_one_def forget_handle_def split: if_splits)
  show "f \<noteq> None \<Longrightarrow> q = r"
    using assms(2) u w by (cases out; cases v) (auto simp: close_one_def split: if_splits)
  show "f = Some g \<Longrightarrow> \<not> unresolved g"
    using assms(2) u w
    by (cases out; cases v) (auto simp: close_one_def mutation_failure_def unresolved_def split: if_splits)
qed

lemma close_handles_Cons:
  assumes "fmlookup (sv_subjects s) x = Some r" "close_one ad x h r s = (f, q, t)"
  shows "close_handles ad x (h # hs) fs s =
    close_handles ad x hs (fs @ (case f of None \<Rightarrow> [] | Some g \<Rightarrow> [g])) (t\<lparr>sv_subjects := fmupd x q (sv_subjects t)\<rparr>)"
proof -
  obtain out u where u: "on_resources (res_close_handle (ad_resources ad) x h) s = (out, u)" by fastforce
  obtain v w where w: "on_kernel (ak_close_handle (ad_kernel ad) x h) u = (v, w)" by fastforce
  have m: "fmlookup (sv_subjects u) x = Some r"
    using moved_lookup [OF moved_resources [OF assms(1) u]] .
  moreover from this have n: "fmlookup (sv_subjects w) x = Some r"
    using moved_lookup [OF moved_kernel [OF m w kernel_call_runs(8)]] by simp
  ultimately show ?thesis
    using assms(2) u w
    by (cases out; cases v) (auto simp: close_one_def update_record_Some fmupd_idle split: if_splits)
qed

lemma close_handles_moved:
  fixes ad :: "('k, 'ke, 'w, 're, 'c, 'ce) Adapters" and s :: "('k, 'w, 'c) Supervisor"
    and fs :: "('ke, 're) CleanupFailure list"
  assumes "fmlookup (sv_subjects s) x = Some r"
  shows "\<exists>gs t q. close_handles ad x hs fs s = (Ok (fs @ gs, ()), t) \<and> moved ad x q s t \<and> trims r q \<and>
    \<not> list_ex unresolved gs \<and> (gs = [] \<longrightarrow> sr_runtime_handles q = sr_runtime_handles r |-| fset_of_list hs)"
  using assms
proof (induction hs arbitrary: fs s r)
  case Nil
  then show ?case using moved_refl [of s x r ad] trims_refl by (intro exI [of _ "[]"] exI [of _ s] exI [of _ r]) auto
next
  case (Cons h hs)
  obtain f q t where c: "close_one ad x h r s = (f, q, t)" by (metis prod_cases3)
  define t' where "t' = t\<lparr>sv_subjects := fmupd x q (sv_subjects t)\<rparr>"
  define gs where "gs = (case f of None \<Rightarrow> [] | Some g \<Rightarrow> [g])"
  note one = close_one_moved [OF Cons.prems c]
  have m: "moved ad x q s t'" unfolding t'_def using moved_update [OF one(1)] .
  obtain gs' u p where p: "close_handles ad x hs (fs @ gs) t' = (Ok ((fs @ gs) @ gs', ()), u)" "moved ad x p t' u"
      "trims q p" "\<not> list_ex unresolved gs'" "gs' = [] \<Longrightarrow> sr_runtime_handles p = sr_runtime_handles q |-| fset_of_list hs"
    using Cons.IH [OF moved_lookup [OF m]] by blast
  have "close_handles ad x (h # hs) fs s = (Ok (fs @ gs @ gs', ()), u)"
    using close_handles_Cons [OF Cons.prems c, of hs fs] p(1) unfolding t'_def gs_def by simp
  moreover have "\<not> list_ex unresolved (gs @ gs')"
    using one(5) p(4) by (auto simp: gs_def split: option.splits)
  moreover have "sr_runtime_handles p = sr_runtime_handles r |-| fset_of_list (h # hs)" if "gs @ gs' = []"
    using that one(3) p(5) by (auto simp: gs_def split: option.splits)
  ultimately show ?case
    using moved_trans [OF m p(2)] trims_trans [OF one(2) p(3)]
    by (intro exI [of _ "gs @ gs'"] exI [of _ u] exI [of _ p]) blast
qed

lemma trims_fields:
  assumes "trims r q"
  shows "sr_connection q = sr_connection r" "sr_lifecycle q = sr_lifecycle r"
    "sr_authority_registered q = sr_authority_registered r" "sr_cgroup q = sr_cgroup r" "sr_mount q = sr_mount r"
    "sr_control q = sr_control r" "sr_workload q = sr_workload r"
    "sr_runtime_handles q |\<subseteq>| sr_runtime_handles r" "sr_handles q |\<subseteq>| sr_handles r"
    "sr_handles r |\<subseteq>| sr_runtime_handles r \<Longrightarrow> sr_handles q |\<subseteq>| sr_runtime_handles q"
  using assms by (auto simp: trims_def)

lemma trims_releases: "trims r q \<Longrightarrow> releases r q"
  by (simp add: releases_def trims_fields)

lemma trims_nested:
  assumes "trims r q" "nested r"
  shows "nested q"
proof -
  note f = trims_fields [OF assms(1)]
  have "sr_runtime_handles q \<noteq> {||} \<Longrightarrow> sr_runtime_handles r \<noteq> {||}" using f(8) by auto
  then show ?thesis using assms(2) f unfolding nested_def stacked_def by auto
qed

section \<open>The teardown of a record\<close>

definition unknown_effect :: "SubjectRecord \<Rightarrow> bool" where
  "unknown_effect r \<longleftrightarrow> sr_cgroup r = Some EffectUnknown \<or> sr_mount r = Some EffectUnknown \<or>
     sr_control r = Some EffectUnknown \<or> sr_workload r = Some EffectUnknown"

lemma ownership_token_None: "ownership_token q = None \<longleftrightarrow> q = EffectUnknown"
  by (cases q) simp_all

lemma stop_call_None:
  "stop_call R w c = None \<longleftrightarrow> w = EffectUnknown \<or> \<not> owned c"
  by (cases w; cases c; cases "the c") (auto simp: stop_call_def)

text \<open>What a phase reports, by whether it was ready to run: its failures and whether the resource is gone.\<close>

definition phase_result ::
    "bool \<Rightarrow> 't ResourceOwnership option \<Rightarrow> ('t ResourceOwnership \<Rightarrow> ('w \<Rightarrow> 're ResourceMutation \<times> 'w) option) \<Rightarrow>
     ('ke, 're) CleanupFailure list \<Rightarrow> bool \<Rightarrow> bool" where
  "phase_result ready own call gs gone \<longleftrightarrow> (own = None \<longrightarrow> gone) \<and>
     (gone \<longrightarrow> own = None \<or> ready \<and> call (the own) \<noteq> None) \<and>
     (\<not> gone \<and> ready \<longrightarrow> gs \<noteq> [] \<and> refuses (call (the own))) \<and>
     (list_ex unresolved gs \<longrightarrow> \<not> gone \<and> call (the own) = None)"

lemma release_phase_spec:
  fixes ad :: "('k, 'ke, 'w, 're, 'c, 'ce) Adapters" and s :: "('k, 'w, 'c) Supervisor"
    and fs :: "('ke, 're) CleanupFailure list"
  assumes "fmlookup (sv_subjects s) x = Some r" and "own = None \<Longrightarrow> clear r = r"
  shows "\<exists>gs gone t. release_phase x ready own step call clear fs s =
      (Ok (fs @ gs, gone) :: (('ke, 're, 'ce) SupervisorError, _) result, t) \<and>
    moved ad x (if gone then clear r else r) s t \<and> phase_result ready own call gs gone"
proof (cases "\<exists>q. own = Some q \<and> ready")
  case True
  then obtain q where q: "own = Some q" "ready" by blast
  show ?thesis
  proof (rule release_cases [of step "call q" s ad])
    fix t assume t: "release step (call q) s = (None :: ('ke, 're) CleanupFailure option, t)" "served ad s t" "call q \<noteq> None"
    note m = moved_served [OF assms(1) t(2)]
    show ?thesis
      using t moved_update [OF m, of "clear r"]
      by (intro exI [of _ "[]"] exI [of _ True] exI [of _ "t\<lparr>sv_subjects := fmupd x (clear r) (sv_subjects t)\<rparr>"])
        (simp add: release_phase_def phase_result_def q update_record_Some [OF moved_lookup [OF m]])
  next
    fix f :: "('ke, 're) CleanupFailure" and t
    assume "release step (call q) s = (Some f, t)" "served ad s t" "refuses (call q)" "unresolved f \<longleftrightarrow> call q = None"
    then show ?thesis
      using moved_served [OF assms(1)] by (intro exI [of _ "[f]"] exI [of _ False] exI [of _ t]) (simp add: release_phase_def phase_result_def q)
  qed
next
  case False
  then show ?thesis
    using assms moved_refl [of s x r ad]
    by (intro exI [of _ "[]"] exI [of _ "own = None"] exI [of _ s]) (cases own; auto simp: release_phase_def phase_result_def)
qed

text \<open>
  The record after a teardown, by the flags of its phases: workload, control descriptor, mount and
  cgroup.
\<close>

definition torn_down :: "bool \<Rightarrow> bool \<Rightarrow> bool \<Rightarrow> bool \<Rightarrow> SubjectRecord \<Rightarrow> SubjectRecord \<Rightarrow> bool" where
  "torn_down w c m g r q \<longleftrightarrow>
     sr_connection q = sr_connection r \<and> sr_lifecycle q = sr_lifecycle r \<and>
     sr_authority_registered q = sr_authority_registered r \<and>
     sr_workload q = (if w then None else sr_workload r) \<and> sr_control q = (if c then None else sr_control r) \<and>
     sr_mount q = (if m then None else sr_mount r) \<and> sr_cgroup q = (if g then None else sr_cgroup r) \<and>
     sr_runtime_handles q |\<subseteq>| sr_runtime_handles r \<and> sr_handles q |\<subseteq>| sr_handles r \<and>
     (sr_handles r |\<subseteq>| sr_runtime_handles r \<longrightarrow> sr_handles q |\<subseteq>| sr_runtime_handles q) \<and>
     (w \<longrightarrow> sr_workload r = None \<or> owned (sr_workload r)) \<and>
     (c \<longrightarrow> sr_control r = None \<or> owned (sr_control r)) \<and>
     (m \<longrightarrow> sr_mount r = None \<or> owned (sr_mount r) \<and> w \<and> c \<and> sr_runtime_handles q = {||}) \<and>
     (g \<longrightarrow> sr_cgroup r = None \<or> owned (sr_cgroup r) \<and> w \<and> m)"

lemma torn_downD:
  assumes "torn_down w c m g r q"
  shows "sr_workload q = (if w then None else sr_workload r)" "sr_control q = (if c then None else sr_control r)"
    "sr_mount q = (if m then None else sr_mount r)" "sr_cgroup q = (if g then None else sr_cgroup r)"
    "w \<Longrightarrow> sr_workload r = None \<or> owned (sr_workload r)" "c \<Longrightarrow> sr_control r = None \<or> owned (sr_control r)"
    "m \<Longrightarrow> sr_mount r = None \<or> owned (sr_mount r) \<and> w \<and> c \<and> sr_runtime_handles q = {||}"
    "g \<Longrightarrow> sr_cgroup r = None \<or> owned (sr_cgroup r) \<and> w \<and> m"
    "sr_runtime_handles q |\<subseteq>| sr_runtime_handles r" "sr_handles q |\<subseteq>| sr_handles r"
    "sr_handles r |\<subseteq>| sr_runtime_handles r \<Longrightarrow> sr_handles q |\<subseteq>| sr_runtime_handles q"
  using assms unfolding torn_down_def by blast+

lemma torn_down_releases:
  assumes "torn_down w c m g r q"
  shows "releases r q"
proof -
  note f = torn_downD [OF assms]
  have "shrinks (sr_cgroup r) (sr_cgroup q)" using f(4,8) unfolding shrinks_def by metis
  moreover have "shrinks (sr_mount r) (sr_mount q)" using f(3,7) unfolding shrinks_def by metis
  moreover have "shrinks (sr_control r) (sr_control q)" using f(2,6) unfolding shrinks_def by metis
  moreover have "shrinks (sr_workload r) (sr_workload q)" using f(1,5) unfolding shrinks_def by metis
  ultimately show ?thesis using assms f(9,10) unfolding torn_down_def releases_def by blast
qed

lemma torn_down_nested:
  assumes t: "torn_down w c m g r q" and n: "nested r"
  shows "nested q"
proof -
  note f = torn_downD(1-4) [OF t] torn_downD(11) [OF t]
  have h: "sr_runtime_handles q \<noteq> {||} \<Longrightarrow> sr_runtime_handles r \<noteq> {||}" using torn_downD(9) [OF t] by auto
  have m: "m \<Longrightarrow> sr_mount r = None \<or> w \<and> c \<and> sr_runtime_handles q = {||}" and g: "g \<Longrightarrow> sr_cgroup r = None \<or> m"
    using torn_downD(7,8) [OF t] by blast+
  have "owned (sr_mount q)" if "sr_workload q \<noteq> None \<or> sr_control q \<noteq> None \<or> sr_runtime_handles q \<noteq> {||}"
  proof -
    have "owned (sr_mount r)" using that n h f(1,2) by (auto simp: nested_def stacked_def split: if_splits)
    moreover from this have "\<not> m" using m that f(1,2) by auto
    ultimately show ?thesis using f(3) by simp
  qed
  moreover have "owned (sr_cgroup q)" if "sr_mount q \<noteq> None"
  proof -
    have "\<not> m" "owned (sr_cgroup r)" using that n f(3) by (auto simp: nested_def stacked_def split: if_splits)
    then show ?thesis using g f(4) by (auto split: if_splits)
  qed
  ultimately show ?thesis using f(5) n unfolding nested_def stacked_def by blast
qed

end
