(* ===== verification/Supervisor_Teardown.thy ===== *)
theory Supervisor_Teardown
  imports Supervisor_Ledger
begin

text \<open>
  Teardown, rollback and setup of one subject: what they leave in its record, for every behaviour
  of the kernel and of the resource adapter.
\<close>

section \<open>Teardown\<close>

lemma sorted_runtime_handles [simp]: "fset_of_list (sorted_list_of_fset hs) = hs"
  by (rule fset_eqI) (simp add: fset_of_list_elem)

text \<open>A phase whose call only needs the token of its resource.\<close>

abbreviation by_token :: "('t \<Rightarrow> 'w \<Rightarrow> 're ResourceMutation \<times> 'w) \<Rightarrow> 't ResourceOwnership \<Rightarrow> ('w \<Rightarrow> 're ResourceMutation \<times> 'w) option" where
  "by_token f \<equiv> \<lambda>q. map_option f (ownership_token q)"

lemma phase_resultD:
  assumes "phase_result ready own call gs gone"
  shows "gone \<Longrightarrow> own \<noteq> None \<Longrightarrow> ready \<and> call (the own) \<noteq> None" "own = None \<Longrightarrow> gone" "gs = [] \<Longrightarrow> ready \<Longrightarrow> gone"
    "list_ex unresolved gs \<Longrightarrow> \<not> gone \<and> own \<noteq> None \<and> call (the own) = None"
  using assms unfolding phase_result_def by blast+

lemma phase_by_token:
  assumes "phase_result ready own (by_token f) gs gone"
  shows "gone \<Longrightarrow> own = None \<or> owned own \<and> ready" "own = None \<Longrightarrow> gone"
    "gs = [] \<Longrightarrow> ready \<Longrightarrow> gone" "list_ex unresolved gs \<Longrightarrow> \<not> gone \<and> own = Some EffectUnknown"
proof -
  have "owned own" if "own \<noteq> None" "by_token f (the own) \<noteq> None"
    using that by (cases own; cases "the own") simp_all
  then show "gone \<Longrightarrow> own = None \<or> owned own \<and> ready" using phase_resultD(1) [OF assms] by blast
  have "own = Some EffectUnknown" if "own \<noteq> None" "by_token f (the own) = None"
    using that by (cases own; cases "the own") simp_all
  then show "list_ex unresolved gs \<Longrightarrow> \<not> gone \<and> own = Some EffectUnknown" using phase_resultD(4) [OF assms] by simp
qed (use phase_resultD [OF assms] in simp_all)

lemma phase_stop:
  assumes "phase_result True own (\<lambda>q. stop_call R q cgroup) gs gone"
  shows "gone \<Longrightarrow> own = None \<or> owned own" "own = None \<Longrightarrow> gone" "gs = [] \<Longrightarrow> gone"
    "list_ex unresolved gs \<Longrightarrow> owned cgroup \<Longrightarrow> \<not> gone \<and> own = Some EffectUnknown"
proof -
  have "owned own" if "own \<noteq> None" "stop_call R (the own) cgroup \<noteq> None"
    using that by (cases own; cases "the own") (simp_all add: stop_call_None)
  then show "gone \<Longrightarrow> own = None \<or> owned own" using phase_resultD(1) [OF assms] by blast
  have "own = Some EffectUnknown" if "own \<noteq> None" "stop_call R (the own) cgroup = None" "owned cgroup"
    using that by (cases own; cases "the own") (simp_all add: stop_call_None)
  then show "list_ex unresolved gs \<Longrightarrow> owned cgroup \<Longrightarrow> \<not> gone \<and> own = Some EffectUnknown"
    using phase_resultD(4) [OF assms] by simp
qed (use phase_resultD [OF assms] in simp_all)

lemma phases_torn_down:
  assumes n: "nested r"
    and w: "phase_result True (sr_workload r) (\<lambda>q. stop_call R q (sr_cgroup r)) g1 w"
    and c: "phase_result True (sr_control r) (by_token (res_close_control_fd R)) g2 c"
    and h: "trims (r\<lparr>sr_workload := if w then None else sr_workload r, sr_control := if c then None else sr_control r\<rparr>) q"
      "\<not> list_ex unresolved g3" "g3 = [] \<Longrightarrow> sr_runtime_handles q = {||}"
    and m: "phase_result (w \<and> c \<and> sr_runtime_handles q = {||}) (sr_mount r) (by_token (res_unmount_capfs R)) g4 m"
    and g: "phase_result (w \<and> m) (sr_cgroup r) (by_token (res_remove_cgroup R)) g5 g"
    and p: "p = q\<lparr>sr_mount := if m then None else sr_mount r, sr_cgroup := if g then None else sr_cgroup r\<rparr>"
  shows "torn_down w c m g r p"
    and "g1 @ g2 @ g3 @ g4 @ g5 = [] \<Longrightarrow> w \<and> c \<and> m \<and> g \<and> sr_runtime_handles p = {||}"
    and "list_ex unresolved (g1 @ g2 @ g3 @ g4 @ g5) \<Longrightarrow> unknown_effect p"
proof -
  note f = trims_fields [OF h(1), simplified]
  show "torn_down w c m g r p"
    using f phase_stop(1) [OF w] phase_by_token(1) [OF c] phase_by_token(1) [OF m] phase_by_token(1) [OF g]
    unfolding torn_down_def p by simp
  show "w \<and> c \<and> m \<and> g \<and> sr_runtime_handles p = {||}" if "g1 @ g2 @ g3 @ g4 @ g5 = []"
    using that h(3) phase_stop(3) [OF w] phase_by_token(3) [OF c] phase_by_token(3) [OF m] phase_by_token(3) [OF g]
    by (simp add: p)
  have "owned (sr_cgroup r)" if "\<not> w"
    using that n phase_stop(2) [OF w] by (auto simp: nested_def stacked_def owned_iff)
  then have "list_ex unresolved g1 \<Longrightarrow> unknown_effect p"
    using phase_stop(4) [OF w] phase_resultD(4) [OF w] f by (simp add: p unknown_effect_def)
  moreover have "list_ex unresolved g2 \<Longrightarrow> unknown_effect p"
    using phase_by_token(4) [OF c] f by (simp add: p unknown_effect_def)
  moreover have "list_ex unresolved g4 \<Longrightarrow> unknown_effect p"
    using phase_by_token(4) [OF m] by (simp add: p unknown_effect_def)
  moreover have "list_ex unresolved g5 \<Longrightarrow> unknown_effect p"
    using phase_by_token(4) [OF g] by (simp add: p unknown_effect_def)
  ultimately show "unknown_effect p" if "list_ex unresolved (g1 @ g2 @ g3 @ g4 @ g5)"
    using that h(2) by (auto simp: list_ex_append)
qed

lemma release_resources_spec:
  fixes ad :: "('k, 'ke, 'w, 're, 'c, 'ce) Adapters" and s :: "('k, 'w, 'c) Supervisor"
  assumes r: "fmlookup (sv_subjects s) x = Some r" and n: "nested r"
  shows "\<exists>gs w c m g q t. release_resources ad x r [] s = (Ok (gs, ()) :: (('ke, 're, 'ce) SupervisorError, _) result, t) \<and>
    moved ad x q s t \<and> torn_down w c m g r q \<and>
    (gs = [] \<longrightarrow> w \<and> c \<and> m \<and> g \<and> sr_runtime_handles q = {||}) \<and> (list_ex unresolved gs \<longrightarrow> unknown_effect q)"
proof -
  let ?R = "ad_resources ad" and ?E = "Inr :: _ \<Rightarrow> (('ke, 're, 'ce) SupervisorError, _) result"
  obtain g1 w t1 where p1: "release_phase x True (sr_workload r) StepStopWorkload (\<lambda>q. stop_call ?R q (sr_cgroup r))
        (\<lambda>r. r\<lparr>sr_workload := None\<rparr>) [] s = (?E ([] @ g1, w), t1)"
      "moved ad x (if w then r\<lparr>sr_workload := None\<rparr> else r) s t1"
      "phase_result True (sr_workload r) (\<lambda>q. stop_call ?R q (sr_cgroup r)) g1 w"
    using release_phase_spec [OF r, of "sr_workload r" "\<lambda>r. r\<lparr>sr_workload := None\<rparr>"] by force
  define q1 where "q1 = (if w then r\<lparr>sr_workload := None\<rparr> else r)"
  have l1: "fmlookup (sv_subjects t1) x = Some q1" using moved_lookup [OF p1(2)] by (simp add: q1_def)
  obtain g2 c t2 where p2: "release_phase x True (sr_control r) StepCloseControlFd (by_token (res_close_control_fd ?R))
        (\<lambda>r. r\<lparr>sr_control := None\<rparr>) g1 t1 = (?E (g1 @ g2, c), t2)"
      "moved ad x (if c then q1\<lparr>sr_control := None\<rparr> else q1) t1 t2"
      "phase_result True (sr_control r) (by_token (res_close_control_fd ?R)) g2 c"
    using release_phase_spec [OF l1, of "sr_control r" "\<lambda>r. r\<lparr>sr_control := None\<rparr>"] by (force simp: q1_def)
  define q2 where "q2 = (if c then q1\<lparr>sr_control := None\<rparr> else q1)"
  have l2: "fmlookup (sv_subjects t2) x = Some q2" using moved_lookup [OF p2(2)] by (simp add: q2_def)
  obtain g3 t3 q where p3: "close_handles ad x (sorted_list_of_fset (sr_runtime_handles r)) (g1 @ g2) t2 =
        (?E ((g1 @ g2) @ g3, ()), t3)" "moved ad x q t2 t3" "trims q2 q" "\<not> list_ex unresolved g3"
      "g3 = [] \<longrightarrow> sr_runtime_handles q = sr_runtime_handles q2 |-| fset_of_list (sorted_list_of_fset (sr_runtime_handles r))"
    using close_handles_moved [OF l2] by blast
  note l3 = moved_lookup [OF p3(2)]
  note f = trims_fields [OF p3(3)]
  have e4: "sr_mount r = None \<Longrightarrow> q\<lparr>sr_mount := None\<rparr> = q" using f(5) by (simp add: q1_def q2_def)
  let ?ready = "w \<and> c \<and> sr_runtime_handles q = {||}"
  obtain g4 m t4 where p4: "release_phase x ?ready (sr_mount r) StepUnmount (by_token (res_unmount_capfs ?R))
        (\<lambda>r. r\<lparr>sr_mount := None\<rparr>) ((g1 @ g2) @ g3) t3 = (?E (((g1 @ g2) @ g3) @ g4, m), t4)"
      "moved ad x (if m then q\<lparr>sr_mount := None\<rparr> else q) t3 t4"
      "phase_result ?ready (sr_mount r) (by_token (res_unmount_capfs ?R)) g4 m"
    using release_phase_spec [where own = "sr_mount r" and clear = "\<lambda>r. r\<lparr>sr_mount := None\<rparr>", OF l3 e4] by blast
  define q4 where "q4 = (if m then q\<lparr>sr_mount := None\<rparr> else q)"
  have l4: "fmlookup (sv_subjects t4) x = Some q4" using moved_lookup [OF p4(2)] by (simp add: q4_def)
  have e5: "sr_cgroup r = None \<Longrightarrow> q4\<lparr>sr_cgroup := None\<rparr> = q4" using f(4) by (simp add: q1_def q2_def q4_def)
  obtain g5 g t5 where p5: "release_phase x (w \<and> m) (sr_cgroup r) StepRemoveCgroup (by_token (res_remove_cgroup ?R))
        (\<lambda>r. r\<lparr>sr_cgroup := None\<rparr>) (((g1 @ g2) @ g3) @ g4) t4 = (?E ((((g1 @ g2) @ g3) @ g4) @ g5, g), t5)"
      "moved ad x (if g then q4\<lparr>sr_cgroup := None\<rparr> else q4) t4 t5"
      "phase_result (w \<and> m) (sr_cgroup r) (by_token (res_remove_cgroup ?R)) g5 g"
    using release_phase_spec [where own = "sr_cgroup r" and clear = "\<lambda>r. r\<lparr>sr_cgroup := None\<rparr>", OF l4 e5] by blast
  define p where "p = (if g then q4\<lparr>sr_cgroup := None\<rparr> else q4)"
  have run: "release_resources ad x r [] s = (?E (g1 @ g2 @ g3 @ g4 @ g5, ()), t5)"
    using p1(1) p2(1) p3(1) p4(1) p5(1) l3 unfolding release_resources_def Let_def by simp
  have moved: "moved ad x p s t5"
    using p1(2) p2(2) p3(2) p4(2) p5(2) moved_trans unfolding p_def by blast
  have q2: "q2 = r\<lparr>sr_workload := if w then None else sr_workload r, sr_control := if c then None else sr_control r\<rparr>"
    by (simp add: q1_def q2_def)
  have p: "p = q\<lparr>sr_mount := if m then None else sr_mount r, sr_cgroup := if g then None else sr_cgroup r\<rparr>"
    using f(4,5) by (simp add: q1_def q2_def q4_def p_def)
  have h: "g3 = [] \<Longrightarrow> sr_runtime_handles q = {||}" using p3(5) by (simp add: q2)
  note done_phases = phases_torn_down [OF n p1(3) p2(3) p3(3) [unfolded q2] p3(4) h p4(3) p5(3) p]
  show ?thesis
    by (intro exI [of _ "g1 @ g2 @ g3 @ g4 @ g5"] exI [of _ w] exI [of _ c] exI [of _ m] exI [of _ g] exI [of _ p]
        exI [of _ t5] conjI impI run moved done_phases)
qed

section \<open>The life of a record\<close>

definition life_later :: "SubjectLifecycle \<Rightarrow> SubjectLifecycle \<Rightarrow> bool" where
  "life_later l m \<longleftrightarrow> m = l \<or> m = LifeClosing \<and> l \<noteq> LifeClosed \<or> m = LifeClosed"

text \<open>
  How a record may change in its life. Among the handle identities \<open>used\<close> before, none comes back;
  only a running subject gets a new connection or new handles.
\<close>

definition record_later :: "HandleId fset \<Rightarrow> SubjectRecord \<Rightarrow> SubjectRecord \<Rightarrow> bool" where
  "record_later used r q \<longleftrightarrow> life_later (sr_lifecycle r) (sr_lifecycle q) \<and>
     (sr_authority_registered q \<longrightarrow> sr_authority_registered r) \<and>
     shrinks (sr_cgroup r) (sr_cgroup q) \<and> shrinks (sr_mount r) (sr_mount q) \<and>
     shrinks (sr_control r) (sr_control q) \<and> shrinks (sr_workload r) (sr_workload q) \<and>
     sr_runtime_handles q |\<inter>| used |\<subseteq>| sr_runtime_handles r \<and> sr_handles q |\<inter>| used |\<subseteq>| sr_handles r \<and>
     (sr_lifecycle r \<noteq> LifeRunning \<longrightarrow> sr_connection q = sr_connection r \<and>
       sr_runtime_handles q |\<subseteq>| sr_runtime_handles r \<and> sr_handles q |\<subseteq>| sr_handles r)"

lemma record_later_refl [simp]: "record_later used r r"
  by (auto simp: record_later_def life_later_def)

lemma releases_later: "releases r q \<Longrightarrow> record_later used r q"
  by (auto simp: record_later_def releases_def life_later_def)

lemma closed_later:
  assumes "releases r q" "sr_lifecycle r \<noteq> LifeClosed"
  shows "record_later used r (q\<lparr>sr_lifecycle := LifeClosing\<rparr>)"
    "record_later used r (q\<lparr>sr_lifecycle := LifeClosed, sr_authority_registered := False\<rparr>)"
  using assms by (auto simp: record_later_def releases_def life_later_def)

lemma record_ok_closed:
  assumes "record_ok r" "record_ok q" "record_later used r q" "sr_lifecycle r = LifeClosed"
  shows "q = r"
proof -
  have "sr_lifecycle q = LifeClosed" using assms by (auto simp: record_later_def life_later_def)
  then show ?thesis
    using assms by (intro SubjectRecord.equality) (auto simp: record_ok_def holds_nothing_def nested_def record_later_def)
qed

section \<open>Shutting down\<close>

lemma nested_lifecycle [simp]: "nested (r\<lparr>sr_lifecycle := l\<rparr>) \<longleftrightarrow> nested r" "nested (r\<lparr>sr_authority_registered := b\<rparr>) \<longleftrightarrow> nested r"
  by (simp_all add: nested_def)

text \<open>How a shutdown ends, by its answer and the record it leaves.\<close>

definition shut ::
    "(('ke, 're, 'ce) SupervisorError, unit) result \<Rightarrow> SubjectRecord \<Rightarrow> bool" where
  "shut res q \<longleftrightarrow> (case res of
     Ok _ \<Rightarrow> sr_lifecycle q = LifeClosed \<and> \<not> sr_authority_registered q \<and> holds_nothing q
   | Err e \<Rightarrow> sr_lifecycle q = LifeClosing \<and> (\<exists>x fs. fs \<noteq> [] \<and>
       (e = SvCleanupFailed x fs \<and> \<not> list_ex unresolved fs \<or> e = SvCleanupBlocked x fs \<and> unknown_effect q)))"

lemma cleanup_error_shut:
  assumes "fs \<noteq> []" "list_ex unresolved fs \<Longrightarrow> unknown_effect q" "sr_lifecycle q = LifeClosing"
  shows "shut (Err (cleanup_error x fs)) q"
  using assms by (auto simp: shut_def cleanup_error_def unresolved_def [abs_def])

lemma finish_teardown_spec:
  assumes q: "moved ad x q s t" "sr_lifecycle q = LifeClosing"
    and fs: "fs = [] \<Longrightarrow> holds_nothing q" "list_ex unresolved fs \<Longrightarrow> unknown_effect q"
  shows "\<exists>res p u. finish_teardown ad x (sr_authority_registered q) fs t = (res, u) \<and> moved ad x p s u \<and> shut res p \<and>
    (p = q \<or> p = q\<lparr>sr_lifecycle := LifeClosed, sr_authority_registered := False\<rparr>)"
proof (cases "fs = []")
  case False
  then show ?thesis
    using q cleanup_error_shut [OF False fs(2) q(2)] by (auto simp: finish_teardown_def)
next
  case True
  let ?p = "q\<lparr>sr_lifecycle := LifeClosed, sr_authority_registered := False\<rparr>"
  have p: "shut (Ok ()) ?p" using fs(1) True by (simp add: shut_def holds_nothing_def)
  show ?thesis
  proof (cases "sr_authority_registered q")
    case True
    obtain v u where u: "on_kernel (ak_finish_subject_close (ad_kernel ad) x) t = (v, u)" by fastforce
    have m: "moved ad x q s u"
      using moved_trans [OF q(1) moved_kernel [OF moved_lookup [OF q(1)] u kernel_call_runs(6)]] .
    show ?thesis
    proof (cases v)
      case (Inl e)
      have "shut (Err (cleanup_error x [\<lparr>cf_step = StepFinishClose, cf_cause = KernelFailure e\<rparr>])) q"
        by (rule cleanup_error_shut) (simp_all add: unresolved_def q)
      then show ?thesis using True \<open>fs = []\<close> u Inl m by (auto simp: finish_teardown_def)
    next
      case (Inr z)
      show ?thesis
        using True \<open>fs = []\<close> u Inr p moved_update [OF m, of ?p]
        by (intro exI [of _ "Ok ()"] exI [of _ ?p]) (auto simp: finish_teardown_def update_record_Some [OF moved_lookup [OF m]])
    qed
  next
    case False
    then have e: "?p = q\<lparr>sr_lifecycle := LifeClosed\<rparr>" by (intro SubjectRecord.equality) simp_all
    have "finish_teardown ad x (sr_authority_registered q) fs t =
        (Ok (), t\<lparr>sv_subjects := fmupd x (q\<lparr>sr_lifecycle := LifeClosed\<rparr>) (sv_subjects t)\<rparr>)"
      using False \<open>fs = []\<close> by (simp add: finish_teardown_def update_record_Some [OF moved_lookup [OF q(1)]])
    then show ?thesis
      using p moved_update [OF q(1), of ?p] unfolding e by blast
  qed
qed

lemma shutdown_spec:
  fixes ad :: "('k, 'ke, 'w, 're, 'c, 'ce) Adapters" and s :: "('k, 'w, 'c) Supervisor"
  assumes r: "fmlookup (sv_subjects s) x = Some r" "nested r" "sr_lifecycle r \<noteq> LifeClosed"
  shows "\<exists>res q t. shutdown_subject ad x s = (res, t) \<and> moved ad x q s t \<and> nested q \<and> record_later used r q \<and>
    sr_runtime_handles q |\<subseteq>| sr_runtime_handles r \<and> shut res q"
proof -
  define r' where "r' = r\<lparr>sr_lifecycle := LifeClosing\<rparr>"
  define s' where "s' = s\<lparr>sv_subjects := fmupd x r' (sv_subjects s)\<rparr>"
  have n: "nested r'" and reg: "sr_authority_registered r' = sr_authority_registered r" and lc: "sr_lifecycle r' = LifeClosing"
    using r(2) by (simp_all add: r'_def)
  have m: "moved ad x r' s s'" unfolding s'_def by (rule moved_update [OF moved_refl [OF r(1)]])
  have later: "record_later used r p"
    if "releases r' q" "p = q \<or> p = q\<lparr>sr_lifecycle := LifeClosed, sr_authority_registered := False\<rparr>" for p q
    using that r(3) by (auto simp: record_later_def releases_def life_later_def r'_def)
  obtain v t where t: "on_kernel (ak_begin_subject_close (ad_kernel ad) x) s' = (v, t)" by fastforce
  have mt: "moved ad x r' s t"
    using moved_trans [OF m moved_kernel [OF moved_lookup [OF m] t kernel_call_runs(5)]] .
  show ?thesis
  proof (cases "sr_authority_registered r \<and> (\<exists>e. v = Err e)")
    case True
    then obtain e where e: "v = Err e" by blast
    let ?e = "SvCleanupFailed x [\<lparr>cf_step = StepBeginClose, cf_cause = KernelFailure e\<rparr>] :: ('ke, 're, 'ce) SupervisorError"
    have "shutdown_subject ad x s = (Err ?e, t)"
      using True e t r by (simp add: shutdown_subject_def s'_def r'_def)
    moreover have "shut (Err ?e) r'" by (simp add: shut_def lc unresolved_def)
    moreover have "record_later used r r'" using later [OF releases_refl] by blast
    moreover have "sr_runtime_handles r' |\<subseteq>| sr_runtime_handles r" by (simp add: r'_def)
    ultimately show ?thesis using mt n by blast
  next
    case False
    define u where "u = (if sr_authority_registered r then t else s')"
    have mu: "moved ad x r' s u" using m mt by (simp add: u_def)
    obtain gs w c m g q t' where q: "release_resources ad x r' [] u = (Ok (gs, ()) :: (('ke, 're, 'ce) SupervisorError, _) result, t')"
        "moved ad x q u t'" "torn_down w c m g r' q" "gs = [] \<longrightarrow> w \<and> c \<and> m \<and> g \<and> sr_runtime_handles q = {||}"
        "list_ex unresolved gs \<longrightarrow> unknown_effect q"
      using release_resources_spec [OF moved_lookup [OF mu] n] by blast
    have q': "sr_lifecycle q = LifeClosing" "sr_authority_registered q = sr_authority_registered r"
        "gs = [] \<Longrightarrow> holds_nothing q"
      using q(3,4) lc reg by (auto simp: torn_down_def holds_nothing_def)
    have q5: "list_ex unresolved gs \<Longrightarrow> unknown_effect q" using q(5) by blast
    obtain res p v' where p: "finish_teardown ad x (sr_authority_registered q) gs t' = (res, v')" "moved ad x p s v'"
        "shut res p" "p = q \<or> p = q\<lparr>sr_lifecycle := LifeClosed, sr_authority_registered := False\<rparr>"
      using finish_teardown_spec [OF moved_trans [OF mu q(2)] q'(1,3) q5] by blast
    have "shutdown_subject ad x s = then_do (release_resources ad x r' [] u)
        (\<lambda>(failures, _) s. finish_teardown ad x (sr_authority_registered r) failures s)"
    proof (cases "sr_authority_registered r")
      case True
      then obtain z where "v = Ok z" using False by (cases v) auto
      then show ?thesis
        using True t r(1,3) moved_lookup [OF mu] by (simp add: shutdown_subject_def u_def s'_def [symmetric] r'_def [symmetric])
    next
      case False
      then show ?thesis
        using r(1,3) moved_lookup [OF mu] by (simp add: shutdown_subject_def u_def s'_def [symmetric] r'_def [symmetric])
    qed
    then have "shutdown_subject ad x s = (res, v')" using q(1) p(1) q'(2) by simp
    moreover have "nested p" using torn_down_nested [OF q(3) n] p(4) by auto
    moreover have "sr_runtime_handles p |\<subseteq>| sr_runtime_handles r" using torn_downD(9) [OF q(3)] p(4) by (auto simp: r'_def)
    ultimately show ?thesis using p(2,3) later [OF torn_down_releases [OF q(3)] p(4)] by blast
  qed
qed

end
