(* ===== verification/Supervisor_Rollback.thy ===== *)
theory Supervisor_Rollback
  imports Supervisor_Teardown
begin

text \<open>
  Setup and rollback of a subject: whatever the adapters answer, a setup that fails leaves nothing
  behind, or a record of what could not be released.
\<close>

section \<open>Rolling back\<close>

definition add_failures :: "('ke, 're) CleanupFailure list \<Rightarrow> ('ke, 're) SetupRollback \<Rightarrow> ('ke, 're) SetupRollback" where
  "add_failures gs b = b\<lparr>rb_failures := rb_failures b @ gs\<rparr>"

lemma add_failures_fields [simp]:
  "rb_failures (add_failures gs b) = rb_failures b @ gs" "rb_authority_registered (add_failures gs b) = rb_authority_registered b"
  "rb_cgroup (add_failures gs b) = rb_cgroup b" "rb_mount (add_failures gs b) = rb_mount b"
  "rb_control (add_failures gs b) = rb_control b" "rb_workload (add_failures gs b) = rb_workload b"
  by (simp_all add: add_failures_def)

lemma rollback_phase_spec:
  fixes ad :: "('k, 'ke, 'w, 're, 'c, 'ce) Adapters" and s :: "('k, 'w, 'c) Supervisor"
    and b :: "('ke, 're) SetupRollback"
  assumes "own = None \<Longrightarrow> clear b = b"
  shows "\<exists>gs gone t. rollback_phase ready own step call clear b s =
      (gone, add_failures gs (if gone then clear b else b), t) \<and> served ad s t \<and> phase_result ready own call gs gone"
proof (cases "\<exists>q. own = Some q \<and> ready")
  case True
  then obtain q where q: "own = Some q" "ready" by blast
  show ?thesis
  proof (rule release_cases [of step "call q" s ad])
    fix t assume "release step (call q) s = (None :: ('ke, 're) CleanupFailure option, t)" "served ad s t" "call q \<noteq> None"
    then show ?thesis
      by (intro exI [of _ "[]"] exI [of _ True] exI [of _ t]) (simp add: rollback_phase_def phase_result_def add_failures_def q)
  next
    fix f :: "('ke, 're) CleanupFailure" and t
    assume "release step (call q) s = (Some f, t)" "served ad s t" "refuses (call q)" "unresolved f \<longleftrightarrow> call q = None"
    then show ?thesis
      by (intro exI [of _ "[f]"] exI [of _ False] exI [of _ t]) (simp add: rollback_phase_def phase_result_def add_failures_def q)
  qed
next
  case False
  then show ?thesis
    using assms
    by (intro exI [of _ "[]"] exI [of _ "own = None"] exI [of _ s]) (cases own; auto simp: rollback_phase_def phase_result_def add_failures_def)
qed

text \<open>The record of a setup at rest, to read a rollback as a teardown.\<close>

definition resting :: "('ke, 're) SetupRollback \<Rightarrow> SubjectRecord" where
  "resting b = setup_record \<lparr>ci_socket_id = 0, ci_peer_pid = 0, ci_peer_uid = 0, ci_peer_gid = 0\<rparr> LifeClosing b"

lemma resting_fields [simp]:
  "sr_workload (resting b) = rb_workload b" "sr_control (resting b) = rb_control b" "sr_mount (resting b) = rb_mount b"
  "sr_cgroup (resting b) = rb_cgroup b" "sr_runtime_handles (resting b) = {||}" "sr_handles (resting b) = {||}"
  "sr_authority_registered (resting b) = rb_authority_registered b" "sr_lifecycle (resting b) = LifeClosing"
  by (simp_all add: resting_def setup_record_def)

lemma nested_setup_record: "nested (setup_record c l b) \<longleftrightarrow> nested (resting b)"
  by (simp add: nested_def resting_def setup_record_def)

lemma holds_nothing_setup_record: "holds_nothing (setup_record c l b) \<longleftrightarrow> holds_nothing (resting b)"
  by (simp add: holds_nothing_def resting_def setup_record_def)

lemma rollback_release_spec:
  fixes ad :: "('k, 'ke, 'w, 're, 'c, 'ce) Adapters" and s :: "('k, 'w, 'c) Supervisor"
    and b :: "('ke, 're) SetupRollback"
  assumes n: "nested (resting b)"
  shows "\<exists>gs p t. rollback_release (ad_resources ad) b s = (p, t) \<and> served ad s t \<and>
    rb_failures p = rb_failures b @ gs \<and> rb_authority_registered p = rb_authority_registered b \<and>
    nested (resting p) \<and> releases (resting b) (resting p) \<and> (gs = [] \<longrightarrow> holds_nothing (resting p))"
proof -
  let ?R = "ad_resources ad"
  obtain g1 w t1 where p1: "rollback_phase True (rb_workload b) StepStopWorkload (\<lambda>q. stop_call ?R q (rb_cgroup b))
      (\<lambda>b. b\<lparr>rb_workload := None\<rparr>) b s = (w, add_failures g1 (if w then b\<lparr>rb_workload := None\<rparr> else b), t1)" "served ad s t1"
      "phase_result True (rb_workload b) (\<lambda>q. stop_call ?R q (rb_cgroup b)) g1 w"
    using rollback_phase_spec [where own = "rb_workload b" and clear = "\<lambda>b. b\<lparr>rb_workload := None\<rparr>" and b = b and ad = ad] by (simp, blast)
  define b1 where "b1 = add_failures g1 (if w then b\<lparr>rb_workload := None\<rparr> else b)"
  have e1: "rb_control b1 = rb_control b" "rb_mount b1 = rb_mount b" "rb_cgroup b1 = rb_cgroup b"
    by (simp_all add: b1_def)
  obtain g2 c t2 where p2: "rollback_phase True (rb_control b1) StepCloseControlFd (by_token (res_close_control_fd ?R))
      (\<lambda>b. b\<lparr>rb_control := None\<rparr>) b1 t1 = (c, add_failures g2 (if c then b1\<lparr>rb_control := None\<rparr> else b1), t2)" "served ad t1 t2"
      "phase_result True (rb_control b1) (by_token (res_close_control_fd ?R)) g2 c"
    using rollback_phase_spec [where own = "rb_control b1" and clear = "\<lambda>b. b\<lparr>rb_control := None\<rparr>" and b = b1 and ad = ad] by (simp, blast)
  define b2 where "b2 = add_failures g2 (if c then b1\<lparr>rb_control := None\<rparr> else b1)"
  have e2: "rb_mount b2 = rb_mount b" "rb_cgroup b2 = rb_cgroup b" by (simp_all add: b2_def e1)
  obtain g4 m t4 where p4: "rollback_phase (w \<and> c) (rb_mount b2) StepUnmount (by_token (res_unmount_capfs ?R))
      (\<lambda>b. b\<lparr>rb_mount := None\<rparr>) b2 t2 = (m, add_failures g4 (if m then b2\<lparr>rb_mount := None\<rparr> else b2), t4)" "served ad t2 t4"
      "phase_result (w \<and> c) (rb_mount b2) (by_token (res_unmount_capfs ?R)) g4 m"
    using rollback_phase_spec [where own = "rb_mount b2" and clear = "\<lambda>b. b\<lparr>rb_mount := None\<rparr>" and b = b2 and ad = ad] by (simp, blast)
  define b4 where "b4 = add_failures g4 (if m then b2\<lparr>rb_mount := None\<rparr> else b2)"
  have e4: "rb_cgroup b4 = rb_cgroup b" by (simp add: b4_def e2)
  obtain g5 g t5 where p5: "rollback_phase (w \<and> m) (rb_cgroup b4) StepRemoveCgroup (by_token (res_remove_cgroup ?R))
      (\<lambda>b. b\<lparr>rb_cgroup := None\<rparr>) b4 t4 = (g, add_failures g5 (if g then b4\<lparr>rb_cgroup := None\<rparr> else b4), t5)" "served ad t4 t5"
      "phase_result (w \<and> m) (rb_cgroup b4) (by_token (res_remove_cgroup ?R)) g5 g"
    using rollback_phase_spec [where own = "rb_cgroup b4" and clear = "\<lambda>b. b\<lparr>rb_cgroup := None\<rparr>" and b = b4 and ad = ad] by (simp, blast)
  define p where "p = add_failures g5 (if g then b4\<lparr>rb_cgroup := None\<rparr> else b4)"
  have run: "rollback_release ?R b s = (p, t5)"
    using p1(1) p2(1) p4(1) p5(1) unfolding rollback_release_def b1_def [symmetric] b2_def [symmetric] b4_def [symmetric] p_def
    by (simp add: b1_def [symmetric] b2_def [symmetric] b4_def [symmetric] e1 e2 e4)
  have served: "served ad s t5" using p1(2) p2(2) p4(2) p5(2) served_trans by blast
  have fields: "rb_failures p = rb_failures b @ g1 @ g2 @ [] @ g4 @ g5" "rb_authority_registered p = rb_authority_registered b"
    by (simp_all add: p_def b4_def b2_def b1_def)
  define q where "q = (resting b)\<lparr>sr_workload := if w then None else sr_workload (resting b),
      sr_control := if c then None else sr_control (resting b)\<rparr>"
  have p: "resting p = q\<lparr>sr_mount := if m then None else sr_mount (resting b), sr_cgroup := if g then None else sr_cgroup (resting b)\<rparr>"
    unfolding q_def resting_def setup_record_def by (simp add: p_def b4_def b2_def b1_def)
  have trims: "trims ((resting b)\<lparr>sr_workload := if w then None else sr_workload (resting b),
      sr_control := if c then None else sr_control (resting b)\<rparr>) q"
    unfolding q_def by (rule trims_refl)
  have h: "sr_runtime_handles q = {||}" by (simp add: q_def)
  have ph: "phase_result True (sr_workload (resting b)) (\<lambda>q. stop_call ?R q (sr_cgroup (resting b))) g1 w"
      "phase_result True (sr_control (resting b)) (by_token (res_close_control_fd ?R)) g2 c"
      "phase_result (w \<and> c \<and> sr_runtime_handles q = {||}) (sr_mount (resting b)) (by_token (res_unmount_capfs ?R)) g4 m"
      "phase_result (w \<and> m) (sr_cgroup (resting b)) (by_token (res_remove_cgroup ?R)) g5 g"
    using p1(3) p2(3) p4(3) p5(3) by (simp_all add: e1 e2 e4 h)
  have "\<not> list_ex unresolved ([] :: ('ke, 're) CleanupFailure list)" by simp
  note down = phases_torn_down [OF n ph(1,2) trims this h ph(3,4) p]
  show ?thesis
  proof (intro exI conjI impI)
    show "rollback_release ?R b s = (p, t5)" by (rule run)
    show "rb_failures p = rb_failures b @ g1 @ g2 @ [] @ g4 @ g5" by (rule fields)
    show "holds_nothing (resting p)" if "g1 @ g2 @ [] @ g4 @ g5 = []"
      using down(2) [OF that] torn_downD(1-4) [OF down(1)] by (simp add: holds_nothing_def)
  qed (fact served fields(2) torn_down_nested [OF down(1) n] torn_down_releases [OF down(1)])+
qed


lemma rollback_setup_spec:
  fixes ad :: "('k, 'ke, 'w, 're, 'c, 'ce) Adapters" and s :: "('k, 'w, 'c) Supervisor"
    and b :: "('ke, 're) SetupRollback"
  assumes b: "nested (resting b)" "rb_failures b = []"
  shows "\<exists>p t. rollback_setup ad x b s = (p, t) \<and> served ad s t \<and> nested (resting p) \<and>
    (rb_authority_registered p \<longrightarrow> rb_authority_registered b) \<and>
    (rb_failures p = [] \<longrightarrow> holds_nothing (resting p) \<and> \<not> rb_authority_registered p)"
proof (cases "rb_authority_registered b")
  case False
  then show ?thesis
    using rollback_release_spec [OF b(1), of ad s] b(2) by (fastforce simp: rollback_setup_def)
next
  case True
  obtain v t where t: "on_kernel (ak_begin_subject_close (ad_kernel ad) x) s = (v, t)" by fastforce
  have st: "served ad s t" using served_kernel [OF t kernel_call_runs(5)] .
  obtain gs p u where p: "rollback_release (ad_resources ad) b t = (p, u)" "served ad t u" "rb_failures p = gs"
      "rb_authority_registered p" "nested (resting p)" "gs = [] \<Longrightarrow> holds_nothing (resting p)"
    using rollback_release_spec [OF b(1), of ad t] b(2) True by auto
  obtain v' u' where u': "on_kernel (ak_finish_subject_close (ad_kernel ad) x) u = (v', u')" by fastforce
  have su: "served ad s u" "served ad s u'"
    using served_trans [OF st p(2)] served_trans [OF _ served_kernel [OF u' kernel_call_runs(6)]] by blast+
  have n: "nested (resting (p\<lparr>rb_failures := fs\<rparr>))" "nested (resting (p\<lparr>rb_authority_registered := False\<rparr>))"
      "nested (resting (b\<lparr>rb_failures := fs\<rparr>))" for fs
    using p(5) b(1) by (simp_all add: nested_def)
  show ?thesis
    using True t u' p st su n
    by (cases v; cases v'; cases "gs = []") (auto simp: rollback_setup_def holds_nothing_def b(2))
qed

section \<open>Setting up\<close>

text \<open>What a setup has collected so far, and what a finished one owns.\<close>

definition collected :: "('ke, 're) SetupRollback \<Rightarrow> bool" where
  "collected b \<longleftrightarrow> nested (resting b) \<and> rb_failures b = []"

definition setup_complete :: "('ke, 're) SetupRollback \<Rightarrow> bool" where
  "setup_complete b \<longleftrightarrow> rb_authority_registered b \<and> owned (rb_cgroup b) \<and> owned (rb_mount b) \<and> owned (rb_control b) \<and>
     owned (rb_workload b)"

lemma collected_iff:
  "collected b \<longleftrightarrow> rb_failures b = [] \<and> (rb_workload b \<noteq> None \<or> rb_control b \<noteq> None \<longrightarrow> owned (rb_mount b)) \<and>
     (rb_mount b \<noteq> None \<longrightarrow> owned (rb_cgroup b))"
  by (auto simp: collected_def nested_def stacked_def)

lemma acquire_spec:
  obtains res own t where "acquire step call store (b, s) = (res, (store own b, t))" "served ad s t"
    "res = Ok () \<Longrightarrow> owned own"
proof -
  obtain out t where t: "on_resources call s = (out, t)" by fastforce
  show ?thesis
    using that [of "map_err (Pair step) (fst (record_acquisition out None))" "snd (record_acquisition out None)" t] t
      served_resources [OF t, of ad]
    by (cases out) (simp_all add: acquire_def record_acquisition_def map_err_def)
qed

lemma ask_kernel_spec:
  assumes "\<And>k. kernel_runs (ad_kernel ad) k (snd (call k))"
  obtains res t where "ask_kernel step call (b, s) = (res, (b, t))" "served ad s t"
proof -
  obtain v t where t: "on_kernel call s = (v, t)" by fastforce
  show ?thesis using that [of _ t] t served_kernel [OF t assms] by (simp add: ask_kernel_def)
qed

lemma ask_kernel_Ok:
  assumes "ask_kernel step call (b, s) = (Ok v, (p, t))"
  shows "call (sv_kernel s) = (Ok v, sv_kernel t)"
  using assms by (auto simp: ask_kernel_def on_kernel_def map_err_Ok split: prod.splits)

text \<open>The kernel accepted the registration of a subject on the way.\<close>

definition enrolled :: "('k, 'e) AuthorityKernel \<Rightarrow> Subject \<Rightarrow> 'k \<Rightarrow> 'k \<Rightarrow> bool" where
  "enrolled K subject k n \<longleftrightarrow> (\<exists>l u m. kernel_runs K k l \<and> ak_register_subject K subject l = (Ok u, m) \<and> kernel_runs K m n)"

lemma served_runs: "served ad s t \<Longrightarrow> kernel_runs (ad_kernel ad) (sv_kernel s) (sv_kernel t)"
  by (auto simp: served_def)

lemma enrolled_later: "enrolled K subject k m \<Longrightarrow> kernel_runs K m n \<Longrightarrow> enrolled K subject k n"
  unfolding enrolled_def by (elim exE conjE, intro exI conjI) (assumption, assumption, rule kernel_runs_trans)

lemma start_subject_spec:
  fixes ad :: "('k, 'ke, 'w, 're, 'c, 'ce) Adapters" and s :: "('k, 'w, 'c) Supervisor"
    and b :: "('ke, 're) SetupRollback"
  assumes b: "rb_failures b = []" "rb_authority_registered b" "owned (rb_cgroup b)" "owned (rb_mount b)" "owned (rb_control b)"
    "rb_workload b = None"
  shows "\<exists>res p t. start_subject ad x (b, s) = (res, (p, t)) \<and> served ad s t \<and> collected p \<and> (res = Ok () \<longrightarrow> setup_complete p)"
proof -
  let ?snapshot = "ask_kernel SetupStartWorkload (ak_startup_snapshot (ad_kernel ad) x) ::
    ('k, 'ke, 'w, 're, 'c, AuthorityStartupSnapshot option) setup_action"
  have cb: "collected b" using b by (simp add: collected_iff)
  obtain cg mt ct where own: "rb_cgroup b = Some (Owned cg)" "rb_mount b = Some (Owned mt)" "rb_control b = Some (Owned ct)"
    using b by (auto simp: owned_iff)
  obtain v t where t: "?snapshot (b, s) = (v, (b, t))" "served ad s t"
    by (rule ask_kernel_spec [OF kernel_call_runs(10)])
  obtain res own' u where u: "acquire SetupStartWorkload (res_start_workload (ad_resources ad) x cg mt ct)
      (\<lambda>own b. b\<lparr>rb_workload := own\<rparr>) (b, t) = (res, (b\<lparr>rb_workload := own'\<rparr>, u))" "served ad t u" "res = Ok () \<Longrightarrow> owned own'"
    using acquire_spec [where step = SetupStartWorkload and call = "res_start_workload (ad_resources ad) x cg mt ct" and store = "\<lambda>own b. b\<lparr>rb_workload := own\<rparr>" and b = b and s = t and ad = ad] by blast
  define p where "p = b\<lparr>rb_workload := own'\<rparr>"
  have p: "collected p" "owned own' \<Longrightarrow> setup_complete p" using b by (simp_all add: p_def collected_iff setup_complete_def)
  obtain v' u' where u': "?snapshot (p, u) = (v', (p, u'))" "served ad u u'"
    by (rule ask_kernel_spec [OF kernel_call_runs(10)])
  have su: "served ad s u" "served ad s u'" using t(2) u(2) u'(2) served_trans by blast+
  show ?thesis
  proof (cases v)
    case (Inl e)
    then show ?thesis using t cb by (auto simp: start_subject_def)
  next
    case (Inr snap)
    show ?thesis
    proof (cases "case snap of None \<Rightarrow> False | Some q \<Rightarrow> ass_status q \<noteq> Running")
      case True
      then show ?thesis using t cb Inr by (auto simp: start_subject_def)
    next
      case False
      have "start_subject ad x (b, s) = then_do (res, (p, u)) (\<lambda>_ bs. case snap of
          None \<Rightarrow> (Ok (), bs)
        | Some expected \<Rightarrow> then_do (?snapshot bs) (\<lambda>observed bs.
            if observed \<noteq> Some expected then
              (Err (SetupStartWorkload, InvariantFailure ''authority subject changed during workload start''), bs)
            else (Ok (), bs)))"
        using False t(1) Inr own u(1) by (simp add: start_subject_def resolved_def p_def)
      then show ?thesis
        using u'(1) su p u(3) by (cases res; cases snap; cases v') auto
    qed
  qed
qed

lemma run_setup_spec:
  fixes ad :: "('k, 'ke, 'w, 're, 'c, 'ce) Adapters" and s :: "('k, 'w, 'c) Supervisor"
    and b :: "('ke, 're) SetupRollback"
  assumes b: "rb_failures b = []" "rb_cgroup b = None" "rb_mount b = None" "rb_control b = None" "rb_workload b = None"
    and reg: "\<not> rb_authority_registered b"
  shows "\<exists>res p t. run_setup ad subject (b, s) = (res, (p, t)) \<and> served ad s t \<and> collected p \<and> (res = Ok () \<longrightarrow> setup_complete p) \<and>
    (rb_authority_registered p \<longrightarrow> enrolled (ad_kernel ad) subject (sv_kernel s) (sv_kernel t))"
proof -
  let ?R = "ad_resources ad" and ?x = "sb_id subject"
  obtain r1 cg t1 where p1: "acquire SetupCreateCgroup (res_create_cgroup ?R ?x) (\<lambda>own b. b\<lparr>rb_cgroup := own\<rparr>) (b, s) =
      (r1, (b\<lparr>rb_cgroup := cg\<rparr>, t1))" "served ad s t1" "r1 = Ok () \<Longrightarrow> owned cg"
    using acquire_spec [where step = SetupCreateCgroup and call = "res_create_cgroup ?R ?x" and
        store = "\<lambda>own b. b\<lparr>rb_cgroup := own\<rparr>" and b = b and s = s and ad = ad] by blast
  define b1 where "b1 = b\<lparr>rb_cgroup := cg\<rparr>"
  obtain r2 mt t2 where p2: "acquire SetupMount (res_mount_capfs ?R ?x) (\<lambda>own b. b\<lparr>rb_mount := own\<rparr>) (b1, t1) =
      (r2, (b1\<lparr>rb_mount := mt\<rparr>, t2))" "served ad t1 t2" "r2 = Ok () \<Longrightarrow> owned mt"
    using acquire_spec [where step = SetupMount and call = "res_mount_capfs ?R ?x" and
        store = "\<lambda>own b. b\<lparr>rb_mount := own\<rparr>" and b = b1 and s = t1 and ad = ad] by blast
  define b2 where "b2 = b1\<lparr>rb_mount := mt\<rparr>"
  obtain r3 ct t3 where p3: "acquire SetupOpenControlFd (res_open_control_fd ?R ?x) (\<lambda>own b. b\<lparr>rb_control := own\<rparr>) (b2, t2) =
      (r3, (b2\<lparr>rb_control := ct\<rparr>, t3))" "served ad t2 t3" "r3 = Ok () \<Longrightarrow> owned ct"
    using acquire_spec [where step = SetupOpenControlFd and call = "res_open_control_fd ?R ?x" and
        store = "\<lambda>own b. b\<lparr>rb_control := own\<rparr>" and b = b2 and s = t2 and ad = ad] by blast
  define b3 where "b3 = b2\<lparr>rb_control := ct\<rparr>"
  obtain v t4 where p4: "ask_kernel SetupRegisterSubject (ak_register_subject (ad_kernel ad) subject) (b3, t3) = (v, (b3, t4))"
      "served ad t3 t4"
    by (rule ask_kernel_spec [OF kernel_call_runs(1)])
  define b4 where "b4 = b3\<lparr>rb_authority_registered := True\<rparr>"
  have st: "served ad s t2" "served ad s t3" "served ad s t4" using p1(2) p2(2) p3(2) p4(2) served_trans by blast+
  have coll: "collected b1" "owned cg \<Longrightarrow> collected b2" "owned cg \<Longrightarrow> owned mt \<Longrightarrow> collected b3"
    using b by (simp_all add: collected_iff b1_def b2_def b3_def)
  have b4: "rb_failures b4 = []" "rb_authority_registered b4" "rb_cgroup b4 = cg" "rb_mount b4 = mt" "rb_control b4 = ct"
      "rb_workload b4 = None"
    using b by (simp_all add: b1_def b2_def b3_def b4_def)
  have run: "run_setup ad subject (b, s) = then_do (r1, (b1, t1)) (\<lambda>_ _. then_do (r2, (b2, t2)) (\<lambda>_ _.
      then_do (r3, (b3, t3)) (\<lambda>_ _. then_do (v, (b3, t4)) (\<lambda>_ _. start_subject ad ?x (b4, t4)))))"
    using p1(1) p2(1) p3(1) p4(1)
    by (cases r1; cases r2; cases r3; cases v) (simp_all add: run_setup_def b1_def b2_def b3_def b4_def)
  show ?thesis
  proof (cases "r1 = Ok () \<and> r2 = Ok () \<and> r3 = Ok () \<and> v = Ok ()")
    case True
    then obtain res p t where t: "start_subject ad ?x (b4, t4) = (res, (p, t))" "served ad t4 t" "collected p"
        "res = Ok () \<longrightarrow> setup_complete p"
      using start_subject_spec [OF b4(1,2), of ad ?x t4] b4 p1(3) p2(3) p3(3) by blast
    have "ak_register_subject (ad_kernel ad) subject (sv_kernel t3) = (Ok (), sv_kernel t4)"
      using p4(1) True by (intro ask_kernel_Ok [of SetupRegisterSubject _ b3 _ _ b3]) simp
    then have "enrolled (ad_kernel ad) subject (sv_kernel s) (sv_kernel t)"
      unfolding enrolled_def using served_runs [OF st(2)] served_runs [OF t(2)] by blast
    then show ?thesis using True run t served_trans [OF st(3) t(2)] by auto
  next
    case False
    have "\<not> rb_authority_registered b1" "\<not> rb_authority_registered b2" "\<not> rb_authority_registered b3"
      using reg by (simp_all add: b1_def b2_def b3_def)
    then show ?thesis
      using False run st p1(2,3) p2(3) p3(3) coll by (cases r1; cases r2; cases r3; cases v) auto
  qed
qed

section \<open>Creating\<close>

text \<open>The ledger after an admitted creation: the identity is issued, and a record may be entered.\<close>

definition entered ::
    "('k, 'ke, 'w, 're, 'c, 'ce) Adapters \<Rightarrow> SubjectId \<Rightarrow> SubjectRecord option \<Rightarrow>
     ('k, 'w, 'c) Supervisor \<Rightarrow> ('k, 'w, 'c) Supervisor \<Rightarrow> bool" where
  "entered ad x rec s t \<longleftrightarrow> (\<exists>u. served ad (s\<lparr>sv_issued_subjects := finsert x (sv_issued_subjects s)\<rparr>) u \<and>
     t = (case rec of None \<Rightarrow> u | Some r \<Rightarrow> u\<lparr>sv_subjects := fmupd x r (sv_subjects u)\<rparr>))"

text \<open>The record of a creation, by its answer: a running subject, or what a failed rollback left.\<close>

definition created ::
    "SubjectId \<Rightarrow> ConnectionIdentity \<Rightarrow> (('ke, 're, 'ce) SupervisorError, unit) result \<Rightarrow> SubjectRecord option \<Rightarrow> bool" where
  "created x c res rec \<longleftrightarrow>
     (case rec of None \<Rightarrow> True | Some r \<Rightarrow> record_ok r \<and> sr_connection r = c \<and> sr_runtime_handles r = {||}) \<and>
     (case res of
        Ok _ \<Rightarrow> map_option sr_lifecycle rec = Some LifeRunning
      | Err e \<Rightarrow> map_option sr_lifecycle rec \<noteq> Some LifeRunning \<and>
          (\<exists>step f fs. e = SvSetupFailed x step f fs \<and> (rec = None \<longleftrightarrow> fs = [])))"

lemma create_subject_spec:
  fixes ad :: "('k, 'ke, 'w, 're, 'c, 'ce) Adapters" and s :: "('k, 'w, 'c) Supervisor"
  assumes "admit_subject ad subject connection s = (Ok () :: (('ke, 're, 'ce) SupervisorError, unit) result)"
  shows "\<exists>res rec t. create_subject ad subject connection s = (res, t) \<and> entered ad (sb_id subject) rec s t \<and>
    created (sb_id subject) connection res rec \<and>
    (\<forall>r. rec = Some r \<and> sr_authority_registered r \<longrightarrow> enrolled (ad_kernel ad) subject (sv_kernel s) (sv_kernel t))"
proof -
  let ?x = "sb_id subject"
  define s1 where "s1 = s\<lparr>sv_issued_subjects := finsert ?x (sv_issued_subjects s)\<rparr>"
  define b :: "('ke, 're) SetupRollback" where "b = \<lparr>rb_failures = [], rb_authority_registered = False, rb_cgroup = None,
    rb_mount = None, rb_control = None, rb_workload = None\<rparr>"
  obtain r p t where t: "run_setup ad subject (b, s1) = (r, (p, t))" "served ad s1 t" "collected p" "r = Ok () \<longrightarrow> setup_complete p"
      "rb_authority_registered p \<Longrightarrow> enrolled (ad_kernel ad) subject (sv_kernel s) (sv_kernel t)"
    using run_setup_spec [of b ad subject s1] unfolding b_def s1_def by auto
  show ?thesis
  proof (cases r)
    case (Inr z)
    define q where "q = setup_record connection LifeRunning (p\<lparr>rb_authority_registered := True\<rparr>)"
    have "create_subject ad subject connection s = (Ok (), t\<lparr>sv_subjects := fmupd ?x q (sv_subjects t)\<rparr>)"
      using assms t(1) Inr by (simp add: create_subject_def q_def s1_def b_def)
    moreover have "nested (resting p)" "setup_complete p" using t(3,4) Inr by (simp_all add: collected_def)
    then have "created ?x connection (Ok () :: (('ke, 're, 'ce) SupervisorError, unit) result) (Some q)"
      by (simp add: created_def record_ok_def q_def nested_def setup_record_def setup_complete_def)
    moreover have "entered ad ?x (Some q) s (t\<lparr>sv_subjects := fmupd ?x q (sv_subjects t)\<rparr>)"
      using t(2) unfolding entered_def s1_def by auto
    moreover have "enrolled (ad_kernel ad) subject (sv_kernel s) (sv_kernel t)"
      using t(5) \<open>setup_complete p\<close> by (simp add: setup_complete_def)
    then have "\<forall>r. Some q = Some r \<and> sr_authority_registered r \<longrightarrow>
        enrolled (ad_kernel ad) subject (sv_kernel s) (sv_kernel (t\<lparr>sv_subjects := fmupd ?x q (sv_subjects t)\<rparr>))" by simp
    ultimately show ?thesis by blast
  next
    case (Inl e)
    obtain step f where e: "e = (step, f)" by fastforce
    obtain p' u where u: "rollback_setup ad ?x p t = (p', u)" "served ad t u" "nested (resting p')"
        "rb_authority_registered p' \<longrightarrow> rb_authority_registered p"
        "rb_failures p' = [] \<longrightarrow> holds_nothing (resting p') \<and> \<not> rb_authority_registered p'"
      using rollback_setup_spec [of p ad ?x t] t(3) by (auto simp: collected_def)
    define q where "q = setup_record connection (if rb_authority_registered p' then LifeClosing else LifeCreating) p'"
    define rec where "rec = (if rb_failures p' = [] then None else Some q)"
    have left: "rb_failures p' = [] \<Longrightarrow> \<not> rb_authority_registered p' \<and> rb_cgroup p' = None \<and> rb_mount p' = None \<and>
        rb_control p' = None \<and> rb_workload p' = None"
      using u(5) by (simp add: holds_nothing_def)
    let ?t = "case rec of None \<Rightarrow> u | Some r \<Rightarrow> u\<lparr>sv_subjects := fmupd ?x r (sv_subjects u)\<rparr>"
    have "create_subject ad subject connection s = (Err (SvSetupFailed ?x step f (rb_failures p')), ?t)"
      using assms t(1) Inl e u(1) left unfolding create_subject_def Let_def
      by (cases "rb_failures p' = []") (simp_all add: rec_def q_def s1_def b_def)
    moreover have "created ?x connection (Err (SvSetupFailed ?x step f (rb_failures p')) :: (('ke, 're, 'ce) SupervisorError, unit) result) rec"
      using u(3) by (simp add: created_def rec_def record_ok_def q_def nested_def setup_record_def)
    moreover have "entered ad ?x rec s ?t"
      using served_trans [OF t(2) u(2)] unfolding entered_def s1_def by blast
    moreover have "enrolled (ad_kernel ad) subject (sv_kernel s) (sv_kernel ?t)" if "rec = Some r" "sr_authority_registered r" for r
    proof -
      have "rb_authority_registered p'" using that by (auto simp: rec_def q_def setup_record_def split: if_splits)
      then show ?thesis using u(4) enrolled_later [OF t(5) served_runs [OF u(2)]] that(1) by simp
    qed
    ultimately show ?thesis by blast
  qed
qed

end
