(* ===== verification/Supervisor_Machine.thy ===== *)
theory Supervisor_Machine
  imports Supervisor_Rollback
begin

text \<open>
  The supervisor as a state machine: the invariant of its ledger, the order in which it moves
  forward, and that every operation keeps the one and follows the other, whatever the adapters do.
\<close>

section \<open>Invariant and history\<close>

definition sv_inv :: "('k, 'w, 'c) Supervisor \<Rightarrow> bool" where
  "sv_inv s \<longleftrightarrow> fmdom (sv_subjects s) |\<subseteq>| sv_issued_subjects s \<and>
     fcard (sv_issued_subjects s) \<le> sl_max_subjects (sv_limits s) \<and>
     fm_len (sv_issued_handles s) \<le> sl_max_issued_handles (sv_limits s) \<and>
     (\<forall>x r. fmlookup (sv_subjects s) x = Some r \<longrightarrow>
        record_ok r \<and> (\<forall>h. h |\<in>| sr_runtime_handles r \<longrightarrow> fmlookup (sv_issued_handles s) h = Some x))"

definition sv_later :: "('k, 'w, 'c) Supervisor \<Rightarrow> ('k, 'w, 'c) Supervisor \<Rightarrow> bool" where
  "sv_later s t \<longleftrightarrow> sv_limits t = sv_limits s \<and> sv_issued_subjects s |\<subseteq>| sv_issued_subjects t \<and>
     extends (sv_issued_handles s) (sv_issued_handles t) \<and>
     (\<forall>x r. fmlookup (sv_subjects s) x = Some r \<longrightarrow>
        (\<exists>q. fmlookup (sv_subjects t) x = Some q \<and> record_later (fmdom (sv_issued_handles s)) r q)) \<and>
     (\<forall>x. x |\<in>| sv_issued_subjects s \<and> x |\<notin>| fmdom (sv_subjects s) \<longrightarrow> x |\<notin>| fmdom (sv_subjects t))"

lemma sv_invD:
  assumes "sv_inv s"
  shows "fmdom (sv_subjects s) |\<subseteq>| sv_issued_subjects s" "fcard (sv_issued_subjects s) \<le> sl_max_subjects (sv_limits s)"
    "fm_len (sv_issued_handles s) \<le> sl_max_issued_handles (sv_limits s)"
    "fmlookup (sv_subjects s) x = Some r \<Longrightarrow> record_ok r"
    "fmlookup (sv_subjects s) x = Some r \<Longrightarrow> h |\<in>| sr_runtime_handles r \<Longrightarrow> fmlookup (sv_issued_handles s) h = Some x"
  using assms unfolding sv_inv_def by blast+

lemma life_later_trans: "life_later l m \<Longrightarrow> life_later m n \<Longrightarrow> life_later l n"
  by (auto simp: life_later_def)

lemma life_later_running: "life_later l LifeRunning \<Longrightarrow> l = LifeRunning"
  by (auto simp: life_later_def)

lemma record_laterD:
  assumes "record_later used r q"
  shows "life_later (sr_lifecycle r) (sr_lifecycle q)" "sr_authority_registered q \<Longrightarrow> sr_authority_registered r"
    "shrinks (sr_cgroup r) (sr_cgroup q)" "shrinks (sr_mount r) (sr_mount q)"
    "shrinks (sr_control r) (sr_control q)" "shrinks (sr_workload r) (sr_workload q)"
    "sr_runtime_handles q |\<inter>| used |\<subseteq>| sr_runtime_handles r" "sr_handles q |\<inter>| used |\<subseteq>| sr_handles r"
    "sr_lifecycle r \<noteq> LifeRunning \<Longrightarrow> sr_connection q = sr_connection r"
    "sr_lifecycle r \<noteq> LifeRunning \<Longrightarrow> sr_runtime_handles q |\<subseteq>| sr_runtime_handles r"
    "sr_lifecycle r \<noteq> LifeRunning \<Longrightarrow> sr_handles q |\<subseteq>| sr_handles r"
  using assms by (simp_all add: record_later_def)

lemma record_later_trans:
  assumes "record_later used r q" "record_later used' q p" and u: "used |\<subseteq>| used'"
  shows "record_later used r p"
proof -
  note a = record_laterD [OF assms(1)] and b = record_laterD [OF assms(2)]
  have idle: "sr_lifecycle q \<noteq> LifeRunning" if "sr_lifecycle r \<noteq> LifeRunning"
    using a(1) that life_later_running by metis
  show ?thesis
    unfolding record_later_def
  proof (intro conjI impI)
    show "life_later (sr_lifecycle r) (sr_lifecycle p)" using life_later_trans [OF a(1) b(1)] .
    show "sr_runtime_handles p |\<inter>| used |\<subseteq>| sr_runtime_handles r" using a(7) b(7) u by auto
    show "sr_handles p |\<inter>| used |\<subseteq>| sr_handles r" using a(8) b(8) u by auto
    show "sr_connection p = sr_connection r" if "sr_lifecycle r \<noteq> LifeRunning"
      using a(9) [OF that] b(9) [OF idle [OF that]] by simp
    show "sr_runtime_handles p |\<subseteq>| sr_runtime_handles r" if "sr_lifecycle r \<noteq> LifeRunning"
      using a(10) [OF that] b(10) [OF idle [OF that]] by simp
    show "sr_handles p |\<subseteq>| sr_handles r" if "sr_lifecycle r \<noteq> LifeRunning"
      using a(11) [OF that] b(11) [OF idle [OF that]] by simp
  qed (rule a(2), rule b(2), assumption, rule shrinks_trans [OF a(3) b(3)] shrinks_trans [OF a(4) b(4)]
      shrinks_trans [OF a(5) b(5)] shrinks_trans [OF a(6) b(6)], (rule shrinks_trans [OF a(4) b(4)]
      shrinks_trans [OF a(5) b(5)] shrinks_trans [OF a(6) b(6)])+)
qed

lemma extends_fmdom: "extends m n \<Longrightarrow> fmdom m |\<subseteq>| fmdom n"
  by (rule fsubsetI) (metis extends_def fmdomI fmlookup_dom_iff)

lemma sv_later_refl: "sv_later s s"
  by (simp add: sv_later_def)

lemma sv_later_trans:
  assumes a: "sv_later s t" and b: "sv_later t u"
  shows "sv_later s u"
proof -
  have dom: "fmdom (sv_issued_handles s) |\<subseteq>| fmdom (sv_issued_handles t)"
    using a extends_fmdom unfolding sv_later_def by blast
  have "\<exists>p. fmlookup (sv_subjects u) x = Some p \<and> record_later (fmdom (sv_issued_handles s)) r p"
    if r: "fmlookup (sv_subjects s) x = Some r" for x r
  proof -
    obtain q where q: "fmlookup (sv_subjects t) x = Some q" "record_later (fmdom (sv_issued_handles s)) r q"
      using a r unfolding sv_later_def by blast
    obtain p where "fmlookup (sv_subjects u) x = Some p" "record_later (fmdom (sv_issued_handles t)) q p"
      using b q(1) unfolding sv_later_def by blast
    then show ?thesis using record_later_trans [OF q(2) _ dom] by blast
  qed
  moreover have "extends (sv_issued_handles s) (sv_issued_handles u)"
    using a b extends_trans unfolding sv_later_def by blast
  moreover have "x |\<notin>| fmdom (sv_subjects u)" if "x |\<in>| sv_issued_subjects s \<and> x |\<notin>| fmdom (sv_subjects s)" for x
    using a b that unfolding sv_later_def by blast
  ultimately show ?thesis using a b unfolding sv_later_def by auto
qed

section \<open>Advancing\<close>

definition advances ::
    "('k, 'ke, 'w, 're, 'c, 'ce) Adapters \<Rightarrow> ('k, 'w, 'c) Supervisor \<Rightarrow> ('k, 'w, 'c) Supervisor \<Rightarrow> bool" where
  "advances ad s t \<longleftrightarrow> sv_inv t \<and> sv_later s t \<and> kernel_runs (ad_kernel ad) (sv_kernel s) (sv_kernel t)"

lemma advances_refl: "sv_inv s \<Longrightarrow> advances ad s s"
  by (simp add: advances_def sv_later_refl runs_none)

lemma advances_served: "sv_inv s \<Longrightarrow> served ad s t \<Longrightarrow> advances ad s t"
  by (auto simp: advances_def served_def sv_inv_def sv_later_def)

lemma advances_host: "sv_inv s \<Longrightarrow> advances ad s (s\<lparr>sv_resources := w, sv_callers := c\<rparr>)"
  by (auto simp: advances_def sv_inv_def sv_later_def runs_none)

lemma advances_moved:
  assumes s: "sv_inv s" and r: "fmlookup (sv_subjects s) x = Some r" and m: "moved ad x q s t"
    and q: "record_ok q" "record_later (fmdom (sv_issued_handles s)) r q" "sr_runtime_handles q |\<subseteq>| sr_runtime_handles r"
  shows "advances ad s t"
proof -
  obtain k w where k: "kernel_runs (ad_kernel ad) (sv_kernel s) k"
      and t: "t = s\<lparr>sv_kernel := k, sv_resources := w, sv_subjects := fmupd x q (sv_subjects s)\<rparr>"
    using m by (auto simp: moved_def)
  have "x |\<in>| fmdom (sv_subjects s)" using r by (rule fmdomI)
  then have "sv_inv t" using s r q unfolding sv_inv_def t by auto
  moreover have "sv_later s t" using r q \<open>x |\<in>| fmdom (sv_subjects s)\<close> unfolding sv_later_def t by auto
  ultimately show ?thesis using k by (simp add: advances_def t)
qed

lemma fcard_finsert_new: "x |\<notin>| A \<Longrightarrow> fcard (finsert x A) = Suc (fcard A)"
  by (simp add: fcard_finsert_disjoint)

lemma advances_opened:
  assumes s: "sv_inv s" and r: "fmlookup (sv_subjects s) x = Some r"
    and h: "h |\<notin>| fmdom (sv_issued_handles s)" "fm_len (sv_issued_handles s) < sl_max_issued_handles (sv_limits s)"
    and m: "moved ad x q (s\<lparr>sv_issued_handles := fmupd h x (sv_issued_handles s)\<rparr>) t"
    and q: "record_ok q" "record_later (fmdom (sv_issued_handles s)) r q" "sr_runtime_handles q |\<subseteq>| finsert h (sr_runtime_handles r)"
  shows "advances ad s t"
proof -
  have k: "kernel_runs (ad_kernel ad) (sv_kernel s) (sv_kernel t)"
      and t: "sv_subjects t = fmupd x q (sv_subjects s)" "sv_issued_handles t = fmupd h x (sv_issued_handles s)"
        "sv_limits t = sv_limits s" "sv_issued_subjects t = sv_issued_subjects s"
    using m by (auto simp: moved_def)
  have x: "x |\<in>| fmdom (sv_subjects s)" using r by (rule fmdomI)
  have fresh: "fmlookup (sv_issued_handles s) h = None" using h(1) by (simp add: fmdom_notD)
  have "record_ok p \<and> (\<forall>i. i |\<in>| sr_runtime_handles p \<longrightarrow> fmlookup (fmupd h x (sv_issued_handles s)) i = Some y)"
    if p: "fmlookup (fmupd x q (sv_subjects s)) y = Some p" for y p
  proof (cases "y = x")
    case True
    then show ?thesis using p q(1,3) sv_invD(5) [OF s r] by auto
  next
    case False
    then have "fmlookup (sv_subjects s) y = Some p" using p by simp
    then show ?thesis using sv_invD(4,5) [OF s] fresh by fastforce
  qed
  then have "sv_inv t"
    using sv_invD(1-3) [OF s] x h unfolding sv_inv_def t by (auto simp: fcard_finsert_new)
  moreover have "extends (sv_issued_handles s) (fmupd h x (sv_issued_handles s))"
    using fresh by (auto simp: extends_def)
  then have "sv_later s t" using r q x unfolding sv_later_def t by auto
  ultimately show ?thesis using k by (simp add: advances_def)
qed

lemma advances_entered:
  assumes s: "sv_inv s" and x: "x |\<notin>| sv_issued_subjects s" "fcard (sv_issued_subjects s) < sl_max_subjects (sv_limits s)"
    and e: "entered ad x rec s t" and q: "\<And>r. rec = Some r \<Longrightarrow> record_ok r \<and> sr_runtime_handles r = {||}"
  shows "advances ad s t"
proof -
  have k: "kernel_runs (ad_kernel ad) (sv_kernel s) (sv_kernel t)"
      and t: "sv_subjects t = (case rec of None \<Rightarrow> sv_subjects s | Some r \<Rightarrow> fmupd x r (sv_subjects s))"
        "sv_issued_handles t = sv_issued_handles s" "sv_limits t = sv_limits s"
        "sv_issued_subjects t = finsert x (sv_issued_subjects s)"
    using e by (cases rec; auto simp: entered_def served_def)+
  have nx: "x |\<notin>| fmdom (sv_subjects s)" "fmlookup (sv_subjects s) x = None"
    using x(1) sv_invD(1) [OF s] by (auto intro: fmdom_notD)
  have "sv_inv t"
    using sv_invD [OF s] x q unfolding sv_inv_def t
    by (cases rec) (auto simp: fcard_finsert_new split: if_splits)
  moreover have "sv_later s t"
    using nx x unfolding sv_later_def t by (cases rec) auto
  ultimately show ?thesis using k by (simp add: advances_def)
qed

section \<open>Guest operations\<close>

lemma supervised_running_Ok:
  "ensure_running x s = Ok () \<longleftrightarrow> (\<exists>r. fmlookup (sv_subjects s) x = Some r \<and> sr_lifecycle r = LifeRunning)"
  by (cases "fmlookup (sv_subjects s) x"; cases "sr_lifecycle (the (fmlookup (sv_subjects s) x))")
    (simp_all add: ensure_running_def lifecycle_def)

lemma running_caller_Ok:
  "running_caller ad identity s = Ok x \<longleftrightarrow> ad_resolve ad (sv_callers s) identity = Ok x \<and>
     (\<exists>r. fmlookup (sv_subjects s) x = Some r \<and> sr_connection r = identity \<and> sr_lifecycle r = LifeRunning)"
proof (cases "ad_resolve ad (sv_callers s) identity")
  case (Inr y)
  then show ?thesis
    by (cases "fmlookup (sv_subjects s) y"; cases "sr_lifecycle (the (fmlookup (sv_subjects s) y))")
      (auto simp: running_caller_def resolve_caller_def ensure_running_def lifecycle_def)
qed (simp add: running_caller_def resolve_caller_def)

lemma record_ok_running:
  assumes "record_ok r" "sr_lifecycle r = LifeRunning"
  shows "owned (sr_cgroup r)" "owned (sr_mount r)" "owned (sr_control r)" "owned (sr_workload r)"
    "sr_authority_registered r" "sr_handles r |\<subseteq>| sr_runtime_handles r"
  using assms by (simp_all add: record_ok_def nested_def)

lemma bind_advances:
  assumes s: "sv_inv s"
  shows "advances ad s (snd (bind_accepted_connection ad identity s))"
proof (cases "\<exists>x r. ad_resolve ad (sv_callers s) identity = Ok x \<and> fmlookup (sv_subjects s) x = Some r \<and> sr_lifecycle r = LifeRunning")
  case True
  then obtain x r where x: "ad_resolve ad (sv_callers s) identity = Ok x" and r: "fmlookup (sv_subjects s) x = Some r"
      "sr_lifecycle r = LifeRunning" by blast
  let ?q = "r\<lparr>sr_connection := identity\<rparr>" and ?t = "s\<lparr>sv_subjects := fmupd x (r\<lparr>sr_connection := identity\<rparr>) (sv_subjects s)\<rparr>"
  have "snd (bind_accepted_connection ad identity s) = ?t"
    using x r by (simp add: bind_accepted_connection_def update_record_Some ensure_running_def lifecycle_def)
  moreover have "record_ok ?q" using sv_invD(4) [OF s r(1)] r(2) by (simp add: record_ok_def nested_def holds_nothing_def)
  moreover have "record_later (fmdom (sv_issued_handles s)) r ?q" using r(2) by (auto simp: record_later_def life_later_def)
  ultimately show ?thesis
    using advances_moved [OF s r(1) moved_update [OF moved_refl [OF r(1)]], of ?q] by simp
next
  case False
  then have "snd (bind_accepted_connection ad identity s) = s"
  proof (cases "ad_resolve ad (sv_callers s) identity")
    case (Inr y)
    then show ?thesis
      using False by (cases "fmlookup (sv_subjects s) y"; cases "sr_lifecycle (the (fmlookup (sv_subjects s) y))")
        (auto simp: bind_accepted_connection_def ensure_running_def lifecycle_def)
  qed (simp add: bind_accepted_connection_def)
  then show ?thesis using advances_refl [OF s] by simp
qed

lemma rollback_runtime_handle_spec:
  fixes ad :: "('k, 'ke, 'w, 're, 'c, 'ce) Adapters" and s :: "('k, 'w, 'c) Supervisor"
  assumes r: "fmlookup (sv_subjects s) x = Some r"
  shows "\<exists>fs q t. rollback_runtime_handle ad x h s = (Ok fs, t) \<and> moved ad x q s t \<and>
    (q = r\<lparr>sr_runtime_handles := sr_runtime_handles r |-| {|h|}\<rparr> \<or> q = r\<lparr>sr_lifecycle := LifeClosing\<rparr>)"
proof -
  obtain out t where t: "on_resources (res_close_handle (ad_resources ad) x h) s = (out, t)" by fastforce
  have m: "moved ad x r s t" using moved_resources [OF r t] .
  show ?thesis
    using t moved_update [OF m, of "r\<lparr>sr_runtime_handles := sr_runtime_handles r |-| {|h|}\<rparr>"]
      moved_update [OF m, of "r\<lparr>sr_lifecycle := LifeClosing\<rparr>"]
    by (cases out) (auto simp: rollback_runtime_handle_def update_record_Some [OF moved_lookup [OF m]])
qed

lemma abandon_handle_spec:
  fixes ad :: "('k, 'ke, 'w, 're, 'c, 'ce) Adapters" and s :: "('k, 'w, 'c) Supervisor"
  assumes "fmlookup (sv_subjects s) x = Some r"
  obtains q where "moved ad x q s (snd (abandon_handle ad x h step f s :: _ \<times> _))"
    "q = r\<lparr>sr_runtime_handles := sr_runtime_handles r |-| {|h|}\<rparr> \<or> q = r\<lparr>sr_lifecycle := LifeClosing\<rparr>"
  using rollback_runtime_handle_spec [OF assms, of ad h] that by (auto simp: abandon_handle_def)

text \<open>The record after an opened, refused or abandoned handle.\<close>

definition handle_opened :: "HandleId \<Rightarrow> SubjectRecord \<Rightarrow> SubjectRecord \<Rightarrow> bool" where
  "handle_opened h r q \<longleftrightarrow> sr_connection q = sr_connection r \<and> sr_authority_registered q = sr_authority_registered r \<and>
     sr_cgroup q = sr_cgroup r \<and> sr_mount q = sr_mount r \<and> sr_control q = sr_control r \<and> sr_workload q = sr_workload r \<and>
     (sr_lifecycle q = LifeRunning \<or> sr_lifecycle q = LifeClosing) \<and>
     sr_runtime_handles q |\<subseteq>| finsert h (sr_runtime_handles r) \<and> sr_handles q |\<subseteq>| finsert h (sr_handles r) \<and>
     sr_handles q |\<subseteq>| sr_runtime_handles q"

lemma handle_opened_ok:
  assumes "record_ok r" "sr_lifecycle r = LifeRunning" "handle_opened h r q"
  shows "record_ok q" "h |\<notin>| used \<Longrightarrow> record_later used r q"
proof -
  note own = record_ok_running [OF assms(1,2)]
  show "record_ok q" using own assms(3) by (auto simp: record_ok_def nested_def stacked_def handle_opened_def)
  assume "h |\<notin>| used"
  then have "sr_runtime_handles q |\<inter>| used |\<subseteq>| sr_runtime_handles r" "sr_handles q |\<inter>| used |\<subseteq>| sr_handles r"
    using assms(3) by (auto simp: handle_opened_def)
  then show "record_later used r q" using assms(2,3) by (auto simp: record_later_def handle_opened_def life_later_def)
qed

lemma open_handle_moved:
  fixes ad :: "('k, 'ke, 'w, 're, 'c, 'ce) Adapters" and s :: "('k, 'w, 'c) Supervisor"
  assumes x: "running_caller ad identity s = Ok x" and r: "fmlookup (sv_subjects s) x = Some r" "sr_lifecycle r = LifeRunning"
      "sr_handles r |\<subseteq>| sr_runtime_handles r" "h |\<notin>| sr_runtime_handles r"
    and h: "h |\<notin>| fmdom (sv_issued_handles s)" "fm_len (sv_issued_handles s) < sl_max_issued_handles (sv_limits s)"
  shows "\<exists>q. moved ad x q (s\<lparr>sv_issued_handles := fmupd h x (sv_issued_handles s)\<rparr>)
    (snd (supervisor_open_handle ad identity h obj s)) \<and> handle_opened h r q"
proof -
  define s1 where "s1 = s\<lparr>sv_issued_handles := fmupd h x (sv_issued_handles s)\<rparr>"
  have r1: "fmlookup (sv_subjects s1) x = Some r" using r(1) by (simp add: s1_def)
  obtain out t where t: "on_resources (res_open_handle (ad_resources ad) x h) s1 = (out, t)" by fastforce
  have mt: "moved ad x r s1 t" using moved_resources [OF r1 t] .
  define q1 where "q1 = r\<lparr>sr_runtime_handles := finsert h (sr_runtime_handles r)\<rparr>"
  define t1 where "t1 = t\<lparr>sv_subjects := fmupd x q1 (sv_subjects t)\<rparr>"
  have mt1: "moved ad x q1 s1 t1" unfolding t1_def by (rule moved_update [OF mt])
  have track: "track_runtime_handle x h t = (Ok () :: (('ke, 're, 'ce) SupervisorError, unit) result, t1)"
    by (simp add: track_runtime_handle_def update_record_Some [OF moved_lookup [OF mt]] t1_def q1_def)
  obtain v u where u: "on_kernel (ak_register_open_handle (ad_kernel ad) \<lparr>oh_id = h, oh_subject = x, oh_object = obj\<rparr>) t1 = (v, u)"
    by fastforce
  have mu: "moved ad x q1 s1 u"
    using moved_trans [OF mt1 moved_kernel [OF moved_lookup [OF mt1] u kernel_call_runs(7)]] .
  have ab: "\<exists>q. moved ad x q s1 (snd (abandon_handle ad x h step f w :: (('ke, 're, 'ce) SupervisorError, unit) result \<times> _)) \<and> handle_opened h r q"
    if w: "moved ad x q1 s1 w" for step f w
  proof -
    obtain q where q: "moved ad x q w (snd (abandon_handle ad x h step f w :: (('ke, 're, 'ce) SupervisorError, unit) result \<times> _))"
        "q = q1\<lparr>sr_runtime_handles := sr_runtime_handles q1 |-| {|h|}\<rparr> \<or> q = q1\<lparr>sr_lifecycle := LifeClosing\<rparr>"
      using abandon_handle_spec [OF moved_lookup [OF w]] by blast
    have "handle_opened h r q"
      using q(2) r by (auto simp: q1_def handle_opened_def)
    then show ?thesis using moved_trans [OF w q(1)] by blast
  qed
  have start: "supervisor_open_handle ad identity h obj s = (case (out, t) of
      (Applied, s) \<Rightarrow> then_do (track_runtime_handle x h s) (\<lambda>_ s.
        case on_kernel (ak_register_open_handle (ad_kernel ad) \<lparr>oh_id = h, oh_subject = x, oh_object = obj\<rparr>) s of
          (Err e, s) \<Rightarrow> abandon_handle ad x h SetupRegisterHandle (KernelFailure e) s
        | (Ok _, s) \<Rightarrow> update_record x (\<lambda>r. r\<lparr>sr_handles := finsert h (sr_handles r)\<rparr>) s)
    | (MutationNoEffect e, s) \<Rightarrow> (Err (SvResource (FailureNoEffect e)), s)
    | (MutationCleanupRequired e, s) \<Rightarrow> then_do (track_runtime_handle x h s) (\<lambda>_ s.
        abandon_handle ad x h SetupOpenHandle (ResourceCause (FailureCleanupRequired e)) s)
    | (MutationEffectUnknown e, s) \<Rightarrow> then_do (track_runtime_handle x h s) (\<lambda>_ s.
        abandon_handle ad x h SetupOpenHandle (ResourceCause (FailureEffectUnknown e)) s))"
    using x h t unfolding supervisor_open_handle_def s1_def by simp
  show ?thesis
  proof (cases out)
    case Applied
    show ?thesis
    proof (cases v)
      case (Inl e)
      then show ?thesis using start Applied track u ab [OF mu] by (simp add: s1_def)
    next
      case (Inr z)
      let ?q = "q1\<lparr>sr_handles := finsert h (sr_handles r)\<rparr>"
      have "snd (supervisor_open_handle ad identity h obj s) = u\<lparr>sv_subjects := fmupd x ?q (sv_subjects u)\<rparr>"
        using start Applied track u Inr by (simp add: update_record_Some [OF moved_lookup [OF mu]] q1_def)
      moreover have "handle_opened h r ?q"
        using r by (auto simp: q1_def handle_opened_def)
      ultimately show ?thesis using moved_update [OF mu, of ?q] by (auto simp: s1_def)
    qed
  next
    case (MutationNoEffect e)
    have "handle_opened h r r"
      using r by (auto simp: handle_opened_def)
    then show ?thesis using start MutationNoEffect mt by (auto simp: s1_def)
  next
    case (MutationCleanupRequired e)
    then show ?thesis using start track ab [OF mt1] by (simp add: s1_def)
  next
    case (MutationEffectUnknown e)
    then show ?thesis using start track ab [OF mt1] by (simp add: s1_def)
  qed
qed

lemma open_handle_advances:
  assumes s: "sv_inv s"
  shows "advances ad s (snd (supervisor_open_handle ad identity h obj s))"
proof (cases "\<exists>x. running_caller ad identity s = Ok x \<and> h |\<notin>| fmdom (sv_issued_handles s) \<and>
    fm_len (sv_issued_handles s) < sl_max_issued_handles (sv_limits s)")
  case True
  then obtain x where x: "running_caller ad identity s = Ok x" and h: "h |\<notin>| fmdom (sv_issued_handles s)"
      "fm_len (sv_issued_handles s) < sl_max_issued_handles (sv_limits s)" by blast
  obtain r where r: "fmlookup (sv_subjects s) x = Some r" "sr_lifecycle r = LifeRunning"
    using x by (auto simp: running_caller_Ok)
  note ok = sv_invD(4) [OF s r(1)]
  have "h |\<notin>| sr_runtime_handles r" using sv_invD(5) [OF s r(1)] h(1) by (auto intro: fmdomI)
  then obtain q where q: "moved ad x q (s\<lparr>sv_issued_handles := fmupd h x (sv_issued_handles s)\<rparr>)
      (snd (supervisor_open_handle ad identity h obj s))" "handle_opened h r q"
    using open_handle_moved [OF x r record_ok_running(6) [OF ok r(2)] _ h] by blast
  show ?thesis
    using advances_opened [OF s r(1) h q(1)] handle_opened_ok [OF ok r(2) q(2)] h(1) q(2) by (auto simp: handle_opened_def)
next
  case False
  then have "snd (supervisor_open_handle ad identity h obj s) = s"
    by (cases "running_caller ad identity s") (auto simp: supervisor_open_handle_def)
  then show ?thesis using advances_refl [OF s] by simp
qed

lemma close_handle_moved:
  fixes ad :: "('k, 'ke, 'w, 're, 'c, 'ce) Adapters" and s :: "('k, 'w, 'c) Supervisor"
  assumes x: "running_caller ad identity s = Ok x" and r: "fmlookup (sv_subjects s) x = Some r"
  shows "moved ad x r s (snd (supervisor_close_handle ad identity h s)) \<or>
    moved ad x (forget_handle h r) s (snd (supervisor_close_handle ad identity h s))"
proof -
  obtain v t where t: "on_kernel (ak_open_handle (ad_kernel ad) h) s = (v, t)" by fastforce
  have mt: "moved ad x r s t" using moved_kernel [OF r t kernel_call_runs(9)] .
  obtain out u where u: "on_resources (res_close_handle (ad_resources ad) x h) t = (out, u)" by fastforce
  have mu: "moved ad x r s u" using moved_trans [OF mt moved_resources [OF moved_lookup [OF mt] u]] .
  obtain v' w where w: "on_kernel (ak_close_handle (ad_kernel ad) x h) u = (v', w)" by fastforce
  have mw: "moved ad x r s w" using moved_trans [OF mu moved_kernel [OF moved_lookup [OF mu] w kernel_call_runs(8)]] .
  note mf = moved_update [OF mw, of "forget_handle h r"]
  show ?thesis
  proof (cases "\<exists>oh. v = Ok (Some oh) \<and> oh_subject oh = x")
    case True
    then obtain oh where "v = Ok (Some oh)" "oh_subject oh = x" by blast
    then show ?thesis
      using x t u w mu mw mf
      by (cases out; cases v'; cases "projr v'")
        (simp_all add: supervisor_close_handle_def update_record_Some [OF moved_lookup [OF mw]])
  next
    case False
    then have "snd (supervisor_close_handle ad identity h s) = t"
      using x t by (cases v; cases "projr v") (auto simp: supervisor_close_handle_def)
    then show ?thesis using mt by simp
  qed
qed

lemma close_handle_advances:
  assumes s: "sv_inv s"
  shows "advances ad s (snd (supervisor_close_handle ad identity h s))"
proof (cases "running_caller ad identity s")
  case (Inl e)
  then show ?thesis using advances_refl [OF s] by (simp add: supervisor_close_handle_def)
next
  case (Inr x)
  then obtain r where r: "fmlookup (sv_subjects s) x = Some r" "sr_lifecycle r = LifeRunning"
    by (auto simp: running_caller_Ok)
  note ok = sv_invD(4) [OF s r(1)]
  have f: "record_ok (forget_handle h r)"
    using ok r(2) trims_nested [OF trims_forget, of r h] by (simp add: record_ok_def forget_handle_def)
  have "record_later (fmdom (sv_issued_handles s)) r (forget_handle h r)"
    using releases_later [OF trims_releases [OF trims_forget]] .
  then show ?thesis
    using close_handle_moved [OF Inr r(1), of h] advances_moved [OF s r(1) _ ok] advances_moved [OF s r(1) _ f]
    by (auto simp: forget_handle_def)
qed

lemma advances_call:
  assumes "sv_inv s" "kernel_runs (ad_kernel ad) (sv_kernel s) (snd (f (sv_kernel s)))"
  shows "advances ad s (snd (on_kernel f s))"
proof -
  obtain v t where t: "on_kernel f s = (v, t)" by fastforce
  then show ?thesis using advances_served [OF assms(1) served_kernel [OF t assms(2)]] by simp
qed

text \<open>A check that only reads comes first.\<close>

lemma advances_guard:
  "sv_inv s \<Longrightarrow> (\<And>v. m = Ok v \<Longrightarrow> advances ad s (snd (f v s))) \<Longrightarrow> advances ad s (snd (then_do (m, s) f))"
  by (cases m) (auto intro: advances_refl)

lemma fail_as_snd [simp]: "snd (fail_as f m) = snd m"
  by (simp add: fail_as_def)

lemma authority_advances:
  assumes s: "sv_inv s"
  shows "advances ad s (snd (supervisor_issue_root ad x g s))" "advances ad s (snd (supervisor_derive ad c p g now s))"
    "advances ad s (snd (supervisor_revoke ad c i s))"
  unfolding supervisor_issue_root_def supervisor_derive_def supervisor_revoke_def
  by (rule advances_guard [OF s], simp add: advances_refl [OF s] advances_call [OF s] kernel_call_runs)+

section \<open>Creation and shutdown\<close>

lemma create_advances:
  fixes ad :: "('k, 'ke, 'w, 're, 'c, 'ce) Adapters" and s :: "('k, 'w, 'c) Supervisor"
  assumes s: "sv_inv s"
  shows "advances ad s (snd (create_subject ad subject connection s))"
proof (cases "admit_subject ad subject connection s :: (('ke, 're, 'ce) SupervisorError, unit) result")
  case (Inl e)
  then show ?thesis using advances_refl [OF s] by (simp add: create_subject_def)
next
  case (Inr z)
  then have ok: "admit_subject ad subject connection s = (Ok () :: (('ke, 're, 'ce) SupervisorError, unit) result)" by simp
  have x: "sb_id subject |\<notin>| sv_issued_subjects s" "fcard (sv_issued_subjects s) < sl_max_subjects (sv_limits s)"
    using ok by (auto simp: admit_subject_def Let_def and_then_Ok split: if_splits)
  obtain res rec t where t: "create_subject ad subject connection s = (res, t)" "entered ad (sb_id subject) rec s t"
      "created (sb_id subject) connection res rec"
    using create_subject_spec [OF ok] by blast
  show ?thesis
    using advances_entered [OF s x t(2)] t(1,3) by (cases rec) (simp_all add: created_def)
qed

lemma shut_record_ok:
  assumes "shut res q" "nested q"
  shows "record_ok q"
  using assms by (cases res) (auto simp: shut_def record_ok_def)

lemma shutdown_advances:
  assumes s: "sv_inv s"
  shows "advances ad s (snd (shutdown_subject ad x s))"
proof (cases "\<exists>r. fmlookup (sv_subjects s) x = Some r \<and> sr_lifecycle r \<noteq> LifeClosed")
  case True
  then obtain r where r: "fmlookup (sv_subjects s) x = Some r" "sr_lifecycle r \<noteq> LifeClosed" by blast
  then have n: "nested r" using sv_invD(4) [OF s] by (simp add: record_ok_def)
  obtain res q t where q: "shutdown_subject ad x s = (res, t)" "moved ad x q s t" "nested q"
      "record_later (fmdom (sv_issued_handles s)) r q" "sr_runtime_handles q |\<subseteq>| sr_runtime_handles r" "shut res q"
    using shutdown_spec [OF r(1) n r(2)] by blast
  show ?thesis
    using advances_moved [OF s r(1) q(2) shut_record_ok [OF q(6,3)] q(4,5)] q(1) by simp
next
  case False
  then have "snd (shutdown_subject ad x s) = s"
    by (auto simp: shutdown_subject_def split: option.splits)
  then show ?thesis using advances_refl [OF s] by simp
qed

lemma then_do_reply: "snd (then_do m (\<lambda>v t. (g v, t))) = snd m"
  by (cases m; cases "fst m") auto

lemma dispatch_advances:
  assumes s: "sv_inv s"
  shows "advances ad s (snd (dispatch_request ad identity request s))" "advances ad s (snd (dispatch_wire ad identity bs s))"
proof -
  show *: "advances ad s (snd (dispatch_request ad identity request s))" for request
  proof (cases request)
    case (WireCloseSubject y)
    show ?thesis
      unfolding WireCloseSubject dispatch_request.simps
      by (rule advances_guard [OF s]) (simp add: then_do_reply shutdown_advances [OF s])
  next
    case (WireCloseHandle y h)
    then show ?thesis by (simp add: then_do_reply close_handle_advances [OF s])
  qed
  show "advances ad s (snd (dispatch_wire ad identity bs s))"
    unfolding dispatch_wire_def by (rule advances_guard [OF s]) (rule *)
qed

section \<open>The machine\<close>

text \<open>
  Every operation on a supervisor. \<open>DoHost\<close> is \<open>resources_mut\<close> and \<open>with_resources_and_callers\<close>: the
  host may change the two adapters in any way.
\<close>

datatype ('w, 'c) sv_op =
    DoCreateSubject Subject ConnectionIdentity
  | DoBind ConnectionIdentity
  | DoIssueRoot SubjectId CapabilityGrant
  | DoDerive ConnectionIdentity CapId CapabilityGrant MonotonicTime
  | DoRevoke ConnectionIdentity CapId
  | DoOpenHandle ConnectionIdentity HandleId ObjectId
  | DoCloseHandle ConnectionIdentity HandleId
  | DoShutdown SubjectId
  | DoDispatch ConnectionIdentity bytes
  | DoHost "'w \<Rightarrow> 'c \<Rightarrow> 'w \<times> 'c"

datatype sv_reply =
    RepliedUnit
  | RepliedSubject SubjectId
  | RepliedCapability CapId
  | RepliedRevocation RevocationStatus
  | RepliedDispatch DispatchResponse

definition sv_answer :: "('a \<Rightarrow> 'b) \<Rightarrow> ('s, 'e, 'a) outcome \<Rightarrow> ('s, 'e, 'b) outcome" where
  "sv_answer f m = then_do m (\<lambda>v s. (Ok (f v), s))"

lemma sv_answer_snd [simp]: "snd (sv_answer f m) = snd m"
  unfolding sv_answer_def by (rule then_do_reply)

fun sv_step ::
    "('k, 'ke, 'w, 're, 'c, 'ce) Adapters \<Rightarrow> ('w, 'c) sv_op \<Rightarrow> ('k, 'w, 'c) Supervisor \<Rightarrow>
     (('k, 'w, 'c) Supervisor, ('ke, 're, 'ce) SupervisorError, sv_reply) outcome" where
  "sv_step ad (DoCreateSubject x c) s = sv_answer (\<lambda>_. RepliedUnit) (create_subject ad x c s)"
| "sv_step ad (DoBind c) s = sv_answer RepliedSubject (bind_accepted_connection ad c s)"
| "sv_step ad (DoIssueRoot x g) s = sv_answer RepliedCapability (supervisor_issue_root ad x g s)"
| "sv_step ad (DoDerive c p g now) s = sv_answer RepliedCapability (supervisor_derive ad c p g now s)"
| "sv_step ad (DoRevoke c i) s = sv_answer RepliedRevocation (supervisor_revoke ad c i s)"
| "sv_step ad (DoOpenHandle c h obj) s = sv_answer (\<lambda>_. RepliedUnit) (supervisor_open_handle ad c h obj s)"
| "sv_step ad (DoCloseHandle c h) s = sv_answer (\<lambda>_. RepliedUnit) (supervisor_close_handle ad c h s)"
| "sv_step ad (DoShutdown x) s = sv_answer (\<lambda>_. RepliedUnit) (shutdown_subject ad x s)"
| "sv_step ad (DoDispatch c bs) s = sv_answer RepliedDispatch (dispatch_wire ad c bs s)"
| "sv_step ad (DoHost f) s =
     (let (_, s) = with_resources_and_callers (\<lambda>w c. ((), f w c)) s in (Ok RepliedUnit, s))"

lemma step_advances:
  assumes s: "sv_inv s"
  shows "advances ad s (snd (sv_step ad op s))"
proof (cases op)
  case (DoHost f)
  then show ?thesis
    using advances_host [OF s, of ad] by (simp add: with_resources_and_callers_def split: prod.splits)
qed (simp_all add: create_advances [OF s] bind_advances [OF s] authority_advances [OF s] open_handle_advances [OF s]
    close_handle_advances [OF s] shutdown_advances [OF s] dispatch_advances [OF s])

interpretation supervisor: machine "sv_step ad" sv_inv sv_later
  for ad :: "('k, 'ke, 'w, 're, 'c, 'ce) Adapters"
proof
  show "sv_inv (snd (sv_step ad op s))" if "sv_inv s" for op s
    using step_advances [OF that, of ad op] by (simp add: advances_def)
  show "sv_later s (snd (sv_step ad op s))" if "sv_inv s" for op s
    using step_advances [OF that, of ad op] by (simp add: advances_def)
qed (rule sv_later_refl, rule sv_later_trans)

lemma run_kernel:
  assumes "sv_inv s"
  shows "kernel_runs (ad_kernel ad) (sv_kernel s) (sv_kernel (run (sv_step ad) ops s))"
  using assms
proof (induction ops arbitrary: s)
  case Nil
  then show ?case by (simp add: runs_none)
next
  case (Cons op ops)
  have "advances ad s (snd (sv_step ad op s))" using step_advances [OF Cons.prems] .
  then show ?case using Cons.IH kernel_runs_trans by (fastforce simp: advances_def)
qed

lemma new_inv:
  assumes "new_with_limits ad k w c l = Ok s"
  shows "sv_inv s"
proof -
  have "s = \<lparr>sv_kernel = snd (ak_is_pristine (ad_kernel ad) k), sv_resources = w, sv_callers = c, sv_limits = l,
      sv_subjects = fmempty, sv_issued_subjects = {||}, sv_issued_handles = fmempty\<rparr>"
    using assms by (auto simp: new_with_limits_def and_then_Ok split: prod.splits sum.splits if_splits)
  then show ?thesis by (simp add: sv_inv_def fcard_fempty)
qed

end
