(* ===== verification/Spec2Isabelle.thy ===== *)
theory Spec2Isabelle
  imports Authority_Theorems Audit_Theorems Egress_Theorems Capfs_Theorems Supervisor_Machine
begin

text \<open>
  Airlock, a capability-based runtime for untrusted agents: root of the development.
\<close>

end
